(* ===== verification/JSPrelude.thy ===== *)
theory JSPrelude
  imports Main "HOL-Library.AList" "HOL-Library.Multiset"
begin

text \<open>
  The parts of the JavaScript standard library the modelled code uses, on HOL lists:
  \<open>Array.prototype.sort\<close> (stable, with a comparator), \<open>Map\<close> and \<open>Set\<close> (which remember
  insertion order), \<open>slice\<close> from the end and \<open>at(-1)\<close>. The comparator contract is the locale
  \<open>comparator\<close>; ordering by a key and lexicographic combination are instances of it.
\<close>

named_theorems js_simps \<open>evaluation rules of the JavaScript library model\<close>
named_theorems js_intros \<open>introduction rules of the JavaScript library model\<close>

section \<open>Arrays\<close>

text \<open>\<open>xs.at(-1)\<close>: the last element, or \<open>undefined\<close>.\<close>

definition at_last :: "'a list \<Rightarrow> 'a option" where
  "at_last xs = (if xs = [] then None else Some (last xs))"

text \<open>\<open>xs.length > cap ? xs.slice(xs.length - cap) : xs\<close>: the last \<open>cap\<close> elements.\<close>

definition keep_last :: "nat \<Rightarrow> 'a list \<Rightarrow> 'a list" where
  "keep_last cap xs = (if length xs > cap then drop (length xs - cap) xs else xs)"

lemma at_last_simps [simp]:
  "at_last [] = None"
  "at_last (xs @ [x]) = Some x"
  by (simp_all add: at_last_def)

lemma at_last_eq_None [simp]: "at_last xs = None \<longleftrightarrow> xs = []"
  by (simp add: at_last_def)

lemma at_last_Some_in: "at_last xs = Some x \<Longrightarrow> x \<in> set xs"
  by (auto simp: at_last_def split: if_splits)

lemma at_last_sorted_ge:
  "sorted_wrt R xs \<Longrightarrow> at_last xs = Some x \<Longrightarrow> y \<in> set xs \<Longrightarrow> y = x \<or> R y x"
  by (induction xs) (auto simp: at_last_def split: if_splits)

lemma keep_last_eq_drop: "keep_last cap xs = drop (length xs - cap) xs"
  by (simp add: keep_last_def)

lemma length_keep_last [simp]: "length (keep_last cap xs) = min cap (length xs)"
  by (simp add: keep_last_def)

lemma set_keep_last: "set (keep_last cap xs) \<subseteq> set xs"
  by (simp add: keep_last_eq_drop set_drop_subset)

lemma keep_last_id [simp]: "length xs \<le> cap \<Longrightarrow> keep_last cap xs = xs"
  by (simp add: keep_last_def)

lemma sorted_wrt_keep_last [js_intros]: "sorted_wrt R xs \<Longrightarrow> sorted_wrt R (keep_last cap xs)"
  by (simp add: keep_last_eq_drop sorted_wrt_drop)

lemma keep_last_suffix: "\<exists>ys. xs = ys @ keep_last cap xs"
  by (metis append_take_drop_id keep_last_eq_drop)

lemma at_last_keep_last: "0 < cap \<Longrightarrow> at_last (keep_last cap xs) = at_last xs"
  by (cases xs) (auto simp: at_last_def keep_last_eq_drop last_drop)

section \<open>Sorting with a comparator\<close>

text \<open>
  \<open>xs.sort(cmp)\<close>. ECMAScript requires a stable sort and leaves the algorithm open; for a
  consistent comparator the result is determined, and the insertion sort below computes it
  (\<open>js_sort_unique\<close>).
\<close>

fun sort_insert :: "('a \<Rightarrow> 'a \<Rightarrow> 'n::linordered_idom) \<Rightarrow> 'a \<Rightarrow> 'a list \<Rightarrow> 'a list" where
  "sort_insert cmp x [] = [x]"
| "sort_insert cmp x (y # ys) =
     (if cmp x y \<le> 0 then x # y # ys else y # sort_insert cmp x ys)"

definition js_sort :: "('a \<Rightarrow> 'a \<Rightarrow> 'n::linordered_idom) \<Rightarrow> 'a list \<Rightarrow> 'a list" where
  "js_sort cmp xs = foldr (sort_insert cmp) xs []"

lemma js_sort_simps [simp]:
  "js_sort cmp [] = []"
  "js_sort cmp (x # xs) = sort_insert cmp x (js_sort cmp xs)"
  by (simp_all add: js_sort_def)

lemma mset_sort_insert [simp]: "mset (sort_insert cmp x xs) = add_mset x (mset xs)"
  by (induction xs) auto

lemma mset_js_sort [simp]: "mset (js_sort cmp xs) = mset xs"
  by (induction xs) auto

lemma set_sort_insert [simp]: "set (sort_insert cmp x xs) = insert x (set xs)"
  by (metis mset_sort_insert set_mset_add_mset_insert set_mset_mset)

lemma set_js_sort [simp]: "set (js_sort cmp xs) = set xs"
  by (metis mset_js_sort set_mset_mset)

lemma length_js_sort [simp]: "length (js_sort cmp xs) = length xs"
  by (metis mset_js_sort size_mset)

lemma distinct_js_sort [simp]: "distinct (js_sort cmp xs) = distinct xs"
  by (metis mset_eq_imp_distinct_iff mset_js_sort)

lemma sorted_wrt_all: "(\<And>x y. x \<in> set xs \<Longrightarrow> y \<in> set xs \<Longrightarrow> R x y) \<Longrightarrow> sorted_wrt R xs"
  by (induction xs) auto

lemma js_sort_id: "sorted_wrt (\<lambda>a b. cmp a b \<le> 0) xs \<Longrightarrow> js_sort cmp xs = xs"
proof (induction xs)
  case Nil
  show ?case by simp
next
  case (Cons x xs)
  then show ?case by (cases xs) auto
qed

text \<open>The contract of a comparator: \<open>cmp a b \<le> 0\<close> is a total preorder.\<close>

locale comparator =
  fixes cmp :: "'a \<Rightarrow> 'a \<Rightarrow> 'n::linordered_idom"
  assumes cmp_total: "cmp a b \<le> 0 \<or> cmp b a \<le> 0"
    and cmp_trans: "cmp a b \<le> 0 \<Longrightarrow> cmp b c \<le> 0 \<Longrightarrow> cmp a c \<le> 0"
begin

lemma cmp_refl: "cmp a a \<le> 0"
  using cmp_total by blast

lemma sorted_sort_insert:
  "sorted_wrt (\<lambda>a b. cmp a b \<le> 0) xs \<Longrightarrow> sorted_wrt (\<lambda>a b. cmp a b \<le> 0) (sort_insert cmp x xs)"
proof (induction xs)
  case Nil
  show ?case by simp
next
  case (Cons y ys)
  then show ?case
    using cmp_total [of x y] by (auto intro: cmp_trans)
qed

lemma sorted_js_sort: "sorted_wrt (\<lambda>a b. cmp a b \<le> 0) (js_sort cmp xs)"
  by (induction xs) (auto intro: sorted_sort_insert)

lemma filter_sort_insert_pos:
  assumes "sorted_wrt (\<lambda>a b. cmp a b \<le> 0) xs" "P x"
  shows "filter P (sort_insert cmp x xs) = sort_insert cmp x (filter P xs)"
  using assms
proof (induction xs)
  case Nil
  then show ?case by simp
next
  case (Cons y ys)
  show ?case
  proof (cases "cmp x y \<le> 0")
    case True
    then have "\<forall>z \<in> set (filter P (y # ys)). cmp x z \<le> 0"
      using Cons.prems by (auto intro: cmp_trans)
    then have "sort_insert cmp x (filter P (y # ys)) = x # filter P (y # ys)"
      by (cases "filter P (y # ys)") auto
    with True Cons.prems show ?thesis by simp
  next
    case False
    with Cons show ?thesis by auto
  qed
qed

lemma filter_sort_insert_neg: "\<not> P x \<Longrightarrow> filter P (sort_insert cmp x xs) = filter P xs"
  by (induction xs) auto

lemma filter_js_sort: "filter P (js_sort cmp xs) = js_sort cmp (filter P xs)"
  by (induction xs) (auto simp: filter_sort_insert_pos filter_sort_insert_neg sorted_js_sort)

lemma js_sort_stable:
  assumes "\<And>a b. P a \<Longrightarrow> P b \<Longrightarrow> cmp a b \<le> 0"
  shows "filter P (js_sort cmp xs) = filter P xs"
proof -
  have "js_sort cmp (filter P xs) = filter P xs"
    using assms by (intro js_sort_id sorted_wrt_all) simp
  then show ?thesis by (simp add: filter_js_sort)
qed

text \<open>Every sorted permutation that keeps equal elements in order is the model's result.\<close>

lemma js_sort_unique:
  assumes "sorted_wrt (\<lambda>a b. cmp a b \<le> 0) ys"
    and "\<And>x. filter (\<lambda>y. cmp x y \<le> 0 \<and> cmp y x \<le> 0) ys
            = filter (\<lambda>y. cmp x y \<le> 0 \<and> cmp y x \<le> 0) xs"
    and "mset ys = mset xs"
  shows "ys = js_sort cmp xs"
proof -
  have "sorted_wrt (\<lambda>a b. cmp a b \<le> 0) zs \<Longrightarrow> mset ys = mset zs
      \<Longrightarrow> (\<And>x. filter (\<lambda>y. cmp x y \<le> 0 \<and> cmp y x \<le> 0) ys
            = filter (\<lambda>y. cmp x y \<le> 0 \<and> cmp y x \<le> 0) zs)
      \<Longrightarrow> sorted_wrt (\<lambda>a b. cmp a b \<le> 0) ys \<Longrightarrow> ys = zs" for ys zs :: "'a list"
  proof (induction ys arbitrary: zs)
    case Nil
    then show ?case by simp
  next
    case (Cons y ys)
    then obtain z zs' where zs: "zs = z # zs'" by (cases zs) auto
    have mem: "z \<in> set (y # ys)" "y \<in> set zs"
      using Cons.prems(2) zs by (metis list.set_intros(1) mset_eq_setD)+
    then have "cmp y z \<le> 0" "cmp z y \<le> 0"
      using Cons.prems(1,4) zs cmp_refl by auto
    moreover from Cons.prems(3) [of y] have
      "filter (\<lambda>u. cmp y u \<le> 0 \<and> cmp u y \<le> 0) (y # ys)
        = filter (\<lambda>u. cmp y u \<le> 0 \<and> cmp u y \<le> 0) (z # zs')"
      by (simp add: zs)
    ultimately have yz: "y = z" by (simp add: cmp_refl)
    have "ys = zs'"
    proof (rule Cons.IH)
      show "sorted_wrt (\<lambda>a b. cmp a b \<le> 0) zs'" using Cons.prems(1) zs by simp
      show "mset ys = mset zs'" using Cons.prems(2) zs yz by simp
      show "sorted_wrt (\<lambda>a b. cmp a b \<le> 0) ys" using Cons.prems(4) by simp
      show "filter (\<lambda>u. cmp x u \<le> 0 \<and> cmp u x \<le> 0) ys
          = filter (\<lambda>u. cmp x u \<le> 0 \<and> cmp u x \<le> 0) zs'" for x
        using Cons.prems(3) [of x] by (simp add: zs yz split: if_splits)
    qed
    with zs yz show ?case by simp
  qed
  moreover have "filter (\<lambda>y. cmp x y \<le> 0 \<and> cmp y x \<le> 0) (js_sort cmp xs)
      = filter (\<lambda>y. cmp x y \<le> 0 \<and> cmp y x \<le> 0) xs" for x
    by (rule js_sort_stable) (meson cmp_trans)
  ultimately show ?thesis
    using assms by (simp add: sorted_js_sort)
qed

end

text \<open>Ordering by the difference of a numeric key, \<open>(a, b) => key(a) - key(b)\<close>.\<close>

definition by_key :: "('a \<Rightarrow> 'n::linordered_idom) \<Rightarrow> 'a \<Rightarrow> 'a \<Rightarrow> 'n" where
  "by_key key a b = key a - key b"

lemma by_key_le [simp]: "by_key key a b \<le> 0 \<longleftrightarrow> key a \<le> key b"
  by (simp add: by_key_def)

interpretation by_key: comparator "by_key key"
  by unfold_locales auto

text \<open>\<open>first(a, b) || second(a, b)\<close>: the second comparator decides where the first gives 0.\<close>

definition cmp_or :: "('a \<Rightarrow> 'a \<Rightarrow> 'n::linordered_idom) \<Rightarrow> ('a \<Rightarrow> 'a \<Rightarrow> 'n) \<Rightarrow> 'a \<Rightarrow> 'a \<Rightarrow> 'n" where
  "cmp_or f g a b = (if f a b \<noteq> 0 then f a b else g a b)"

lemma cmp_or_le:
  "cmp_or (by_key key) g a b \<le> 0 \<longleftrightarrow> key a < key b \<or> key a = key b \<and> g a b \<le> 0"
  by (auto simp: cmp_or_def by_key_def)

lemma cmp_or_by_key:
  assumes "comparator g"
  shows "comparator (cmp_or (by_key key) g)"
proof
  show "cmp_or (by_key key) g a b \<le> 0 \<or> cmp_or (by_key key) g b a \<le> 0" for a b
    using comparator.cmp_total [OF assms, of a b] by (auto simp: cmp_or_le)
  show "cmp_or (by_key key) g a c \<le> 0"
    if "cmp_or (by_key key) g a b \<le> 0" "cmp_or (by_key key) g b c \<le> 0" for a b c
    using that comparator.cmp_trans [OF assms, of a b c] by (auto simp: cmp_or_le)
qed

section \<open>Map: insertion-ordered association lists\<close>

text \<open>
  \<open>map.set(k, v)\<close> keeps the position of a key that is present and appends a new one, which is
  \<open>AList.update\<close>; \<open>map.get\<close> is \<open>map_of\<close>; \<open>[...map.values()]\<close> is the list of second components.
\<close>

definition map_set_all :: "('a \<Rightarrow> 'k) \<Rightarrow> ('k \<times> 'a) list \<Rightarrow> 'a list \<Rightarrow> ('k \<times> 'a) list" where
  "map_set_all key m xs = foldl (\<lambda>m x. AList.update (key x) x m) m xs"

lemma map_set_all_simps [simp]:
  "map_set_all key m [] = m"
  "map_set_all key m (x # xs) = map_set_all key (AList.update (key x) x m) xs"
  by (simp_all add: map_set_all_def)

lemma map_set_all_append:
  "map_set_all key m (xs @ ys) = map_set_all key (map_set_all key m xs) ys"
  by (simp add: map_set_all_def)

lemma distinct_map_set_all [js_intros]:
  "distinct (map fst m) \<Longrightarrow> distinct (map fst (map_set_all key m xs))"
  by (induction xs arbitrary: m) (auto simp: AList.distinct_update)

lemma keys_map_set_all: "fst ` set (map_set_all key m xs) = fst ` set m \<union> key ` set xs"
  by (induction xs arbitrary: m) (auto simp: AList.dom_update)

lemma set_update_subset: "set (AList.update k v m) \<subseteq> insert (k, v) (set m)"
  by (induction m) auto

lemma map_set_all_keyed:
  "\<forall>(k, x) \<in> set m. key x = k \<Longrightarrow> \<forall>(k, x) \<in> set (map_set_all key m xs). key x = k"
proof (induction xs arbitrary: m)
  case Nil
  then show ?case by simp
next
  case (Cons x xs)
  have "\<forall>(k, y) \<in> set (AList.update (key x) x m). key y = k"
    using Cons.prems set_update_subset [of "key x" x m] by auto
  then show ?case using Cons.IH by simp
qed

lemma map_of_map_set_all:
  "map_of (map_set_all key m xs) k
     = (case find (\<lambda>x. key x = k) (rev xs) of Some x \<Rightarrow> Some x | None \<Rightarrow> map_of m k)"
proof (induction xs rule: rev_induct)
  case Nil
  show ?case by simp
next
  case (snoc x xs)
  then show ?case
    by (auto simp: map_set_all_append AList.update_conv')
qed

lemma update_new: "k \<notin> fst ` set m \<Longrightarrow> AList.update k v m = m @ [(k, v)]"
  by (induction m) auto

lemma map_set_all_fresh:
  "distinct (map key xs) \<Longrightarrow> (\<forall>x \<in> set xs. key x \<notin> fst ` set m)
    \<Longrightarrow> map_set_all key m xs = m @ map (\<lambda>x. (key x, x)) xs"
proof (induction xs arbitrary: m)
  case Nil
  then show ?case by simp
next
  case (Cons x xs)
  then have "\<forall>y \<in> set xs. key y \<notin> fst ` set (m @ [(key x, x)])"
    by (auto simp: image_iff)
  then show ?case
    using Cons by (simp add: update_new)
qed

section \<open>Set: insertion-ordered duplicate-free lists\<close>

definition set_add :: "'a list \<Rightarrow> 'a \<Rightarrow> 'a list" where
  "set_add s x = (if x \<in> set s then s else s @ [x])"

lemma set_set_add [simp]: "set (set_add s x) = insert x (set s)"
  by (auto simp: set_add_def)

lemma distinct_set_add [simp]: "distinct (set_add s x) = distinct s"
  by (auto simp: set_add_def)

definition set_of_list :: "'a list \<Rightarrow> 'a list" where
  "set_of_list xs = foldl set_add [] xs"

lemma foldl_set_add:
  "set (foldl set_add s xs) = set s \<union> set xs"
  "distinct (foldl set_add s xs) = distinct s"
  by (induction xs arbitrary: s) auto

lemma set_set_of_list [simp]: "set (set_of_list xs) = set xs"
  by (simp add: set_of_list_def foldl_set_add)

lemma distinct_set_of_list [simp]: "distinct (set_of_list xs)"
  by (simp add: set_of_list_def foldl_set_add)

end
