(* ===== verification/JSNumber.thy ===== *)
theory JSNumber
  imports Complex_Main JSPrelude
begin

text \<open>
  JavaScript numbers. A finite number is the rational its IEEE 754 double denotes; the two
  zeros are one value, which no modelled operation tells apart. \<open>fl\<close> is the rounding of a
  real result to the nearest double (ties to even, gradual underflow), so \<open>a * b\<close> of the
  source is \<open>fl (a * b)\<close> here. The type \<open>jsnum\<close> adds NaN and the infinities for code that
  receives unchecked numbers.
\<close>

named_theorems fl_simps \<open>rewriting of double rounding\<close>

section \<open>Powers of two and binary exponents\<close>

definition pow2 :: "int \<Rightarrow> rat" where
  "pow2 k = (if 0 \<le> k then 2 ^ nat k else 1 / 2 ^ nat (- k))"

lemma pow2_pos [simp]: "0 < pow2 k"
  by (simp add: pow2_def)

lemma pow2_nonzero [simp]: "pow2 k \<noteq> 0"
  by (metis less_irrefl pow2_pos)

lemma pow2_nonneg [simp]: "0 \<le> pow2 k"
  by (simp add: less_imp_le)

lemma pow2_powi: "pow2 k = 2 powi k"
  by (simp add: pow2_def power_int_def inverse_eq_divide power_one_over)

lemma pow2_add: "pow2 (i + j) = pow2 i * pow2 j"
  by (simp add: pow2_powi power_int_add)

lemma pow2_diff: "pow2 (i - j) = pow2 i / pow2 j"
  by (simp add: pow2_powi power_int_diff)

lemma pow2_mono: "i \<le> j \<Longrightarrow> pow2 i \<le> pow2 j"
  by (simp add: pow2_powi power_int_increasing)

lemma pow2_strict: "i < j \<Longrightarrow> pow2 i < pow2 j"
  by (simp add: pow2_powi power_int_strict_increasing)

lemma pow2_less: "pow2 i < pow2 j \<longleftrightarrow> i < j"
  by (meson linorder_not_less pow2_mono pow2_strict)

lemma pow2_le: "pow2 i \<le> pow2 j \<longleftrightarrow> i \<le> j"
  by (meson linorder_not_less pow2_less)

lemma pow2_nat: "pow2 (int n) = 2 ^ n"
  by (simp add: pow2_def)

fun ilog2 :: "int \<Rightarrow> int" where
  "ilog2 n = (if n < 2 then 0 else ilog2 (n div 2) + 1)"

declare ilog2.simps [simp del]

lemma ilog2_nonneg: "0 \<le> ilog2 n"
proof (induction n rule: ilog2.induct)
  case (1 n)
  then show ?case by (cases "n < 2") (simp_all add: ilog2.simps [of n])
qed

lemma ilog2_bounds: "0 < n \<Longrightarrow> pow2 (ilog2 n) \<le> of_int n \<and> of_int n < pow2 (ilog2 n + 1)"
proof (induction n rule: ilog2.induct)
  case (1 n)
  show ?case
  proof (cases "n < 2")
    case True
    with 1 have "n = 1" by simp
    then show ?thesis by (simp add: ilog2.simps [of 1] pow2_def)
  next
    case False
    let ?h = "n div 2"
    have IH: "pow2 (ilog2 ?h) \<le> of_int ?h" "of_int ?h < pow2 (ilog2 ?h + 1)"
      using 1 False by simp_all
    have p: "pow2 (ilog2 ?h + 1) = of_int (2 ^ nat (ilog2 ?h + 1))"
      using ilog2_nonneg [of ?h] by (simp add: pow2_def)
    then have "?h < 2 ^ nat (ilog2 ?h + 1)"
      using IH(2) by (simp only: of_int_less_iff)
    then have "n < 2 * 2 ^ nat (ilog2 ?h + 1)" by linarith
    then have "of_int n < (of_int (2 * 2 ^ nat (ilog2 ?h + 1)) :: rat)"
      by (simp only: of_int_less_iff)
    also have "\<dots> = pow2 (ilog2 ?h + 1 + 1)"
      using p by (simp only: pow2_add [of _ 1] of_int_mult) (simp add: pow2_def)
    finally have up: "of_int n < pow2 (ilog2 ?h + 1 + 1)" .
    have "of_int (2 * ?h) \<le> (of_int n :: rat)" by (simp only: of_int_le_iff)
    then have "2 * pow2 (ilog2 ?h) \<le> of_int n" using IH(1) by simp
    then have "pow2 (ilog2 ?h + 1) \<le> of_int n"
      by (simp only: pow2_add) (simp add: pow2_def mult.commute)
    with up False show ?thesis by (simp add: ilog2.simps [of n])
  qed
qed

text \<open>The exponent \<open>e\<close> with \<open>2^e \<le> x < 2^(e+1)\<close>, for positive \<open>x\<close>.\<close>

definition binexp :: "rat \<Rightarrow> int" where
  "binexp x = (let (a, b) = quotient_of x; k = ilog2 a - ilog2 b
               in if pow2 k \<le> x then k else k - 1)"

lemma binexp_bounds:
  assumes "0 < x"
  shows "pow2 (binexp x) \<le> x" and "x < pow2 (binexp x + 1)"
proof -
  obtain a b where q: "quotient_of x = (a, b)" by fastforce
  then have b: "0 < b" and x: "x = of_int a / of_int b"
    by (auto simp: quotient_of_denom_pos quotient_of_div)
  with assms have a: "0 < a" by (simp add: zero_less_divide_iff)
  define la lb where "la = ilog2 a" and "lb = ilog2 b"
  have A: "pow2 la \<le> of_int a" "of_int a < pow2 (la + 1)"
    and B: "pow2 lb \<le> of_int b" "of_int b < pow2 (lb + 1)"
    using ilog2_bounds a b by (simp_all add: la_def lb_def)
  have up: "x < pow2 (la - lb + 1)"
  proof -
    have "x < pow2 (la + 1) / of_int b"
      using A b by (simp add: x divide_strict_right_mono)
    also have "\<dots> \<le> pow2 (la + 1) / pow2 lb"
      using B by (intro divide_left_mono) (simp_all add: b)
    finally show ?thesis by (simp add: pow2_diff [symmetric] algebra_simps)
  qed
  have lo: "pow2 (la - lb - 1) \<le> x"
  proof -
    have "pow2 (la - (lb + 1)) = pow2 la / pow2 (lb + 1)" by (rule pow2_diff)
    also have "\<dots> \<le> pow2 la / of_int b"
      using B b by (intro divide_left_mono) simp_all
    also have "\<dots> \<le> x"
      using A b by (simp add: x divide_right_mono)
    finally show ?thesis by (simp add: algebra_simps)
  qed
  show "pow2 (binexp x) \<le> x" "x < pow2 (binexp x + 1)"
    using up lo by (auto simp: binexp_def q la_def [symmetric] lb_def [symmetric] Let_def)
qed

lemma binexp_mono:
  assumes "0 < x" "x \<le> y"
  shows "binexp x \<le> binexp y"
proof -
  have "pow2 (binexp x) < pow2 (binexp y + 1)"
    using binexp_bounds(1) [of x] binexp_bounds(2) [of y] assms by linarith
  then show ?thesis by (simp add: pow2_less)
qed

section \<open>Rounding\<close>

definition round_half_even :: "rat \<Rightarrow> int" where
  "round_half_even x =
     (let f = \<lfloor>x\<rfloor>; d = x - of_int f
      in if d < 1 / 2 then f else if 1 / 2 < d then f + 1 else if even f then f else f + 1)"

lemma round_half_even_of_int [simp]: "round_half_even (of_int n) = n"
  by (simp add: round_half_even_def)

lemma round_half_even_mono: "x \<le> y \<Longrightarrow> round_half_even x \<le> round_half_even y"
proof -
  assume le: "x \<le> y"
  then have fl: "\<lfloor>x\<rfloor> \<le> \<lfloor>y\<rfloor>" by (rule floor_mono)
  show ?thesis
  proof (cases "\<lfloor>x\<rfloor> = \<lfloor>y\<rfloor>")
    case True
    with le show ?thesis by (auto simp: round_half_even_def Let_def)
  next
    case False
    with fl have "\<lfloor>x\<rfloor> + 1 \<le> \<lfloor>y\<rfloor>" by simp
    then show ?thesis by (auto simp: round_half_even_def Let_def)
  qed
qed

lemma round_half_even_near: "\<bar>of_int (round_half_even x) - x\<bar> \<le> 1 / 2"
proof -
  have "of_int \<lfloor>x\<rfloor> \<le> x" "x < of_int \<lfloor>x\<rfloor> + 1" by linarith+
  then show ?thesis by (auto simp: round_half_even_def Let_def)
qed

lemma round_half_even_minus: "round_half_even (- x) = - round_half_even x"
proof (cases "x \<in> \<int>")
  case True
  then obtain n where "x = of_int n" by (auto elim: Ints_cases)
  then show ?thesis by (metis of_int_minus round_half_even_of_int)
next
  case False
  then have "of_int \<lfloor>x\<rfloor> \<noteq> x" by (metis Ints_of_int)
  then have "\<lfloor>- x\<rfloor> = - \<lfloor>x\<rfloor> - 1"
    by (auto simp: floor_minus ceiling_altdef)
  then show ?thesis by (auto simp: round_half_even_def Let_def)
qed

text \<open>Unit in the last place of the doubles with exponent \<open>e\<close>; 53 bits, least exponent -1074.\<close>

definition ulp :: "int \<Rightarrow> rat" where
  "ulp e = pow2 (max e (-1022) - 52)"

definition fl :: "rat \<Rightarrow> rat" where
  "fl x = (if x = 0 then 0
           else (let u = ulp (binexp \<bar>x\<bar>) in of_int (round_half_even (x / u)) * u))"

lemma ulp_pos [simp]: "0 < ulp e"
  by (simp add: ulp_def)

lemma fl_0 [simp]: "fl 0 = 0"
  by (simp add: fl_def)

lemma fl_minus: "fl (- x) = - fl x"
  by (simp add: fl_def Let_def round_half_even_minus)

lemma fl_nonneg: "0 \<le> x \<Longrightarrow> 0 \<le> fl x"
proof -
  assume "0 \<le> x"
  then have "0 \<le> x / ulp (binexp \<bar>x\<bar>)" by (simp add: less_imp_le)
  then have "round_half_even 0 \<le> round_half_even (x / ulp (binexp \<bar>x\<bar>))"
    by (rule round_half_even_mono)
  then show ?thesis
    using round_half_even_of_int [of 0] by (simp add: fl_def Let_def less_imp_le)
qed

lemma fl_upper:
  assumes "0 < x" "max (binexp x) (-1022) \<le> e"
  shows "fl x \<le> pow2 (e + 1)"
proof -
  let ?E = "max (binexp x) (-1022)"
  have "x < pow2 (binexp x + 1)" by (rule binexp_bounds(2) [OF assms(1)])
  also have "\<dots> \<le> pow2 (?E + 1)" by (simp add: pow2_le)
  finally have "x / ulp (binexp x) \<le> pow2 (?E + 1) / ulp (binexp x)"
    by (simp add: divide_right_mono less_imp_le)
  also have "\<dots> = pow2 53"
    by (simp add: ulp_def pow2_diff [symmetric])
  also have "\<dots> = of_int (2 ^ 53)" by (simp add: pow2_def)
  finally have "round_half_even (x / ulp (binexp x)) \<le> 2 ^ 53"
    by (metis round_half_even_mono round_half_even_of_int)
  then have "of_int (round_half_even (x / ulp (binexp x))) \<le> (of_int (2 ^ 53) :: rat)"
    by (simp only: of_int_le_iff)
  then have "fl x \<le> of_int (2 ^ 53) * ulp (binexp x)"
    using assms(1) by (simp add: fl_def Let_def mult_right_mono less_imp_le)
  also have "\<dots> = pow2 53 * pow2 (?E - 52)" by (simp add: ulp_def pow2_def)
  also have "\<dots> = pow2 (?E + 1)" by (simp add: pow2_add [symmetric] add.commute)
  also have "\<dots> \<le> pow2 (e + 1)" using assms(2) by (simp add: pow2_le)
  finally show ?thesis .
qed

lemma fl_lower:
  assumes "0 < x" "-1022 \<le> binexp x"
  shows "pow2 (binexp x) \<le> fl x"
proof -
  have "of_int (2 ^ 52) = pow2 52" by (simp add: pow2_def)
  also have "\<dots> = pow2 (binexp x) / ulp (binexp x)"
    using assms(2) by (simp add: ulp_def pow2_diff [symmetric])
  also have "\<dots> \<le> x / ulp (binexp x)"
    using binexp_bounds(1) [OF assms(1)] by (simp add: divide_right_mono less_imp_le)
  finally have "2 ^ 52 \<le> round_half_even (x / ulp (binexp x))"
    by (metis round_half_even_mono round_half_even_of_int)
  then have "of_int (2 ^ 52) \<le> (of_int (round_half_even (x / ulp (binexp x))) :: rat)"
    by (simp only: of_int_le_iff)
  then have "of_int (2 ^ 52) * ulp (binexp x) \<le> fl x"
    using assms(1) by (simp add: fl_def Let_def mult_right_mono less_imp_le)
  moreover have "of_int (2 ^ 52) * ulp (binexp x) = pow2 (binexp x)"
  proof -
    have "of_int (2 ^ 52) * ulp (binexp x) = pow2 52 * pow2 (binexp x - 52)"
      using assms(2) by (simp add: ulp_def pow2_def)
    then show ?thesis by (simp add: pow2_add [symmetric])
  qed
  ultimately show ?thesis by simp
qed

lemma fl_mono_pos:
  assumes "0 < x" "x \<le> y"
  shows "fl x \<le> fl y"
proof -
  let ?E = "\<lambda>x. max (binexp x) (-1022)"
  have y: "0 < y" using assms by simp
  have e: "binexp x \<le> binexp y" by (rule binexp_mono [OF assms])
  show ?thesis
  proof (cases "?E x = ?E y")
    case True
    then have u: "ulp (binexp x) = ulp (binexp y)" by (simp add: ulp_def)
    have "round_half_even (x / ulp (binexp y)) \<le> round_half_even (y / ulp (binexp y))"
      using assms(2) by (intro round_half_even_mono) (simp add: divide_right_mono less_imp_le)
    with assms y u show ?thesis
      by (simp add: fl_def Let_def mult_right_mono less_imp_le)
  next
    case False
    with e have less: "?E x + 1 \<le> binexp y" and n: "-1022 \<le> binexp y" by auto
    have "fl x \<le> pow2 (?E x + 1)" by (rule fl_upper [OF assms(1)]) simp
    also have "\<dots> \<le> pow2 (binexp y)" using less by (simp add: pow2_le)
    also have "\<dots> \<le> fl y" by (rule fl_lower [OF y n])
    finally show ?thesis .
  qed
qed

text \<open>Rounding is monotone, so it keeps every comparison between exact results.\<close>

lemma fl_mono: "x \<le> y \<Longrightarrow> fl x \<le> fl y"
proof -
  assume le: "x \<le> y"
  consider "0 < x" | "x \<le> 0" "0 \<le> y" | "y < 0" by linarith
  then show ?thesis
  proof cases
    case 1
    with le show ?thesis by (intro fl_mono_pos)
  next
    case 2
    then show ?thesis
      using fl_nonneg [of y] fl_nonneg [of "- x"] by (simp add: fl_minus)
  next
    case 3
    with le show ?thesis
      using fl_mono_pos [of "- y" "- x"] by (simp add: fl_minus)
  qed
qed

text \<open>A number with a significand of at most 53 bits and a sufficient exponent is a double.\<close>

lemma fl_pow2_53:
  assumes "-1074 \<le> k"
  shows "fl (pow2 (k + 53)) = pow2 (k + 53)"
proof -
  let ?x = "pow2 (k + 53)"
  have pos: "0 < ?x" by simp
  have e: "binexp ?x = k + 53"
  proof -
    have "pow2 (binexp ?x) \<le> pow2 (k + 53)" "pow2 (k + 53) < pow2 (binexp ?x + 1)"
      using binexp_bounds [OF pos] by simp_all
    then show ?thesis by (simp add: pow2_le pow2_less)
  qed
  have "?x / ulp (binexp ?x) = of_int (2 ^ 52)"
    using assms by (simp only: e) (simp add: ulp_def pow2_diff [symmetric] pow2_def [of 52])
  then have "round_half_even (?x / ulp (binexp ?x)) = 2 ^ 52" by (simp only: round_half_even_of_int)
  then have "fl ?x = of_int (2 ^ 52) * ulp (binexp ?x)" using pos by (simp add: fl_def Let_def)
  also have "\<dots> = pow2 52 * pow2 (k + 1)"
  proof -
    have "max (k + 53) (-1022) - 52 = k + 1" using assms by simp
    then show ?thesis by (simp only: e ulp_def) (simp add: pow2_def [of 52])
  qed
  also have "\<dots> = pow2 (52 + (k + 1))" by (simp only: pow2_add)
  also have "52 + (k + 1) = k + 53" by simp
  finally show ?thesis .
qed

lemma fl_exact_pos:
  assumes "0 < m" "m \<le> 2 ^ 53" "-1074 \<le> k"
  shows "fl (of_int m * pow2 k) = of_int m * pow2 k"
proof -
  let ?x = "of_int m * pow2 k"
  have pos: "0 < ?x" using assms(1) by simp
  show ?thesis
  proof (cases "m = 2 ^ 53")
    case True
    then have "?x = pow2 (k + 53)" by (simp add: pow2_add pow2_def [of 53])
    then show ?thesis by (simp only: fl_pow2_53 [OF assms(3)])
  next
    case False
    with assms(2) have m: "m < 2 ^ 53" by simp
    have "?x < pow2 (53 + k)"
    proof -
      have "of_int m < (of_int (2 ^ 53) :: rat)" using m by (simp only: of_int_less_iff)
      then show ?thesis by (simp add: pow2_add pow2_def [of 53])
    qed
    then have "pow2 (binexp ?x) < pow2 (53 + k)"
      using binexp_bounds(1) [OF pos] by linarith
    then have "binexp ?x \<le> 52 + k" by (simp add: pow2_less)
    then have le: "max (binexp ?x) (-1022) - 52 \<le> k" using assms(3) by simp
    define j where "j = k - (max (binexp ?x) (-1022) - 52)"
    have j: "0 \<le> j" using le by (simp add: j_def)
    have "?x / ulp (binexp ?x) = of_int m * pow2 j"
      by (simp add: ulp_def j_def pow2_diff)
    also have "\<dots> = of_int (m * 2 ^ nat j)" using j by (simp add: pow2_def)
    finally have q: "?x / ulp (binexp ?x) = of_int (m * 2 ^ nat j)" .
    then have "round_half_even (?x / ulp (binexp ?x)) = m * 2 ^ nat j"
      by (simp only: round_half_even_of_int)
    then have "fl ?x = of_int (m * 2 ^ nat j) * ulp (binexp ?x)"
      using pos by (simp add: fl_def Let_def)
    moreover have "?x = of_int (m * 2 ^ nat j) * ulp (binexp ?x)"
      using q by (metis less_irrefl nonzero_divide_eq_eq ulp_pos)
    ultimately show ?thesis by (simp only:)
  qed
qed

lemma fl_exact:
  assumes "\<bar>m\<bar> \<le> 2 ^ 53" "-1074 \<le> k"
  shows "fl (of_int m * pow2 k) = of_int m * pow2 k"
proof -
  consider "0 < m" | "m = 0" | "m < 0" by linarith
  then show ?thesis
  proof cases
    case 1
    with assms show ?thesis by (intro fl_exact_pos) simp_all
  next
    case 3
    then have "fl (of_int (- m) * pow2 k) = of_int (- m) * pow2 k"
      using assms by (intro fl_exact_pos) simp_all
    then show ?thesis by (simp add: fl_minus)
  qed simp
qed

lemma fl_of_int [fl_simps]: "\<bar>m\<bar> \<le> 2 ^ 53 \<Longrightarrow> fl (of_int m) = of_int m"
  using fl_exact [of m 0] by (simp add: pow2_def)

lemma fl_of_nat [fl_simps]: "n \<le> 2 ^ 53 \<Longrightarrow> fl (of_nat n) = of_nat n"
  using fl_of_int [of "int n"] by simp

lemma fl_numeral [fl_simps]: "(numeral w :: int) \<le> 2 ^ 53 \<Longrightarrow> fl (numeral w) = numeral w"
  using fl_of_int [of "numeral w"] by simp

lemma fl_1 [simp]: "fl 1 = 1"
  using fl_of_int [of 1] by simp

end
