(* ===== verification/JSString.thy ===== *)
theory JSString
  imports JSNumber
begin

text \<open>
  JavaScript strings as character lists (UTF-16 code units below 256), the string methods the
  code calls, decimal rendering of non-negative integers, \<open>Number.prototype.toFixed\<close>,
  \<open>Number.prototype.toString\<close> (shortest digits that read back as the same double) and the
  string-to-number conversion of \<open>Number(s)\<close>, after ECMA-262.
\<close>

section \<open>Characters and trimming\<close>

definition is_digit :: "char \<Rightarrow> bool" where
  "is_digit c = (48 \<le> (of_char c :: int) \<and> (of_char c :: int) \<le> 57)"

definition is_ws :: "char \<Rightarrow> bool" where
  "is_ws c = ((of_char c :: int) \<in> {9, 10, 11, 12, 13, 32, 160})"

definition trim :: "string \<Rightarrow> string" where
  "trim s = rev (dropWhile is_ws (rev (dropWhile is_ws s)))"

definition pad_start :: "nat \<Rightarrow> char \<Rightarrow> string \<Rightarrow> string" where
  "pad_start n c s = replicate (n - length s) c @ s"

text \<open>\<open>toUpperCase\<close> on ASCII letters; the code applies it to component names and identifiers.\<close>

definition upper_char :: "char \<Rightarrow> char" where
  "upper_char c = (if 97 \<le> (of_char c :: int) \<and> (of_char c :: int) \<le> 122
                   then char_of ((of_char c :: int) - 32) else c)"

definition to_upper :: "string \<Rightarrow> string" where
  "to_upper s = map upper_char s"

fun starts_with :: "string \<Rightarrow> string \<Rightarrow> bool" where
  "starts_with [] s = True"
| "starts_with (p # ps) [] = False"
| "starts_with (p # ps) (c # cs) = (p = c \<and> starts_with ps cs)"

text \<open>\<open>xs.join(sep)\<close>.\<close>

fun join_with :: "string \<Rightarrow> string list \<Rightarrow> string" where
  "join_with sep [] = []"
| "join_with sep [x] = x"
| "join_with sep (x # y # xs) = x @ sep @ join_with sep (y # xs)"

text \<open>\<open>a < b\<close> on strings: by code units; the order of \<open>sort()\<close> without a comparator.\<close>

fun code_unit_cmp :: "string \<Rightarrow> string \<Rightarrow> int" where
  "code_unit_cmp [] [] = 0"
| "code_unit_cmp [] (d # ds) = - 1"
| "code_unit_cmp (c # cs) [] = 1"
| "code_unit_cmp (c # cs) (d # ds) =
     (if (of_char c :: int) < of_char d then - 1
      else if (of_char d :: int) < of_char c then 1
      else code_unit_cmp cs ds)"

lemma code_unit_cmp_lexord:
  "code_unit_cmp a b \<le> 0
     \<longleftrightarrow> lexordp_eq (map (of_char :: char \<Rightarrow> int) a) (map of_char b)"
  by (induction a b rule: code_unit_cmp.induct) auto

lemma code_unit_cmp_total: "code_unit_cmp a b \<le> 0 \<or> code_unit_cmp b a \<le> 0"
  unfolding code_unit_cmp_lexord by (rule lexordp_eq_linear)

lemma code_unit_cmp_trans:
  "code_unit_cmp a b \<le> 0 \<Longrightarrow> code_unit_cmp b c \<le> 0 \<Longrightarrow> code_unit_cmp a c \<le> 0"
  unfolding code_unit_cmp_lexord by (rule lexordp_eq_trans)

lemma code_unit_cmp_antisym:
  assumes "code_unit_cmp a b \<le> 0" "code_unit_cmp b a \<le> 0"
  shows "a = b"
proof -
  have "map (of_char :: char \<Rightarrow> int) a = map of_char b"
    using assms unfolding code_unit_cmp_lexord by (rule lexordp_eq_antisym)
  then show ?thesis
    by (simp add: inj_map_eq_map [OF inj_of_char])
qed

text \<open>
  \<open>a.localeCompare(b)\<close> depends on the collation of the runtime: a parameter, of which the
  code relies on being a consistent order. The code-unit order of \<open>sort()\<close> is one.
\<close>

locale collation = comparator collate for collate :: "string \<Rightarrow> string \<Rightarrow> int"

interpretation code_units: collation code_unit_cmp
  by unfold_locales (use code_unit_cmp_total code_unit_cmp_trans in blast)+

definition sort_strings :: "string list \<Rightarrow> string list" where
  "sort_strings xs = js_sort code_unit_cmp xs"

lemma set_sort_strings [simp]: "set (sort_strings xs) = set xs"
  by (simp add: sort_strings_def)

lemma distinct_sort_strings [simp]: "distinct (sort_strings xs) = distinct xs"
  by (simp add: sort_strings_def)

lemma sorted_sort_strings: "sorted_wrt (\<lambda>a b. code_unit_cmp a b \<le> 0) (sort_strings xs)"
  unfolding sort_strings_def by (rule code_units.sorted_js_sort)

section \<open>Decimal numerals\<close>

definition digit_char :: "int \<Rightarrow> char" where
  "digit_char d = char_of (48 + d)"

definition digit_val :: "char \<Rightarrow> int" where
  "digit_val c = of_char c - 48"

fun dec :: "int \<Rightarrow> string" where
  "dec n = (if n < 10 then [digit_char n] else dec (n div 10) @ [digit_char (n mod 10)])"

declare dec.simps [simp del]

definition undec :: "string \<Rightarrow> int" where
  "undec s = foldl (\<lambda>a c. 10 * a + digit_val c) 0 s"

lemma digit_val_digit_char [simp]:
  assumes "0 \<le> d" "d < 10"
  shows "digit_val (digit_char d) = d"
  using assms by (simp add: digit_val_def digit_char_def)

lemma is_digit_digit_char [simp]: "0 \<le> d \<Longrightarrow> d < 10 \<Longrightarrow> is_digit (digit_char d)"
  by (simp add: digit_char_def is_digit_def)

lemma undec_snoc [simp]: "undec (s @ [c]) = 10 * undec s + digit_val c"
  by (simp add: undec_def)

lemma undec_Nil [simp]: "undec [] = 0"
  by (simp add: undec_def)

lemma undec_dec [simp]: "0 \<le> n \<Longrightarrow> undec (dec n) = n"
proof (induction n rule: dec.induct)
  case (1 n)
  show ?case
  proof (cases "n < 10")
    case True
    with 1 show ?thesis using undec_snoc [of "[]"] by (simp add: dec.simps [of n])
  next
    case False
    with 1 show ?thesis by (simp add: dec.simps [of n])
  qed
qed

lemma dec_nonempty [simp]: "dec n \<noteq> []"
  by (simp add: dec.simps [of n])

lemma dec_digits: "0 \<le> n \<Longrightarrow> list_all is_digit (dec n)"
proof (induction n rule: dec.induct)
  case (1 n)
  then show ?case by (cases "n < 10") (simp_all add: dec.simps [of n])
qed

lemma dec_digits_set: "0 \<le> n \<Longrightarrow> c \<in> set (dec n) \<Longrightarrow> is_digit c"
  using dec_digits [of n] by (simp add: list_all_iff)

lemma dec_mult_10: "0 < n \<Longrightarrow> dec (n * 10 ^ j) = dec n @ replicate j (CHR ''0'')"
proof (induction j)
  case 0
  show ?case by simp
next
  case (Suc j)
  have "10 \<le> n * 10 ^ Suc j"
    using Suc.prems by (simp add: mult.left_commute)
      (metis int_one_le_iff_zero_less mult_pos_pos zero_less_numeral zero_less_power)
  then have "dec (n * 10 ^ Suc j) = dec (n * 10 ^ j) @ [digit_char 0]"
    by (subst dec.simps) (simp add: mult.left_commute)
  moreover have "digit_char 0 = CHR ''0''" by code_simp
  ultimately show ?case
    using Suc by (simp add: replicate_append_same)
qed

lemma length_dec_bounds: "0 < n \<Longrightarrow> 10 ^ (length (dec n) - 1) \<le> n \<and> n < 10 ^ length (dec n)"
proof (induction n rule: dec.induct)
  case (1 n)
  show ?case
  proof (cases "n < 10")
    case True
    with 1 show ?thesis by (simp add: dec.simps [of n])
  next
    case False
    let ?k = "length (dec (n div 10))"
    have k: "0 < ?k" by simp
    have "10 ^ (?k - 1) \<le> n div 10" "n div 10 < 10 ^ ?k"
      using 1 False by simp_all
    then have "10 * 10 ^ (?k - 1) \<le> n" "n < 10 * 10 ^ ?k"
      by linarith+
    moreover have "10 * 10 ^ (?k - 1) = (10::int) ^ ?k"
      using k by (simp add: power_eq_if)
    ultimately show ?thesis using False by (simp add: dec.simps [of n])
  qed
qed

end
