(* ===== verification/JSNumText.thy ===== *)
theory JSNumText
  imports JSString
begin

text \<open>
  Numbers as text: the type \<open>jsnum\<close> of arbitrary numbers, \<open>Math.round\<close>, \<open>x.toFixed(d)\<close>,
  \<open>String(x)\<close> (the shortest digits that read back as \<open>x\<close>, in the notation of ECMA-262
  Number::toString) and \<open>Number(s)\<close> on strings.
\<close>

datatype jsnum = NaN | PosInf | NegInf | Fin rat

text \<open>The double of an exact result: overflow gives an infinity.\<close>

definition to_num :: "rat \<Rightarrow> jsnum" where
  "to_num x = (let y = fl x in
     if y = 0 \<or> binexp \<bar>y\<bar> < 1024 then Fin y else if 0 < y then PosInf else NegInf)"

definition is_finite :: "jsnum \<Rightarrow> bool" where
  "is_finite x = (case x of Fin _ \<Rightarrow> True | _ \<Rightarrow> False)"

text \<open>\<open>Math.round\<close>: halves go up.\<close>

definition math_round :: "rat \<Rightarrow> int" where
  "math_round x = \<lfloor>x + 1 / 2\<rfloor>"

lemma math_round_of_int [simp]: "math_round (of_int n) = n"
  unfolding math_round_def by linarith

lemma math_round_of_nat [simp]: "math_round (of_nat n) = int n"
  using math_round_of_int [of "int n"] by simp

lemma math_round_mono: "x \<le> y \<Longrightarrow> math_round x \<le> math_round y"
  unfolding math_round_def by (intro floor_mono) simp

section \<open>Arithmetic with NaN and infinities\<close>

fun num_neg :: "jsnum \<Rightarrow> jsnum" where
  "num_neg NaN = NaN"
| "num_neg PosInf = NegInf"
| "num_neg NegInf = PosInf"
| "num_neg (Fin x) = Fin (- x)"

fun num_add :: "jsnum \<Rightarrow> jsnum \<Rightarrow> jsnum" where
  "num_add (Fin x) (Fin y) = to_num (x + y)"
| "num_add NaN y = NaN"
| "num_add x NaN = NaN"
| "num_add PosInf NegInf = NaN"
| "num_add NegInf PosInf = NaN"
| "num_add PosInf y = PosInf"
| "num_add NegInf y = NegInf"
| "num_add x PosInf = PosInf"
| "num_add x NegInf = NegInf"

definition num_sub :: "jsnum \<Rightarrow> jsnum \<Rightarrow> jsnum" where
  "num_sub x y = num_add x (num_neg y)"

fun num_sgn :: "jsnum \<Rightarrow> int" where
  "num_sgn NaN = 0"
| "num_sgn PosInf = 1"
| "num_sgn NegInf = - 1"
| "num_sgn (Fin x) = (if 0 < x then 1 else if x < 0 then - 1 else 0)"

fun num_mul :: "jsnum \<Rightarrow> jsnum \<Rightarrow> jsnum" where
  "num_mul (Fin x) (Fin y) = to_num (x * y)"
| "num_mul x y =
     (if num_sgn x * num_sgn y = 0 then NaN
      else if num_sgn x * num_sgn y > 0 then PosInf else NegInf)"

text \<open>Division by a nonzero finite number, the only kind in the modelled code.\<close>

fun num_div :: "jsnum \<Rightarrow> rat \<Rightarrow> jsnum" where
  "num_div (Fin x) y = to_num (x / y)"
| "num_div NaN y = NaN"
| "num_div PosInf y = (if 0 < y then PosInf else NegInf)"
| "num_div NegInf y = (if 0 < y then NegInf else PosInf)"

fun num_round :: "jsnum \<Rightarrow> jsnum" where
  "num_round (Fin x) = Fin (of_int (math_round x))"
| "num_round x = x"

fun num_floor :: "jsnum \<Rightarrow> jsnum" where
  "num_floor (Fin x) = Fin (of_int \<lfloor>x\<rfloor>)"
| "num_floor x = x"

fun num_abs :: "jsnum \<Rightarrow> jsnum" where
  "num_abs (Fin x) = Fin \<bar>x\<bar>"
| "num_abs NaN = NaN"
| "num_abs x = PosInf"

fun num_less :: "jsnum \<Rightarrow> jsnum \<Rightarrow> bool" where
  "num_less (Fin x) (Fin y) = (x < y)"
| "num_less NaN y = False"
| "num_less x NaN = False"
| "num_less NegInf y = (y \<noteq> NegInf)"
| "num_less x PosInf = (x \<noteq> PosInf)"
| "num_less x y = False"

lemma to_num_small: "\<bar>x\<bar> \<le> 2 ^ 1000 \<Longrightarrow> to_num x = Fin (fl x)"
proof -
  assume a: "\<bar>x\<bar> \<le> 2 ^ 1000"
  have top: "fl (pow2 1000) = pow2 1000"
    using fl_exact [of 1 1000] by simp
  have p: "(2::rat) ^ 1000 = pow2 1000" by (simp add: pow2_def)
  have "\<bar>fl x\<bar> \<le> pow2 1000"
  proof (cases "0 \<le> x")
    case True
    then show ?thesis
      using a p top fl_mono [of x "pow2 1000"] fl_nonneg [of x] by simp
  next
    case False
    then show ?thesis
      using a p top fl_mono [of "- x" "pow2 1000"] fl_nonneg [of "- x"] by (simp add: fl_minus)
  qed
  then have "fl x \<noteq> 0 \<Longrightarrow> binexp \<bar>fl x\<bar> < 1024"
    using binexp_bounds(1) [of "\<bar>fl x\<bar>"] pow2_less [of "binexp \<bar>fl x\<bar>" 1001]
      pow2_less [of 1000 1001] by linarith
  then have "fl x = 0 \<or> binexp \<bar>fl x\<bar> < 1024" by blast
  then show ?thesis unfolding to_num_def Let_def by (rule if_P)
qed

section \<open>Number to string\<close>

definition pow10 :: "int \<Rightarrow> rat" where
  "pow10 k = (if 0 \<le> k then 10 ^ nat k else 1 / 10 ^ nat (- k))"

text \<open>The \<open>n\<close> with \<open>10^(n-1) \<le> x < 10^n\<close>, for positive \<open>x\<close>.\<close>

definition dec_exp :: "rat \<Rightarrow> int" where
  "dec_exp x = (if 1 \<le> x then int (length (dec \<lfloor>x\<rfloor>))
                else 1 - int (length (dec (\<lceil>1 / x\<rceil> - 1))))"

text \<open>The \<open>k\<close>-digit significand closest to \<open>x\<close>.\<close>

definition significand :: "rat \<Rightarrow> nat \<Rightarrow> int" where
  "significand x k = math_round (x * pow10 (int k - dec_exp x))"

definition reads_back :: "rat \<Rightarrow> nat \<Rightarrow> bool" where
  "reads_back x k = (fl (of_int (significand x k) * pow10 (dec_exp x - int k)) = x)"

text \<open>Shortest digits and decimal exponent; a significand \<open>10^k\<close> is \<open>1\<close> one place up.\<close>

definition short_digits :: "rat \<Rightarrow> string \<times> int" where
  "short_digits x =
     (let k = (case find (reads_back x) [1..<18] of Some k \<Rightarrow> k | None \<Rightarrow> 17);
          s = significand x k
      in if s = 10 ^ k then (dec 1, dec_exp x + 1) else (dec s, dec_exp x))"

definition layout_digits :: "string \<Rightarrow> int \<Rightarrow> string" where
  "layout_digits ds n =
     (let k = int (length ds) in
      if k \<le> n \<and> n \<le> 21 then ds @ replicate (nat (n - k)) (CHR ''0'')
      else if 0 < n \<and> n \<le> 21 then take (nat n) ds @ ''.'' @ drop (nat n) ds
      else if - 6 < n \<and> n \<le> 0 then ''0.'' @ replicate (nat (- n)) (CHR ''0'') @ ds
      else (let e = n - 1; es = (if e < 0 then ''-'' else ''+'') @ dec \<bar>e\<bar>
            in take 1 ds @ (if k = 1 then [] else ''.'' @ drop 1 ds) @ ''e'' @ es))"

definition pos_str :: "rat \<Rightarrow> string" where
  "pos_str x = (case short_digits x of (ds, n) \<Rightarrow> layout_digits ds n)"

fun num_str :: "jsnum \<Rightarrow> string" where
  "num_str NaN = ''NaN''"
| "num_str PosInf = ''Infinity''"
| "num_str NegInf = ''-Infinity''"
| "num_str (Fin x) = (if x = 0 then ''0'' else if x < 0 then ''-'' @ pos_str (- x) else pos_str x)"

abbreviation rat_str :: "rat \<Rightarrow> string" where
  "rat_str x \<equiv> num_str (Fin x)"

text \<open>\<open>x.toFixed(d)\<close> of a finite \<open>x\<close>.\<close>

definition fixed_digits :: "nat \<Rightarrow> int \<Rightarrow> string" where
  "fixed_digits d n =
     (if d = 0 then dec n
      else (let z = pad_start (d + 1) (CHR ''0'') (dec n)
            in take (length z - d) z @ ''.'' @ drop (length z - d) z))"

definition to_fixed :: "nat \<Rightarrow> rat \<Rightarrow> string" where
  "to_fixed d x =
     (if 10 ^ 21 \<le> \<bar>x\<bar> then rat_str x
      else (if x < 0 then ''-'' else '''') @ fixed_digits d (math_round (\<bar>x\<bar> * 10 ^ d)))"

text \<open>\<open>toFixed\<close> of any number.\<close>

definition num_fixed :: "nat \<Rightarrow> jsnum \<Rightarrow> string" where
  "num_fixed d x = (case x of Fin r \<Rightarrow> to_fixed d r | _ \<Rightarrow> num_str x)"

section \<open>String to number\<close>

definition is_hex :: "char \<Rightarrow> bool" where
  "is_hex c = (is_digit c \<or> (65 \<le> (of_char c :: int) \<and> (of_char c :: int) \<le> 70)
                 \<or> (97 \<le> (of_char c :: int) \<and> (of_char c :: int) \<le> 102))"

definition hex_val :: "char \<Rightarrow> int" where
  "hex_val c = (if is_digit c then digit_val c
                else if (of_char c :: int) \<le> 70 then of_char c - 55 else of_char c - 87)"

definition radix_val :: "int \<Rightarrow> string \<Rightarrow> jsnum" where
  "radix_val b s =
     (if s \<noteq> [] \<and> list_all (\<lambda>c. is_hex c \<and> hex_val c < b) s
      then to_num (of_int (foldl (\<lambda>a c. b * a + hex_val c) 0 s)) else NaN)"

text \<open>An optional exponent part; \<open>None\<close> when what is left is no exponent.\<close>

definition exponent_part :: "string \<Rightarrow> int option" where
  "exponent_part s =
     (case s of [] \<Rightarrow> Some 0
      | c # r \<Rightarrow>
          if c = CHR ''e'' \<or> c = CHR ''E'' then
            (let neg = (take 1 r = ''-'');
                 ds = (if neg \<or> take 1 r = ''+'' then drop 1 r else r)
             in if ds \<noteq> [] \<and> list_all is_digit ds
                then Some (if neg then - undec ds else undec ds) else None)
          else None)"

text \<open>An unsigned decimal literal: digits, an optional fraction, an optional exponent.\<close>

definition unsigned_literal :: "string \<Rightarrow> rat option" where
  "unsigned_literal s =
     (let ip = takeWhile is_digit s; r = dropWhile is_digit s;
          dot = (take 1 r = ''.''); r1 = (if dot then drop 1 r else r);
          fp = (if dot then takeWhile is_digit r1 else []);
          r2 = (if dot then dropWhile is_digit r1 else r)
      in if ip = [] \<and> fp = [] then None
         else (case exponent_part r2 of
                 None \<Rightarrow> None
               | Some e \<Rightarrow> Some (of_int (undec (ip @ fp)) * pow10 (e - int (length fp)))))"

definition decimal_literal :: "string \<Rightarrow> jsnum" where
  "decimal_literal s =
     (let neg = (take 1 s = ''-''); u = (if neg \<or> take 1 s = ''+'' then drop 1 s else s)
      in if u = ''Infinity'' then (if neg then NegInf else PosInf)
         else (case unsigned_literal u of
                 None \<Rightarrow> NaN
               | Some x \<Rightarrow> to_num (if neg then - x else x)))"

definition parse_number :: "string \<Rightarrow> jsnum" where
  "parse_number s =
     (let t = trim s; p = take 2 t in
      if t = [] then Fin 0
      else if p = ''0x'' \<or> p = ''0X'' then radix_val 16 (drop 2 t)
      else if p = ''0o'' \<or> p = ''0O'' then radix_val 8 (drop 2 t)
      else if p = ''0b'' \<or> p = ''0B'' then radix_val 2 (drop 2 t)
      else decimal_literal t)"

section \<open>Integers print as their digits\<close>

lemma pow10_nonneg: "0 \<le> k \<Longrightarrow> pow10 k = of_int (10 ^ nat k)"
  by (simp add: pow10_def)

lemma pow10_neg: "0 \<le> k \<Longrightarrow> pow10 (- k) = 1 / of_int (10 ^ nat k)"
  by (auto simp: pow10_def)

lemma dec_exp_int: "1 \<le> n \<Longrightarrow> dec_exp (of_int n) = int (length (dec n))"
  by (simp add: dec_exp_def)

lemma math_round_le: "x \<le> of_int m \<Longrightarrow> math_round x \<le> m"
  unfolding math_round_def by linarith

lemma significand_int:
  assumes "1 \<le> n" "k \<le> length (dec n)"
  shows "significand (of_int n) k = math_round (of_int n / of_int (10 ^ (length (dec n) - k)))"
proof -
  have "int k - dec_exp (of_int n) = - int (length (dec n) - k)"
    using assms by (simp add: dec_exp_int)
  then show ?thesis
    by (simp only: significand_def pow10_neg of_nat_0_le_iff nat_int) simp
qed

lemma significand_int_bound:
  assumes n: "1 \<le> n" "n \<le> 10 ^ 15" and k: "1 \<le> k" "k \<le> length (dec n)"
  shows "significand (of_int n) k * 10 ^ (length (dec n) - k) \<le> 10 ^ 15
    \<or> significand (of_int n) k * 10 ^ (length (dec n) - k) = n"
proof -
  let ?N = "length (dec n)" and ?s = "significand (of_int n) k"
  let ?j = "?N - k"
  have s: "?s = math_round (of_int n / of_int (10 ^ ?j))"
    by (rule significand_int [OF n(1) k(2)])
  show ?thesis
  proof (cases "n = 10 ^ 15")
    case True
    have "?N = 16" unfolding True by code_simp
    then have j: "?j \<le> 15" using k by simp
    have "of_int n = (10::rat) ^ 15" using True by simp
    moreover have "(10::rat) ^ (15 - ?j) = 10 ^ 15 / 10 ^ ?j"
      using j by (intro power_diff) simp_all
    ultimately have "of_int n / of_int (10 ^ ?j) = (of_int (10 ^ (15 - ?j)) :: rat)"
      by (simp only: of_int_power of_int_numeral)
    then have "?s = 10 ^ (15 - ?j)" by (simp only: s math_round_of_int)
    then show ?thesis using True j by (simp flip: power_add)
  next
    case False
    with n have small: "n < 10 ^ 15" by simp
    have len: "10 ^ (?N - 1) \<le> n" "n < 10 ^ ?N" using length_dec_bounds [of n] n by auto
    have "?N - 1 < 15"
    proof (rule ccontr)
      assume "\<not> ?N - 1 < 15"
      then have "(10::int) ^ 15 \<le> 10 ^ (?N - 1)" by (intro power_increasing) simp_all
      with len small show False by simp
    qed
    then have N: "?N \<le> 15" by simp
    have pw: "(10::int) ^ ?N = 10 ^ k * 10 ^ ?j" using k by (simp flip: power_add)
    have "of_int n / of_int (10 ^ ?j) \<le> (of_int (10 ^ k) :: rat)"
    proof -
      have "of_int n \<le> (of_int (10 ^ k * 10 ^ ?j) :: rat)"
        using len(2) pw by (simp only: of_int_le_iff)
      then show ?thesis by (simp add: divide_le_eq)
    qed
    then have "?s \<le> 10 ^ k" by (simp only: s math_round_le)
    then have "?s * 10 ^ ?j \<le> 10 ^ ?N" by (simp add: pw mult_right_mono)
    also have "\<dots> \<le> 10 ^ 15" using N by (intro power_increasing) simp_all
    finally show ?thesis by simp
  qed
qed

lemma reads_back_int:
  assumes n: "1 \<le> n" "n \<le> 10 ^ 15" and k: "1 \<le> k" "k \<le> length (dec n)"
  shows "reads_back (of_int n) k
           \<longleftrightarrow> significand (of_int n) k * 10 ^ (length (dec n) - k) = n"
proof -
  let ?N = "length (dec n)" and ?s = "significand (of_int n) k"
  let ?j = "?N - k"
  have e: "dec_exp (of_int n) - int k = int ?j" using n k by (simp add: dec_exp_int)
  have s: "?s = math_round (of_int n / of_int (10 ^ ?j))"
    by (rule significand_int [OF n(1) k(2)])
  have le: "?s * 10 ^ ?j \<le> 10 ^ 15 \<or> ?s * 10 ^ ?j = n" by (rule significand_int_bound [OF assms])
  have nonneg: "0 \<le> ?s"
  proof -
    have "math_round 0 \<le> ?s"
      unfolding s using n by (intro math_round_mono) simp
    then show ?thesis using math_round_of_int [of 0] by simp
  qed
  have "\<bar>?s * 10 ^ ?j\<bar> \<le> 2 ^ 53"
    using le n nonneg by (auto simp: abs_mult)
  then have "fl (of_int (?s * 10 ^ ?j)) = of_int (?s * 10 ^ ?j)" by (rule fl_of_int)
  then have "reads_back (of_int n) k \<longleftrightarrow> of_int (?s * 10 ^ ?j) = (of_int n :: rat)"
    by (simp only: reads_back_def e pow10_nonneg of_nat_0_le_iff nat_int of_int_mult)
  then show ?thesis by (simp only: of_int_eq_iff)
qed

lemma find_first_le:
  assumes "P m" "a \<le> m" "m < b"
  obtains k where "find P [a..<b] = Some k" "P k" "a \<le> k" "k \<le> m"
proof -
  have "\<exists>k. find P [a..<b] = Some k \<and> P k \<and> a \<le> k \<and> k \<le> m"
    using assms(2,3)
  proof (induction "m - a" arbitrary: a)
    case 0
    then show ?case using assms(1) by (auto simp: upt_rec [of a b])
  next
    case (Suc d)
    then obtain k where "find P [Suc a..<b] = Some k" "P k" "Suc a \<le> k" "k \<le> m"
    proof -
      have "d = m - Suc a" "Suc a \<le> m" using Suc.hyps(2) Suc.prems by simp_all
      then show ?thesis using Suc.hyps(1) [of "Suc a"] Suc.prems(2) that by blast
    qed
    then have "find P [a..<b] = Some (if P a then a else k) \<and> a \<le> k \<and> a \<le> m"
      using Suc.prems by (auto simp: upt_rec [of a b])
    with \<open>P k\<close> \<open>k \<le> m\<close> show ?case by (cases "P a") auto
  qed
  with that show ?thesis by blast
qed

lemma num_str_int:
  assumes n: "0 \<le> n" "n \<le> 10 ^ 15"
  shows "num_str (Fin (of_int n)) = dec n"
proof (cases "n = 0")
  case True
  then show ?thesis by (simp, code_simp)
next
  case False
  with n have n1: "1 \<le> n" by simp
  let ?N = "length (dec n)"
  have bounds: "10 ^ (?N - 1) \<le> n" "n < 10 ^ ?N" using length_dec_bounds [of n] n1 by auto
  have N: "1 \<le> ?N" "?N < 18"
  proof -
    show "1 \<le> ?N" by (simp add: Suc_le_eq)
    show "?N < 18"
    proof (rule ccontr)
      assume "\<not> ?N < 18"
      then have "(10::int) ^ 17 \<le> 10 ^ (?N - 1)" by (intro power_increasing) simp_all
      with bounds n show False by simp
    qed
  qed
  have "significand (of_int n) ?N = n"
    using n1 by (simp add: significand_int)
  then have "reads_back (of_int n) ?N"
    using n n1 N by (simp add: reads_back_int)
  then obtain k where k: "find (reads_back (of_int n)) [1..<18] = Some k"
      "reads_back (of_int n) k" "1 \<le> k" "k \<le> ?N"
    using N by (rule find_first_le)
  let ?s = "significand (of_int n) k" and ?j = "?N - k"
  have s: "?s * 10 ^ ?j = n" using k n n1 by (simp add: reads_back_int)
  have spos: "0 < ?s" using s n1 by (smt (verit) mult_nonpos_nonneg zero_less_power)
  have "?s \<noteq> 10 ^ k"
  proof
    assume "?s = 10 ^ k"
    with s have "n = 10 ^ ?N" using k by (simp flip: power_add)
    with bounds show False by simp
  qed
  with k have sd: "short_digits (of_int n) = (dec ?s, int ?N)"
    using n1 by (simp add: short_digits_def Let_def dec_exp_int)
  have d: "dec n = dec ?s @ replicate ?j (CHR ''0'')"
    using dec_mult_10 [OF spos, of ?j] s by simp
  then have len: "length (dec ?s) = k" using k(4)
    by (metis diff_diff_cancel length_append length_replicate add_diff_cancel_right')
  have "layout_digits (dec ?s) (int ?N) = dec ?s @ replicate ?j (CHR ''0'')"
    using len k N by (simp add: layout_digits_def Let_def nat_diff_distrib)
  with d sd n1 show ?thesis by (simp add: pos_str_def)
qed

section \<open>Digits read back as the number\<close>

lemma not_ws_digit: "is_digit c \<Longrightarrow> \<not> is_ws c"
  by (auto simp: is_digit_def is_ws_def)

lemma dropWhile_ws_id: "list_all (\<lambda>c. \<not> is_ws c) s \<Longrightarrow> dropWhile is_ws s = s"
  by (cases s) simp_all

lemma trim_id: "list_all (\<lambda>c. \<not> is_ws c) s \<Longrightarrow> trim s = s"
  by (simp add: trim_def dropWhile_ws_id list_all_rev)

lemma span_digits:
  "list_all is_digit ds \<Longrightarrow> takeWhile is_digit (ds @ r) = ds @ takeWhile is_digit r"
  "list_all is_digit ds \<Longrightarrow> dropWhile is_digit (ds @ r) = dropWhile is_digit r"
  by (induction ds) simp_all

lemma unsigned_literal_digits:
  assumes "list_all is_digit ds" "ds \<noteq> []"
  shows "unsigned_literal ds = Some (of_int (undec ds))"
    and "list_all is_digit fs \<Longrightarrow> unsigned_literal (ds @ ''.'' @ fs)
           = Some (of_int (undec (ds @ fs)) / 10 ^ length fs)"
proof -
  have dot: "\<not> is_digit (CHR ''.'')" by (simp add: is_digit_def)
  have all: "takeWhile is_digit xs = xs" "dropWhile is_digit xs = []" if "list_all is_digit xs" for xs
    using span_digits [OF that, of "[]"] by simp_all
  show "unsigned_literal ds = Some (of_int (undec ds))"
    using assms(2)
    by (simp add: all [OF assms(1)] unsigned_literal_def exponent_part_def pow10_def)
  show "unsigned_literal (ds @ ''.'' @ fs) = Some (of_int (undec (ds @ fs)) / 10 ^ length fs)"
    if "list_all is_digit fs"
    using assms(2) dot
    by (simp add: span_digits [OF assms(1)] all [OF that] unsigned_literal_def Let_def
        exponent_part_def pow10_def)
qed

lemma parse_number_unsigned:
  assumes "list_all (\<lambda>c. is_digit c \<or> c = CHR ''.'') s" "s \<noteq> []" "is_digit (hd s)"
  shows "parse_number s = (case unsigned_literal s of None \<Rightarrow> NaN | Some x \<Rightarrow> to_num x)"
proof -
  obtain c t where s: "s = c # t" using assms(2) by (cases s) auto
  have nws: "list_all (\<lambda>c. \<not> is_ws c) s"
    using assms(1) by (auto simp: list_all_iff is_digit_def is_ws_def)
  have c: "c \<noteq> CHR ''-''" "c \<noteq> CHR ''+''" "c \<noteq> CHR ''I''"
    using assms(3) s by (auto simp: is_digit_def)
  have t: "take 1 t \<noteq> [x]" if "\<not> is_digit x" "x \<noteq> CHR ''.''" for x
    using assms(1) s that by (cases t) auto
  have radix: "take 2 s \<noteq> [d, x]" if "\<not> is_digit x" "x \<noteq> CHR ''.''" for d x
    using t [OF that] s by (cases t) auto
  have letters: "\<not> is_digit (CHR ''x'')" "\<not> is_digit (CHR ''X'')" "\<not> is_digit (CHR ''o'')"
    "\<not> is_digit (CHR ''O'')" "\<not> is_digit (CHR ''b'')" "\<not> is_digit (CHR ''B'')"
    by (simp_all add: is_digit_def)
  have "parse_number s = decimal_literal s"
    using assms(2) radix letters by (simp add: parse_number_def Let_def trim_id [OF nws])
  also have "\<dots> = (case unsigned_literal s of None \<Rightarrow> NaN | Some x \<Rightarrow> to_num x)"
    using c s by (simp add: decimal_literal_def Let_def split: option.split)
  finally show ?thesis .
qed

lemma parse_number_digits:
  assumes "list_all is_digit ds" "ds \<noteq> []"
  shows "parse_number ds = to_num (of_int (undec ds))"
    and "list_all is_digit fs \<Longrightarrow>
           parse_number (ds @ ''.'' @ fs) = to_num (of_int (undec (ds @ fs)) / 10 ^ length fs)"
proof -
  have hd: "is_digit (hd ds)" using assms by (cases ds) auto
  show "parse_number ds = to_num (of_int (undec ds))"
    using assms hd by (subst parse_number_unsigned)
      (auto simp: unsigned_literal_digits list_all_iff)
  show "parse_number (ds @ ''.'' @ fs) = to_num (of_int (undec (ds @ fs)) / 10 ^ length fs)"
    if "list_all is_digit fs"
  proof -
    have "parse_number (ds @ ''.'' @ fs)
        = (case unsigned_literal (ds @ ''.'' @ fs) of None \<Rightarrow> NaN | Some x \<Rightarrow> to_num x)"
      using assms hd that by (intro parse_number_unsigned) (auto simp: list_all_iff)
    then show ?thesis by (simp only: unsigned_literal_digits(2) [OF assms that] option.case)
  qed
qed

lemma to_num_int: "\<bar>n\<bar> \<le> 2 ^ 53 \<Longrightarrow> to_num (of_int n) = Fin (of_int n)"
proof -
  assume a: "\<bar>n\<bar> \<le> 2 ^ 53"
  then have "\<bar>of_int n\<bar> \<le> (of_int (2 ^ 53) :: rat)"
    by (simp only: of_int_abs [symmetric] of_int_le_iff)
  also have "\<dots> \<le> 2 ^ 1000" by (simp add: power_increasing)
  finally show ?thesis using a by (simp add: to_num_small fl_of_int)
qed

lemma parse_number_dec:
  "0 \<le> n \<Longrightarrow> n \<le> 2 ^ 53 \<Longrightarrow> parse_number (dec n) = Fin (of_int n)"
  by (simp add: parse_number_digits(1) dec_digits to_num_int)

declare num_str.simps [simp del] num_add.simps [simp del] num_mul.simps [simp del]
  num_div.simps [simp del] num_round.simps [simp del] num_floor.simps [simp del]

text \<open>Decimal texts of numerals.\<close>

lemma digit_chars [simp]:
  "digit_char 0 = CHR ''0''" "digit_char 1 = CHR ''1''" "digit_char 2 = CHR ''2''" "digit_char 3 = CHR ''3''"
  "digit_char 4 = CHR ''4''" "digit_char 5 = CHR ''5''" "digit_char 6 = CHR ''6''" "digit_char 7 = CHR ''7''"
  "digit_char 8 = CHR ''8''" "digit_char 9 = CHR ''9''"
  by (simp_all add: digit_char_def char_of_def)

lemmas dec_text = dec.simps [of "numeral n" for n] dec.simps [of 1] dec.simps [of 0]

lemma num_str_numeral: "(numeral k :: int) \<le> 10 ^ 15 \<Longrightarrow> num_str (Fin (numeral k)) = dec (numeral k)"
  using num_str_int [of "numeral k"] by simp

lemmas num_eval = num_str.simps num_add.simps num_mul.simps num_div.simps num_round.simps
  num_floor.simps num_sub_def

end
