(* ===== verification/JSValue.thy ===== *)
theory JSValue
  imports JSNumText
begin

text \<open>
  Untyped JavaScript values (\<open>unknown\<close> in the source): what \<open>JSON.parse\<close> and the YAML loader
  return. An object is the list of its own enumerable properties in the order
  \<open>Object.entries\<close> lists them: array-index keys in ascending order, then the other keys in
  insertion order.
\<close>

datatype jsval =
    Undefined
  | Null
  | Bool bool
  | Num jsnum
  | Str string
  | Arr "jsval list"
  | Obj "(string \<times> jsval) list"

type_synonym 'v obj = "(string \<times> 'v) list"

text \<open>\<open>o.k\<close>, with \<open>undefined\<close> for a missing property.\<close>

definition obj_get :: "jsval obj \<Rightarrow> string \<Rightarrow> jsval" where
  "obj_get ob k = (case map_of ob k of None \<Rightarrow> Undefined | Some v \<Rightarrow> v)"

definition is_index_key :: "string \<Rightarrow> bool" where
  "is_index_key k = (k \<noteq> [] \<and> list_all is_digit k \<and> (hd k \<noteq> CHR ''0'' \<or> length k = 1)
                      \<and> undec k < 4294967295)"

fun index_insert :: "string \<Rightarrow> 'v \<Rightarrow> 'v obj \<Rightarrow> 'v obj" where
  "index_insert k v [] = [(k, v)]"
| "index_insert k v ((k', v') # ob) =
     (if is_index_key k' \<and> undec k' < undec k then (k', v') # index_insert k v ob
      else (k, v) # (k', v') # ob)"

text \<open>\<open>o[k] = v\<close>.\<close>

definition obj_set :: "string \<Rightarrow> 'v \<Rightarrow> 'v obj \<Rightarrow> 'v obj" where
  "obj_set k v ob = (if k \<in> fst ` set ob then AList.update k v ob
                     else if is_index_key k then index_insert k v ob
                     else ob @ [(k, v)])"

lemma map_of_index_insert:
  "k \<notin> fst ` set ob \<Longrightarrow> map_of (index_insert k v ob) = (map_of ob)(k \<mapsto> v)"
  by (induction ob) (auto simp: fun_eq_iff)

lemma map_of_obj_set [simp]: "map_of (obj_set k v ob) = (map_of ob)(k \<mapsto> v)"
proof -
  have "k \<notin> fst ` set ob \<Longrightarrow> map_of (ob @ [(k, v)]) = (map_of ob)(k \<mapsto> v)"
    by (auto simp: map_add_def fun_eq_iff dom_map_of_conv_image_fst [symmetric]
        split: option.splits)
  then show ?thesis
    by (simp add: obj_set_def AList.update_conv' map_of_index_insert)
qed

lemma obj_get_set [simp]:
  "obj_get (obj_set k v ob) k' = (if k' = k then v else obj_get ob k')"
  by (simp add: obj_get_def)

lemma keys_obj_set: "fst ` set (obj_set k v ob) = insert k (fst ` set ob)"
  by (simp flip: dom_map_of_conv_image_fst)

lemma obj_set_new: "k \<notin> fst ` set ob \<Longrightarrow> \<not> is_index_key k \<Longrightarrow> obj_set k v ob = ob @ [(k, v)]"
  by (simp add: obj_set_def)

lemma distinct_index_insert:
  "distinct (map fst ob) \<Longrightarrow> k \<notin> fst ` set ob \<Longrightarrow> distinct (map fst (index_insert k v ob))"
proof (induction ob)
  case Nil
  then show ?case by simp
next
  case (Cons p ob)
  have "fst ` set (index_insert k v ob) = insert k (fst ` set ob)"
    using Cons.prems(2) map_of_index_insert [of k ob v]
    by (simp flip: dom_map_of_conv_image_fst)
  with Cons show ?case by (cases p) (auto simp: image_iff)
qed

lemma distinct_obj_set [js_intros]:
  "distinct (map fst ob) \<Longrightarrow> distinct (map fst (obj_set k v ob))"
  by (auto simp: obj_set_def AList.distinct_update intro: distinct_index_insert)

text \<open>Truthiness of an optional string: \<open>undefined\<close>, \<open>null\<close> and the empty string are falsy.\<close>

definition truthy :: "string option \<Rightarrow> bool" where
  "truthy s = (case s of None \<Rightarrow> False | Some x \<Rightarrow> x \<noteq> [])"

lemma truthy_iff: "truthy s \<longleftrightarrow> (\<exists>x. s = Some x \<and> x \<noteq> [])"
  by (auto simp: truthy_def split: option.splits)

text \<open>Nullish coalescing \<open>a ?? b\<close>.\<close>

definition nullish :: "'a option \<Rightarrow> 'a \<Rightarrow> 'a" where
  "nullish a b = (case a of None \<Rightarrow> b | Some x \<Rightarrow> x)"

lemma nullish_simps [simp, js_simps]: "nullish None b = b" "nullish (Some x) b = x"
  by (simp_all add: nullish_def)

end
