(* ===== verification/ApiTypes.thy ===== *)
theory ApiTypes
  imports JSValue
begin

text \<open>
  The vocabulary and the records of the API, after the generated client types
  (packages/client/src/schema.d.ts) that packages/client/src/index.ts re-exports. Optional and
  nullable fields are \<open>option\<close>s. Numbers of a message are finite (JSON has no NaN), so they
  are rationals; counters and sequence numbers are integers.
\<close>

section \<open>State vocabularies\<close>

datatype component_state =
  NOMINAL | OPERATIONAL | DEGRADED | UNAVAILABLE | FAILED | RECOVERING | RECOVERED | UNKNOWN

datatype run_state =
    RS_CREATED | RS_VALIDATING | RS_QUEUED | RS_PREPARING | RS_RUNNING | RS_RECOVERING
  | RS_COLLECTING | RS_ANALYZING | RS_COMPLETED | RS_FAILED | RS_CANCELLED

datatype benchmark_result = BR_passed | BR_failed | BR_inconclusive

datatype severity = Sev_info | Sev_low | Sev_medium | Sev_high | Sev_critical

datatype event_kind =
    INJECTION_REQUEST | INJECTION_APPLIED | INJECTION_REJECTED | INJECTION_CLEARED
  | OBSERVED_EFFECT | SYSTEM_RESPONSE | RECOVERY | EXPECTATION_RESULT | ASSERTION_RESULT
  | MISSION | LIFECYCLE | LOG

datatype flight_mode =
  FM_IDLE | FM_TAKEOFF | FM_MISSION | FM_HOLD | FM_RTL | FM_LAND | FM_LANDED | FM_UNKNOWN

datatype mission_phase =
    MP_PENDING | MP_TAKEOFF | MP_ENROUTE | MP_HOLDING | MP_RETURNING | MP_LANDING
  | MP_COMPLETE | MP_ABORTED

datatype domain =
    External | Communications | Navigation | Mission_compute | Flight_control | Actuation | Power

datatype effect =
    Eff_unavailable | Eff_intermittent | Eff_degraded | Eff_erroneous | Eff_stuck | Eff_restart
  | Eff_crash | Eff_latency | Eff_packet_loss | Eff_resource_pressure | Eff_temporary_disconnect

datatype trust_zone = TZ_external | TZ_mission | TZ_flight_critical

text \<open>The literal each constructor stands for.\<close>

fun component_state_str :: "component_state \<Rightarrow> string" where
  "component_state_str NOMINAL = ''NOMINAL''"
| "component_state_str OPERATIONAL = ''OPERATIONAL''"
| "component_state_str DEGRADED = ''DEGRADED''"
| "component_state_str UNAVAILABLE = ''UNAVAILABLE''"
| "component_state_str FAILED = ''FAILED''"
| "component_state_str RECOVERING = ''RECOVERING''"
| "component_state_str RECOVERED = ''RECOVERED''"
| "component_state_str UNKNOWN = ''UNKNOWN''"

fun severity_str :: "severity \<Rightarrow> string" where
  "severity_str Sev_info = ''info''"
| "severity_str Sev_low = ''low''"
| "severity_str Sev_medium = ''medium''"
| "severity_str Sev_high = ''high''"
| "severity_str Sev_critical = ''critical''"

fun flight_mode_str :: "flight_mode \<Rightarrow> string" where
  "flight_mode_str FM_IDLE = ''IDLE''"
| "flight_mode_str FM_TAKEOFF = ''TAKEOFF''"
| "flight_mode_str FM_MISSION = ''MISSION''"
| "flight_mode_str FM_HOLD = ''HOLD''"
| "flight_mode_str FM_RTL = ''RTL''"
| "flight_mode_str FM_LAND = ''LAND''"
| "flight_mode_str FM_LANDED = ''LANDED''"
| "flight_mode_str FM_UNKNOWN = ''UNKNOWN''"

fun mission_phase_str :: "mission_phase \<Rightarrow> string" where
  "mission_phase_str MP_PENDING = ''PENDING''"
| "mission_phase_str MP_TAKEOFF = ''TAKEOFF''"
| "mission_phase_str MP_ENROUTE = ''ENROUTE''"
| "mission_phase_str MP_HOLDING = ''HOLDING''"
| "mission_phase_str MP_RETURNING = ''RETURNING''"
| "mission_phase_str MP_LANDING = ''LANDING''"
| "mission_phase_str MP_COMPLETE = ''COMPLETE''"
| "mission_phase_str MP_ABORTED = ''ABORTED''"

fun effect_str :: "effect \<Rightarrow> string" where
  "effect_str Eff_unavailable = ''unavailable''"
| "effect_str Eff_intermittent = ''intermittent''"
| "effect_str Eff_degraded = ''degraded''"
| "effect_str Eff_erroneous = ''erroneous''"
| "effect_str Eff_stuck = ''stuck''"
| "effect_str Eff_restart = ''restart''"
| "effect_str Eff_crash = ''crash''"
| "effect_str Eff_latency = ''latency''"
| "effect_str Eff_packet_loss = ''packet_loss''"
| "effect_str Eff_resource_pressure = ''resource_pressure''"
| "effect_str Eff_temporary_disconnect = ''temporary_disconnect''"

section \<open>Topology\<close>

record component =
  co_id :: string
  co_name :: string
  co_description :: string
  co_category :: string
  co_domain :: domain
  co_trust_zone :: trust_zone
  co_critical :: bool
  co_healthy_state :: component_state

record trust_boundary =
  tb_id :: string
  tb_name :: string
  tb_description :: string
  tb_upstream_zone :: trust_zone
  tb_downstream_zone :: trust_zone
  tb_enforcement_point :: "string option"

record dependency =
  dp_dependent :: string
  dp_provider :: string
  dp_relation :: string
  dp_crosses_trust_boundary :: bool

record topology =
  tp_id :: string
  tp_name :: string
  tp_vehicle_class :: string
  tp_components :: "component list"
  tp_dependencies :: "dependency list"
  tp_trust_boundaries :: "trust_boundary list"

section \<open>Events and telemetry\<close>

record run_event =
  ev_sequence :: int
  ev_run_id :: string
  ev_kind :: event_kind
  ev_event_type :: string
  ev_message :: string
  ev_severity :: severity
  ev_source :: string
  ev_simulation_time :: rat
  ev_wall_time :: "string option"
  ev_subsystem :: "string option"
  ev_scenario_event_id :: "string option"
  ev_state_before :: "component_state option"
  ev_state_after :: "component_state option"
  ev_metadata :: "jsval obj option"

record position =
  px :: rat
  py :: rat
  pz :: rat

record velocity =
  vx :: rat
  vy :: rat
  vz :: rat

record attitude =
  pitch :: rat
  roll :: rat
  yaw :: rat

record flight_status =
  fs_armed :: bool
  fs_autonomy :: string
  fs_control_authority :: bool
  fs_mode :: flight_mode

record mission_status =
  ms_phase :: mission_phase
  ms_progress :: rat
  ms_waypoint_index :: int
  ms_waypoints_total :: int
  ms_distance_to_waypoint :: "rat option"

record navigation_status =
  ns_gnss_fix :: bool
  ns_position_error :: rat
  ns_satellites :: "int option"
  ns_source :: string

record communications_status =
  cs_c2_link :: bool
  cs_telemetry_link :: bool
  cs_latency_ms :: "rat option"
  cs_packet_loss :: "rat option"

record power_status =
  pw_remaining :: rat
  pw_voltage :: rat
  pw_current :: "rat option"

record telemetry_sample =
  ts_t :: rat
  ts_position :: position
  ts_velocity :: velocity
  ts_attitude :: attitude
  ts_flight :: flight_status
  ts_mission :: mission_status
  ts_navigation :: navigation_status
  ts_communications :: communications_status
  ts_power :: power_status
  ts_health :: "(string \<times> component_state) list option"
  ts_source :: string
  ts_wall_time :: "string option"

record planned_path =
  pp_waypoints :: "position list"
  pp_safe_zone :: "position option"
  pp_safe_zone_radius :: rat

section \<open>Runs\<close>

record report_summary =
  rp_affected_domains :: int
  rp_critical_failures :: int
  rp_degraded_transitions :: int
  rp_fault_containment :: string
  rp_faults_applied :: int
  rp_faults_injected :: int
  rp_loss_of_control :: bool
  rp_mean_time_to_recovery :: "rat option"
  rp_mission_complete :: bool
  rp_recovered_subsystems :: int
  rp_safety_preservation :: string

record run_summary =
  rs_id :: string
  rs_adapter :: string
  rs_created_at :: string
  rs_ended_at :: "string option"
  rs_event_count :: int
  rs_hard_gate_result :: "benchmark_result option"
  rs_label :: string
  rs_last_simulation_time :: rat
  rs_mission_complete :: bool
  rs_reason :: string
  rs_replay_source_run_id :: "string option"
  rs_resilience_score :: "rat option"
  rs_result :: "benchmark_result option"
  rs_runner_id :: "string option"
  rs_sample_count :: int
  rs_scenario_hash :: string
  rs_scenario_name :: string
  rs_scenario_version :: string
  rs_seed :: int
  rs_speed :: rat
  rs_started_at :: "string option"
  rs_state :: run_state
  rs_summary :: "report_summary option"
  rs_updated_at :: string
  rs_vehicle :: string

record artifact =
  ar_content_type :: string
  ar_description :: string
  ar_name :: string
  ar_sha256 :: "string option"
  ar_size_bytes :: int
  ar_url :: string

text \<open>\<open>RunDetail\<close> has every field of the summary and the ones below.\<close>

record run_detail = run_summary +
  rd_artifacts :: "artifact list"
  rd_planned_path :: "planned_path option"
  rd_provenance :: "jsval obj"
  rd_report_available :: bool
  rd_scenario_document :: string

section \<open>Metrics and scores\<close>

record mission_metrics =
  mm_completed :: bool
  mm_completion :: rat
  mm_continuity :: rat
  mm_duration :: rat
  mm_time_in_hold :: rat
  mm_time_in_mission_modes :: rat

record safety_metrics =
  sm_control_availability :: rat
  sm_flight_control_available :: bool
  sm_loss_of_control :: bool
  sm_preserved :: bool
  sm_safe_state_reached :: bool

record recovery_record =
  rr_caused_by :: "string option"
  rr_direct :: bool
  rr_disturbance_cleared_at :: "rat option"
  rr_fault_duration :: "rat option"
  rr_fault_started_at :: rat
  rr_fault_state :: component_state
  rr_recovered_at :: "rat option"
  rr_recovery_expected :: bool
  rr_recovery_time :: "rat option"
  rr_subsystem :: string

record recovery_metrics =
  rm_faults_recovered :: int
  rm_faults_requiring_recovery :: int
  rm_max_time_to_recovery :: "rat option"
  rm_mean_time_to_recovery :: "rat option"
  rm_per_subsystem_max :: "(string \<times> rat) list"
  rm_records :: "recovery_record list"
  rm_safe_state_entered :: bool
  rm_success_rate :: "rat option"
  rm_time_to_safe_state :: "rat option"

record propagation_metrics =
  pm_affected_components :: "string list"
  pm_affected_domains :: "domain list"
  pm_boundary_crossed :: bool
  pm_contained :: bool
  pm_critical_domain_reached :: bool
  pm_depths :: "(string \<times> int) list"
  pm_flight_domain_affected :: bool
  pm_injected_components :: "string list"
  pm_injected_domains :: "domain list"
  pm_max_propagation_depth :: int
  pm_propagated_components :: "string list"
  pm_propagated_domains :: "domain list"
  pm_propagation_count :: int

record availability_metrics =
  am_communications :: rat
  am_compute :: rat
  am_control :: rat
  am_navigation :: rat
  am_navigation_integrity :: rat
  am_power :: rat

record mode_metrics =
  md_time_degraded :: rat
  md_time_failed :: rat
  md_time_nominal :: rat
  md_total :: rat

record event_counts =
  ct_applied :: int
  ct_cleared :: int
  ct_degraded_transitions :: int
  ct_expectations_failed :: int
  ct_expectations_passed :: int
  ct_failed_transitions :: int
  ct_injected :: int
  ct_observed_effects :: int
  ct_recoveries :: int
  ct_rejected :: int
  ct_system_responses :: int

record metrics_result =
  mr_availability :: availability_metrics
  mr_component_time_in_state :: "(string \<times> (string \<times> rat) list) list"
  mr_events :: event_counts
  mr_final_component_states :: "(string \<times> component_state) list"
  mr_mission :: mission_metrics
  mr_modes :: mode_metrics
  mr_propagation :: propagation_metrics
  mr_recovery :: recovery_metrics
  mr_run_duration :: rat
  mr_safety :: safety_metrics
  mr_sample_count :: int

record hard_gate =
  hg_name :: string
  hg_passed :: bool
  hg_reason :: string

record dimension_score =
  ds_dimension :: string
  ds_explanation :: string
  ds_label :: string
  ds_points :: rat
  ds_score :: rat
  ds_weight :: rat

record score_parameters =
  sk_containment_penalty :: rat
  sk_mttr_limit :: rat
  sk_mttr_target :: rat

record score_profile =
  pf_description :: string
  pf_name :: string
  pf_parameters :: "score_parameters option"
  pf_weights :: "(string \<times> rat) list"

text \<open>The type \<open>number | boolean | null\<close> of measured values.\<close>

datatype metric_value = MV_null | MV_bool bool | MV_num jsnum

datatype assertion_outcome = AO_passed | AO_failed | AO_not_evaluated

record assertion_result =
  as_description :: string
  as_expected :: metric_value
  as_explanation :: string
  as_expression :: string
  as_measured :: metric_value
  as_metric_path :: string
  as_operator :: string
  as_outcome :: assertion_outcome
  as_severity :: severity
  as_simulation_time :: "rat option"

record score_result =
  sr_dimensions :: "dimension_score list"
  sr_hard_gate_result :: benchmark_result
  sr_hard_gates :: "hard_gate list"
  sr_profile :: score_profile
  sr_reason :: string
  sr_result :: benchmark_result
  sr_total :: rat

record metrics_response =
  mx_assertions :: "assertion_result list"
  mx_context :: "(string \<times> metric_value) list"
  mx_metrics :: metrics_result
  mx_run_id :: string
  mx_score :: score_result

section \<open>Adapters\<close>

datatype adapter_status = AS_available | AS_experimental | AS_planned

record adapter_info =
  ai_data_origin :: string
  ai_description :: string
  ai_display_name :: string
  ai_kind :: string
  ai_name :: string
  ai_online :: bool
  ai_requirements :: string
  ai_runners :: "string list"
  ai_status :: adapter_status

record runner_info =
  ri_active_run_id :: "string option"
  ri_adapters :: "string list"
  ri_last_heartbeat_at :: string
  ri_online :: bool
  ri_runner_id :: string
  ri_version :: string

end
