(* ===== verification/States.thy ===== *)
theory States
  imports ApiTypes
begin

text \<open>
  apps/web/src/lib/states.ts: labels, tones and descriptions of every state vocabulary, the
  healthy states, the active run states and the display order of the domains. A table indexed
  by an enumeration is a function on the datatype.
\<close>

datatype tone = Ok | Warn | Bad | Info | Dim

record state_style =
  st_label :: string
  st_tone :: tone
  st_description :: string

abbreviation style :: "string \<Rightarrow> tone \<Rightarrow> string \<Rightarrow> state_style" where
  "style l t d \<equiv> \<lparr>st_label = l, st_tone = t, st_description = d\<rparr>"

fun COMPONENT_STATE :: "component_state \<Rightarrow> state_style" where
  "COMPONENT_STATE NOMINAL = style ''NOMINAL'' Ok ''Performing within specification''"
| "COMPONENT_STATE OPERATIONAL = style ''OPERATIONAL'' Ok ''Performing its function''"
| "COMPONENT_STATE DEGRADED = style ''DEGRADED'' Warn ''Reduced quality or capacity''"
| "COMPONENT_STATE UNAVAILABLE = style ''UNAVAILABLE'' Bad ''Function not provided''"
| "COMPONENT_STATE FAILED = style ''FAILED'' Bad ''Component failed''"
| "COMPONENT_STATE RECOVERING = style ''RECOVERING'' Warn ''Recovery in progress''"
| "COMPONENT_STATE RECOVERED = style ''RECOVERED'' Ok ''Back to a healthy state''"
| "COMPONENT_STATE UNKNOWN = style ''UNKNOWN'' Dim ''No observation available''"

definition HEALTHY_STATES :: "component_state list" where
  "HEALTHY_STATES = [NOMINAL, OPERATIONAL, RECOVERED]"

definition is_healthy :: "component_state option \<Rightarrow> bool" where
  "is_healthy st = (case st of None \<Rightarrow> False | Some s \<Rightarrow> s \<in> set HEALTHY_STATES)"

fun RUN_STATE :: "run_state \<Rightarrow> state_style" where
  "RUN_STATE RS_CREATED = style ''CREATED'' Dim ''Run record created''"
| "RUN_STATE RS_VALIDATING = style ''VALIDATING'' Info ''Scenario is being validated''"
| "RUN_STATE RS_QUEUED = style ''QUEUED'' Info ''Waiting for a runner''"
| "RUN_STATE RS_PREPARING = style ''PREPARING'' Info ''Runner is preparing the target''"
| "RUN_STATE RS_RUNNING = style ''RUNNING'' Ok ''Scenario executing''"
| "RUN_STATE RS_RECOVERING = style ''RECOVERING'' Warn ''A component is recovering''"
| "RUN_STATE RS_COLLECTING = style ''COLLECTING'' Info ''Collecting artifacts''"
| "RUN_STATE RS_ANALYZING = style ''ANALYZING'' Info ''Computing metrics and report''"
| "RUN_STATE RS_COMPLETED = style ''COMPLETED'' Ok ''Run finished and analyzed''"
| "RUN_STATE RS_FAILED = style ''FAILED'' Bad ''Run could not complete''"
| "RUN_STATE RS_CANCELLED = style ''CANCELLED'' Dim ''Run cancelled''"

definition ACTIVE_RUN_STATES :: "run_state list" where
  "ACTIVE_RUN_STATES =
     [RS_QUEUED, RS_PREPARING, RS_RUNNING, RS_RECOVERING, RS_COLLECTING, RS_ANALYZING]"

fun BENCHMARK_RESULT :: "benchmark_result \<Rightarrow> state_style" where
  "BENCHMARK_RESULT BR_passed = style ''PASSED'' Ok ''All hard gates passed''"
| "BENCHMARK_RESULT BR_failed = style ''FAILED'' Bad ''A hard gate failed''"
| "BENCHMARK_RESULT BR_inconclusive = style ''INCONCLUSIVE'' Warn ''Run did not complete''"

fun SEVERITY :: "severity \<Rightarrow> state_style" where
  "SEVERITY Sev_info = style ''INFO'' Dim ''Informational''"
| "SEVERITY Sev_low = style ''LOW'' Info ''Low severity''"
| "SEVERITY Sev_medium = style ''MEDIUM'' Warn ''Medium severity''"
| "SEVERITY Sev_high = style ''HIGH'' Warn ''High severity''"
| "SEVERITY Sev_critical = style ''CRITICAL'' Bad ''Critical severity''"

record event_style = state_style +
  st_short :: string

abbreviation kind_style :: "string \<Rightarrow> string \<Rightarrow> tone \<Rightarrow> string \<Rightarrow> event_style" where
  "kind_style l s t d \<equiv> \<lparr>st_label = l, st_tone = t, st_description = d, st_short = s\<rparr>"

fun EVENT_KIND :: "event_kind \<Rightarrow> event_style" where
  "EVENT_KIND INJECTION_REQUEST = kind_style ''Injection requested'' ''REQ'' Info
     ''Scenario asked the adapter to inject an effect''"
| "EVENT_KIND INJECTION_APPLIED = kind_style ''Injection applied'' ''INJ'' Info
     ''Adapter confirmed the effect is active''"
| "EVENT_KIND INJECTION_REJECTED = kind_style ''Injection rejected'' ''REJ'' Bad
     ''Adapter could not apply the effect''"
| "EVENT_KIND INJECTION_CLEARED = kind_style ''Injection cleared'' ''CLR'' Dim
     ''Effect removed''"
| "EVENT_KIND OBSERVED_EFFECT = kind_style ''Observed effect'' ''OBS'' Warn
     ''Component state change observed in the target''"
| "EVENT_KIND SYSTEM_RESPONSE = kind_style ''System response'' ''RSP'' Info
     ''Autonomous reaction of the target''"
| "EVENT_KIND RECOVERY = kind_style ''Recovery'' ''RCV'' Ok
     ''Component returned to a healthy state''"
| "EVENT_KIND EXPECTATION_RESULT = kind_style ''Expectation'' ''EXP'' Info
     ''Declared expectation checked against observations''"
| "EVENT_KIND ASSERTION_RESULT = kind_style ''Assertion'' ''AST'' Info
     ''Assertion evaluated''"
| "EVENT_KIND MISSION = kind_style ''Mission'' ''MSN'' Dim ''Mission progress''"
| "EVENT_KIND LIFECYCLE = kind_style ''Lifecycle'' ''LCY'' Dim ''Run lifecycle''"
| "EVENT_KIND LOG = kind_style ''Log'' ''LOG'' Dim ''Informational''"

fun FLIGHT_MODE :: "flight_mode \<Rightarrow> state_style" where
  "FLIGHT_MODE FM_IDLE = style ''IDLE'' Dim ''On ground, disarmed''"
| "FLIGHT_MODE FM_TAKEOFF = style ''TAKEOFF'' Info ''Climbing to mission altitude''"
| "FLIGHT_MODE FM_MISSION = style ''MISSION'' Ok ''Following the mission''"
| "FLIGHT_MODE FM_HOLD = style ''HOLD'' Warn ''Holding position (failsafe)''"
| "FLIGHT_MODE FM_RTL = style ''RTL'' Warn ''Returning to launch''"
| "FLIGHT_MODE FM_LAND = style ''LAND'' Info ''Landing''"
| "FLIGHT_MODE FM_LANDED = style ''LANDED'' Dim ''Landed''"
| "FLIGHT_MODE FM_UNKNOWN = style ''UNKNOWN'' Bad ''Mode unknown''"

fun DOMAIN_LABEL :: "domain \<Rightarrow> string" where
  "DOMAIN_LABEL External = ''External''"
| "DOMAIN_LABEL Communications = ''Communications''"
| "DOMAIN_LABEL Navigation = ''Navigation''"
| "DOMAIN_LABEL Mission_compute = ''Mission Compute''"
| "DOMAIN_LABEL Flight_control = ''Flight Control''"
| "DOMAIN_LABEL Actuation = ''Actuation''"
| "DOMAIN_LABEL Power = ''Power''"

definition DOMAIN_ORDER :: "domain list" where
  "DOMAIN_ORDER =
     [External, Communications, Mission_compute, Navigation, Flight_control, Actuation, Power]"

definition CRITICAL_DOMAINS :: "domain list" where
  "CRITICAL_DOMAINS = [Flight_control, Actuation]"

fun TONE_TEXT :: "tone \<Rightarrow> string" where
  "TONE_TEXT Ok = ''text-ok''"
| "TONE_TEXT Warn = ''text-warn''"
| "TONE_TEXT Bad = ''text-bad''"
| "TONE_TEXT Info = ''text-info''"
| "TONE_TEXT Dim = ''text-dim''"

fun TONE_BG :: "tone \<Rightarrow> string" where
  "TONE_BG Ok = ''bg-ok''"
| "TONE_BG Warn = ''bg-warn''"
| "TONE_BG Bad = ''bg-bad''"
| "TONE_BG Info = ''bg-info''"
| "TONE_BG Dim = ''bg-dim''"

fun TONE_SOFT_BG :: "tone \<Rightarrow> string" where
  "TONE_SOFT_BG Ok = ''bg-ok-soft''"
| "TONE_SOFT_BG Warn = ''bg-warn-soft''"
| "TONE_SOFT_BG Bad = ''bg-bad-soft''"
| "TONE_SOFT_BG Info = ''bg-info-soft''"
| "TONE_SOFT_BG Dim = ''bg-dim-soft''"

fun TONE_HEX :: "tone \<Rightarrow> string" where
  "TONE_HEX Ok = ''#2fbf71''"
| "TONE_HEX Warn = ''#e0a52a''"
| "TONE_HEX Bad = ''#e05252''"
| "TONE_HEX Info = ''#4fb3e8''"
| "TONE_HEX Dim = ''#5d6b7a''"

definition component_tone :: "component_state option \<Rightarrow> tone" where
  "component_tone st = (case st of None \<Rightarrow> Dim | Some s \<Rightarrow> st_tone (COMPONENT_STATE s))"

section \<open>Facts about the vocabularies\<close>

lemma is_healthy_None [simp]: "\<not> is_healthy None"
  by (simp add: is_healthy_def)

lemma is_healthy_Some: "is_healthy (Some s) \<longleftrightarrow> s = NOMINAL \<or> s = OPERATIONAL \<or> s = RECOVERED"
  by (simp add: is_healthy_def HEALTHY_STATES_def)

lemma healthy_iff_tone_ok: "is_healthy st \<longleftrightarrow> component_tone st = Ok"
proof (cases st)
  case None
  then show ?thesis by (simp add: component_tone_def)
next
  case (Some s)
  then show ?thesis by (cases s) (simp_all add: component_tone_def is_healthy_Some)
qed

lemma DOMAIN_ORDER_all [simp]: "d \<in> set DOMAIN_ORDER"
  by (cases d) (simp_all add: DOMAIN_ORDER_def)

lemma distinct_DOMAIN_ORDER [simp]: "distinct DOMAIN_ORDER"
  by (simp add: DOMAIN_ORDER_def)

text \<open>Domains are ordered by their place in \<open>DOMAIN_ORDER\<close>.\<close>

fun domain_rank :: "domain \<Rightarrow> nat" where
  "domain_rank External = 0"
| "domain_rank Communications = 1"
| "domain_rank Mission_compute = 2"
| "domain_rank Navigation = 3"
| "domain_rank Flight_control = 4"
| "domain_rank Actuation = 5"
| "domain_rank Power = 6"

lemma domain_rank_inj: "domain_rank a = domain_rank b \<Longrightarrow> a = b"
  by (cases a; cases b) simp_all

instantiation domain :: linorder
begin

definition less_eq_domain :: "domain \<Rightarrow> domain \<Rightarrow> bool" where
  "less_eq_domain a b = (domain_rank a \<le> domain_rank b)"

definition less_domain :: "domain \<Rightarrow> domain \<Rightarrow> bool" where
  "less_domain a b = (domain_rank a < domain_rank b)"

instance
  by standard (auto simp: less_eq_domain_def less_domain_def domain_rank_inj)

end

lemma sorted_DOMAIN_ORDER: "sorted_wrt (<) DOMAIN_ORDER"
  by (simp add: DOMAIN_ORDER_def less_domain_def)

lemma DOMAIN_ORDER_nth: "DOMAIN_ORDER ! domain_rank d = d"
  by (cases d) (simp_all add: DOMAIN_ORDER_def)

end
