(* ===== verification/JSRegex.thy ===== *)
theory JSRegex
  imports JSNumText
begin

text \<open>
  The backtracking matcher of ECMA-262 for the regular expressions of the modelled code:
  literals, \<open>\d+\<close> (greedy), sequences, optional groups (greedy), capture groups and a negative
  lookahead for one character. A matcher takes the rest of the input, the captures so far and
  the continuation, and tries the alternatives in the order of the standard.
\<close>

datatype regex =
    Lit char
  | Digits
  | Seq regex regex
  | Opt regex
  | Cap nat regex
  | NotAhead char
  | Eps

type_synonym captures = "nat \<Rightarrow> string option"

text \<open>\<open>\d+\<close>: as many digits as possible, then fewer.\<close>

fun digits_plus :: "string \<Rightarrow> (string \<Rightarrow> 'r option) \<Rightarrow> 'r option" where
  "digits_plus [] k = None"
| "digits_plus (c # cs) k =
     (if is_digit c then (case digits_plus cs k of Some r \<Rightarrow> Some r | None \<Rightarrow> k cs) else None)"

fun re_match ::
  "regex \<Rightarrow> string \<Rightarrow> captures \<Rightarrow> (string \<Rightarrow> captures \<Rightarrow> 'r option) \<Rightarrow> 'r option" where
  "re_match (Lit c) s m k = (case s of [] \<Rightarrow> None | x # xs \<Rightarrow> if x = c then k xs m else None)"
| "re_match Digits s m k = digits_plus s (\<lambda>s'. k s' m)"
| "re_match (Seq a b) s m k = re_match a s m (\<lambda>s' m'. re_match b s' m' k)"
| "re_match (Opt a) s m k = (case re_match a s m k of Some r \<Rightarrow> Some r | None \<Rightarrow> k s m)"
| "re_match (Cap i a) s m k =
     re_match a s m (\<lambda>s' m'. k s' (m'(i := Some (take (length s - length s') s))))"
| "re_match (NotAhead c) s m k = (if take 1 s = [c] then None else k s m)"
| "re_match Eps s m k = k s m"

text \<open>\<open>/^a$/.exec(s)\<close>.\<close>

definition re_exec :: "regex \<Rightarrow> string \<Rightarrow> captures option" where
  "re_exec a s = re_match a s (\<lambda>_. None) (\<lambda>s' m. if s' = [] then Some m else None)"

section \<open>Matching a run of digits\<close>

definition no_digit :: "string \<Rightarrow> bool" where
  "no_digit r = (case r of [] \<Rightarrow> True | c # _ \<Rightarrow> \<not> is_digit c)"

lemma no_digit_simps [simp]: "no_digit []" "no_digit (c # r) \<longleftrightarrow> \<not> is_digit c"
  by (simp_all add: no_digit_def)

lemma digits_plus_no_digit: "no_digit r \<Longrightarrow> digits_plus r k = None"
  by (cases r) simp_all

text \<open>
  If the continuation rejects every input that starts with a digit, \<open>\d+\<close> consumes the whole
  run of digits: shorter matches are tried and fail.
\<close>

lemma digits_plus_run:
  assumes "list_all is_digit ds" "ds \<noteq> []" "no_digit r"
    and "\<And>c s. is_digit c \<Longrightarrow> k (c # s) = None"
  shows "digits_plus (ds @ r) k = k r"
  using assms(1,2)
proof (induction ds)
  case Nil
  then show ?case by simp
next
  case (Cons d ds)
  show ?case
  proof (cases ds)
    case Nil
    with Cons.prems assms(3) show ?thesis by (simp add: digits_plus_no_digit)
  next
    case (Cons e es)
    with Cons.IH Cons.prems have "digits_plus (ds @ r) k = k r" by simp
    then show ?thesis
      using Cons Cons.prems assms(4) by (simp split: option.splits)
  qed
qed

lemma digits_plus_sound:
  "digits_plus s k = Some x \<Longrightarrow> \<exists>ds r. s = ds @ r \<and> ds \<noteq> [] \<and> list_all is_digit ds \<and> k r = Some x"
proof (induction s)
  case Nil
  then show ?case by simp
next
  case (Cons c s)
  then have d: "is_digit c" by (simp split: if_splits)
  show ?case
  proof (cases "digits_plus s k")
    case None
    with Cons d have "k s = Some x" by simp
    with d have "c # s = [c] @ s \<and> [c] \<noteq> [] \<and> list_all is_digit [c] \<and> k s = Some x" by simp
    then show ?thesis by blast
  next
    case (Some y)
    with Cons d obtain ds r where "s = ds @ r" "ds \<noteq> []" "list_all is_digit ds" "k r = Some x"
      by auto
    with d have "c # s = (c # ds) @ r \<and> c # ds \<noteq> [] \<and> list_all is_digit (c # ds) \<and> k r = Some x"
      by simp
    then show ?thesis by blast
  qed
qed

text \<open>A captured number followed by a unit letter.\<close>

lemma re_match_unit:
  assumes "list_all is_digit ds" "ds \<noteq> []" "no_digit r" "\<not> is_digit u"
  shows "re_match (Seq (Cap i Digits) (Lit u)) (ds @ r) m k
           = (if take 1 r = [u] then k (drop 1 r) (m(i := Some ds)) else None)"
proof -
  let ?k = "\<lambda>s'. re_match (Lit u) s'
    (m(i := Some (take (length (ds @ r) - length s') (ds @ r)))) k"
  have "digits_plus (ds @ r) ?k = ?k r"
    using assms by (intro digits_plus_run) auto
  then show ?thesis by (cases r) auto
qed

lemma re_match_unit_none: "no_digit s \<Longrightarrow> re_match (Seq (Cap i Digits) b) s m k = None"
  by (simp add: digits_plus_no_digit)

end
