(* ===== verification/Duration.thy ===== *)
theory Duration
  imports JSRegex JSValue
begin

text \<open>
  apps/web/src/lib/duration.ts: the duration strings of the scenario schema. The regular
  expression is matched by the backtracking matcher of \<open>JSRegex\<close>; the arithmetic rounds like
  doubles.
\<close>

text \<open>\<open>/^(?:(\d+)h)?(?:(\d+)m(?!s))?(?:(\d+(?:\.\d+)?)s)?(?:(\d+)ms)?$/\<close>\<close>

definition DURATION_RE :: regex where
  "DURATION_RE =
     Seq (Opt (Seq (Cap 1 Digits) (Lit (CHR ''h''))))
    (Seq (Opt (Seq (Cap 2 Digits) (Seq (Lit (CHR ''m'')) (NotAhead (CHR ''s'')))))
    (Seq (Opt (Seq (Cap 3 (Seq Digits (Opt (Seq (Lit (CHR ''.'')) Digits)))) (Lit (CHR ''s''))))
         (Opt (Seq (Cap 4 Digits) (Seq (Lit (CHR ''m'')) (Lit (CHR ''s'')))))))"

definition capture_number :: "captures \<Rightarrow> nat \<Rightarrow> jsnum" where
  "capture_number m i = (case m i of None \<Rightarrow> Fin 0 | Some s \<Rightarrow> parse_number s)"

definition duration_value :: "captures \<Rightarrow> jsnum" where
  "duration_value m =
     num_add
       (num_add (num_add (num_mul (capture_number m 1) (Fin 3600))
                         (num_mul (capture_number m 2) (Fin 60)))
                (capture_number m 3))
       (num_div (capture_number m 4) 1000)"

definition parse_duration :: "string \<Rightarrow> jsnum option" where
  "parse_duration v =
     (let text = trim v in
      if text = [] then None
      else (case re_exec DURATION_RE text of
              None \<Rightarrow> None
            | Some m \<Rightarrow>
                if \<not> truthy (m 1) \<and> \<not> truthy (m 2) \<and> \<not> truthy (m 3) \<and> \<not> truthy (m 4)
                then None
                else Some (duration_value m)))"

definition is_duration :: "string \<Rightarrow> bool" where
  "is_duration v = (parse_duration v \<noteq> None)"

definition to_duration_string :: "jsnum \<Rightarrow> string" where
  "to_duration_string seconds =
     (if \<not> is_finite seconds \<or> num_less seconds (Fin 0) then ''0s''
      else if num_less (Fin 0) seconds \<and> num_less seconds (Fin 1)
        then num_str (num_round (num_mul seconds (Fin 1000))) @ ''ms''
      else (let whole = num_div (num_round (num_mul seconds (Fin 10))) 10 in
        if num_less whole (Fin 60) then num_str (parse_number (num_fixed 1 whole)) @ ''s''
        else (let minutes = num_floor (num_div whole 60);
                  rest = num_round (num_sub whole (num_mul minutes (Fin 60)))
              in if rest = Fin 0 then num_str minutes @ ''m''
                 else num_str minutes @ ''m'' @ num_str rest @ ''s'')))"

section \<open>The grammar the expression accepts\<close>

definition unit_text :: "string option \<Rightarrow> string \<Rightarrow> string" where
  "unit_text d u = (case d of None \<Rightarrow> [] | Some ds \<Rightarrow> ds @ u)"

definition duration_text ::
  "string option \<Rightarrow> string option \<Rightarrow> string option \<Rightarrow> string option \<Rightarrow> string" where
  "duration_text h m s ms =
     unit_text h ''h'' @ unit_text m ''m'' @ unit_text s ''s'' @ unit_text ms ''ms''"

definition digits :: "string \<Rightarrow> bool" where
  "digits ds = (ds \<noteq> [] \<and> list_all is_digit ds)"

definition decimal :: "string \<Rightarrow> bool" where
  "decimal s = (digits s \<or> (\<exists>a b. s = a @ ''.'' @ b \<and> digits a \<and> digits b))"

definition captures_of ::
  "string option \<Rightarrow> string option \<Rightarrow> string option \<Rightarrow> string option \<Rightarrow> captures" where
  "captures_of h m s ms = (\<lambda>i. if i = 1 then h else if i = 2 then m else if i = 3 then s
                              else if i = 4 then ms else None)"

lemma letters_no_digit [simp]:
  "\<not> is_digit (CHR ''h'')" "\<not> is_digit (CHR ''m'')" "\<not> is_digit (CHR ''s'')" "\<not> is_digit (CHR ''.'')"
  by (simp_all add: is_digit_def)

text \<open>The four groups, and what each does on a run of digits.\<close>

definition HOURS_RE :: regex where
  "HOURS_RE = Seq (Cap 1 Digits) (Lit (CHR ''h''))"

definition MINUTES_RE :: regex where
  "MINUTES_RE = Seq (Cap 2 Digits) (Seq (Lit (CHR ''m'')) (NotAhead (CHR ''s'')))"

definition SECONDS_RE :: regex where
  "SECONDS_RE = Seq (Cap 3 (Seq Digits (Opt (Seq (Lit (CHR ''.'')) Digits)))) (Lit (CHR ''s''))"

definition MILLIS_RE :: regex where
  "MILLIS_RE = Seq (Cap 4 Digits) (Seq (Lit (CHR ''m'')) (Lit (CHR ''s'')))"

lemma DURATION_RE_groups:
  "DURATION_RE = Seq (Opt HOURS_RE) (Seq (Opt MINUTES_RE) (Seq (Opt SECONDS_RE) (Opt MILLIS_RE)))"
  by (simp add: DURATION_RE_def HOURS_RE_def MINUTES_RE_def SECONDS_RE_def MILLIS_RE_def)

lemma groups_no_digit:
  assumes "no_digit r"
  shows "re_match HOURS_RE r m k = None" "re_match MINUTES_RE r m k = None"
    "re_match SECONDS_RE r m k = None" "re_match MILLIS_RE r m k = None"
  using assms by (simp_all add: HOURS_RE_def MINUTES_RE_def SECONDS_RE_def MILLIS_RE_def
      digits_plus_no_digit)

lemma re_hours:
  assumes "digits ds" "no_digit r"
  shows "re_match HOURS_RE (ds @ r) m k
           = (if take 1 r = ''h'' then k (drop 1 r) (m(1 := Some ds)) else None)"
  using assms unfolding HOURS_RE_def by (intro re_match_unit) (simp_all add: digits_def)

lemma re_minutes:
  assumes "digits ds" "no_digit r"
  shows "re_match MINUTES_RE (ds @ r) m k
           = (if take 1 r = ''m'' \<and> take 1 (drop 1 r) \<noteq> ''s''
              then k (drop 1 r) (m(2 := Some ds)) else None)"
proof -
  let ?k = "\<lambda>s'. re_match (Seq (Lit (CHR ''m'')) (NotAhead (CHR ''s''))) s'
    (m(2 := Some (take (length (ds @ r) - length s') (ds @ r)))) k"
  have "digits_plus (ds @ r) ?k = ?k r"
    using assms by (intro digits_plus_run) (auto simp: digits_def)
  then show ?thesis by (cases r) (auto simp: MINUTES_RE_def)
qed

lemma re_millis:
  assumes "digits ds" "no_digit r"
  shows "re_match MILLIS_RE (ds @ r) m k
           = (if take 2 r = ''ms'' then k (drop 2 r) (m(4 := Some ds)) else None)"
proof -
  let ?k = "\<lambda>s'. re_match (Seq (Lit (CHR ''m'')) (Lit (CHR ''s''))) s'
    (m(4 := Some (take (length (ds @ r) - length s') (ds @ r)))) k"
  have "digits_plus (ds @ r) ?k = ?k r"
    using assms by (intro digits_plus_run) (auto simp: digits_def)
  then show ?thesis by (auto simp: MILLIS_RE_def take_Suc_conv_app_nth numeral_2_eq_2 split: list.split)
qed

lemma re_seconds_whole:
  assumes "digits ds" "no_digit r" "take 1 r \<noteq> ''.''"
  shows "re_match SECONDS_RE (ds @ r) m k
           = (if take 1 r = ''s'' then k (drop 1 r) (m(3 := Some ds)) else None)"
proof -
  let ?k = "\<lambda>s'. re_match (Opt (Seq (Lit (CHR ''.'')) Digits)) s' m (\<lambda>s' m'. re_match (Lit (CHR ''s'')) s'
    (m'(3 := Some (take (length (ds @ r) - length s') (ds @ r)))) k)"
  have "digits_plus (ds @ r) ?k = ?k r"
    using assms by (intro digits_plus_run) (auto simp: digits_def)
  then show ?thesis using assms(3) by (cases r) (auto simp: SECONDS_RE_def)
qed

lemma re_seconds_fraction:
  assumes "digits ds" "digits fs" "no_digit r"
  shows "re_match SECONDS_RE (ds @ ''.'' @ fs @ r) m k
           = (if take 1 r = ''s'' then k (drop 1 r) (m(3 := Some (ds @ ''.'' @ fs))) else None)"
proof -
  let ?t = "ds @ ''.'' @ fs @ r"
  let ?c = "\<lambda>s' m'. re_match (Lit (CHR ''s'')) s'
    (m'(3 := Some (take (length ?t - length s') ?t))) k"
  let ?k = "\<lambda>s'. re_match (Opt (Seq (Lit (CHR ''.'')) Digits)) s' m ?c"
  have "digits_plus ?t ?k = ?k (''.'' @ fs @ r)"
    using assms by (intro digits_plus_run) (auto simp: digits_def)
  moreover have "digits_plus (fs @ r) (\<lambda>s'. ?c s' m) = ?c r m"
    using assms by (intro digits_plus_run) (auto simp: digits_def)
  ultimately show ?thesis by (cases r) (auto simp: SECONDS_RE_def split: option.split)
qed

lemma re_seconds:
  assumes "decimal d"
  shows "re_match SECONDS_RE (d @ ''s'' @ r) m k = k r (m(3 := Some d))"
proof -
  from assms consider "digits d" | a b where "d = a @ ''.'' @ b" "digits a" "digits b"
    by (auto simp: decimal_def)
  then show ?thesis
  proof cases
    case 1
    then show ?thesis using re_seconds_whole [of d "''s'' @ r" m k] by simp
  next
    case 2
    then show ?thesis using re_seconds_fraction [of a b "''s'' @ r" m k] by simp
  qed
qed

text \<open>
  Completeness: on a text made of the four optional parts every group consumes its part; the
  groups before it reject, since the digits are followed by another unit.
\<close>

definition opt_digits :: "string option \<Rightarrow> bool" where
  "opt_digits d = (case d of None \<Rightarrow> True | Some ds \<Rightarrow> digits ds)"

definition opt_decimal :: "string option \<Rightarrow> bool" where
  "opt_decimal d = (case d of None \<Rightarrow> True | Some ds \<Rightarrow> decimal ds)"

definition put :: "nat \<Rightarrow> string option \<Rightarrow> captures \<Rightarrow> captures" where
  "put i d m = (case d of None \<Rightarrow> m | Some ds \<Rightarrow> m(i := Some ds))"

definition at_end :: "string \<Rightarrow> captures \<Rightarrow> captures option" where
  "at_end s m = (if s = [] then Some m else None)"

lemma re_opt_Some: "re_match a s m k = Some r \<Longrightarrow> re_match (Opt a) s m k = Some r"
  by simp

lemma re_opt_None: "re_match a s m k = None \<Longrightarrow> re_match (Opt a) s m k = k s m"
  by simp

lemma unit_text_simps [simp]: "unit_text None u = []" "unit_text (Some ds) u = ds @ u"
  by (simp_all add: unit_text_def)

lemma put_simps [simp]: "put i None m = m" "put i (Some ds) m = m(i := Some ds)"
  by (simp_all add: put_def)

lemma opt_digits_simps [simp]: "opt_digits None" "opt_digits (Some ds) = digits ds"
  by (simp_all add: opt_digits_def)

lemma opt_decimal_simps [simp]: "opt_decimal None" "opt_decimal (Some ds) = decimal ds"
  by (simp_all add: opt_decimal_def)

abbreviation end_match :: "string \<Rightarrow> captures \<Rightarrow> captures option" where
  "end_match s m \<equiv> re_match (Opt MILLIS_RE) s m at_end"

abbreviation seconds_match :: "string \<Rightarrow> captures \<Rightarrow> captures option" where
  "seconds_match s m \<equiv> re_match (Opt SECONDS_RE) s m end_match"

abbreviation minutes_match :: "string \<Rightarrow> captures \<Rightarrow> captures option" where
  "minutes_match s m \<equiv> re_match (Opt MINUTES_RE) s m seconds_match"

lemma match_end:
  assumes "opt_digits ms"
  shows "end_match (unit_text ms ''ms'') m = Some (put 4 ms m)"
proof (cases ms)
  case None
  then show ?thesis by (simp add: groups_no_digit at_end_def)
next
  case (Some d)
  then show ?thesis
    using assms re_millis [of d "''ms''" m at_end] by (intro re_opt_Some) (simp add: at_end_def)
qed

lemma match_seconds:
  assumes "opt_decimal s" "opt_digits ms"
  shows "seconds_match (unit_text s ''s'' @ unit_text ms ''ms'') m = Some (put 4 ms (put 3 s m))"
proof (cases s)
  case None
  have "re_match SECONDS_RE (unit_text ms ''ms'') m end_match = None"
    using assms(2) re_seconds_whole [of "the ms" "''ms''" m end_match]
    by (cases ms) (simp_all add: groups_no_digit)
  with None show ?thesis
    using match_end [OF assms(2)] by (simp only: unit_text_simps append_Nil put_simps re_opt_None)
next
  case (Some d)
  with assms have "re_match SECONDS_RE (d @ ''s'' @ unit_text ms ''ms'') m end_match
      = Some (put 4 ms (m(3 := Some d)))"
    using match_end by (simp only: re_seconds opt_decimal_simps)
  with Some show ?thesis
    by (simp only: unit_text_simps append_assoc put_simps re_opt_Some)
qed

lemma decimal_split:
  assumes "decimal d"
  obtains a r where "d = a @ r" "digits a" "no_digit r" "r = [] \<or> hd r = CHR ''.''"
proof -
  from assms consider "digits d" | a b where "d = a @ ''.'' @ b" "digits a"
    by (auto simp: decimal_def)
  then show ?thesis
  proof cases
    case 1
    then show ?thesis using that [of d "[]"] by simp
  next
    case 2
    then show ?thesis using that [of a "''.'' @ b"] by simp
  qed
qed

text \<open>
  The rest after a group is empty, or it starts with digits that a later unit ends.
\<close>

lemma seconds_part_split:
  assumes "opt_decimal s" "opt_digits ms"
  obtains "unit_text s ''s'' @ unit_text ms ''ms'' = []"
  | a c t where "unit_text s ''s'' @ unit_text ms ''ms'' = a @ c # t" "digits a"
      "c = CHR ''.'' \<or> c = CHR ''s'' \<or> c = CHR ''m'' \<and> take 1 t = ''s''"
proof (cases s)
  case None
  show ?thesis
  proof (cases ms)
    case None
    with \<open>s = None\<close> show ?thesis using that(1) by simp
  next
    case (Some d)
    with \<open>s = None\<close> show ?thesis using that(2) [of d "CHR ''m''" "''s''"] assms(2) by simp
  qed
next
  case (Some d)
  then have "decimal d" using assms(1) by simp
  then obtain a r where r: "d = a @ r" "digits a" "no_digit r" "r = [] \<or> hd r = CHR ''.''"
    by (rule decimal_split)
  show ?thesis
  proof (cases r)
    case Nil
    with Some r show ?thesis using that(2) [of a "CHR ''s''" "unit_text ms ''ms''"] by simp
  next
    case (Cons c t)
    with Some r show ?thesis using that(2) [of a c "t @ ''s'' @ unit_text ms ''ms''"] by simp
  qed
qed

lemma digits_hd: "digits a \<Longrightarrow> \<exists>d t. a = d # t \<and> is_digit d"
  by (cases a) (simp_all add: digits_def)

lemma match_minutes:
  assumes "opt_digits mi" "opt_decimal s" "opt_digits ms"
  shows "minutes_match (unit_text mi ''m'' @ unit_text s ''s'' @ unit_text ms ''ms'') m
           = Some (put 4 ms (put 3 s (put 2 mi m)))"
proof -
  let ?rest = "unit_text s ''s'' @ unit_text ms ''ms''"
  note secs = match_seconds [OF assms(2,3)]
  show ?thesis
  proof (cases mi)
    case None
    from assms(2,3) have "re_match MINUTES_RE ?rest m seconds_match = None"
    proof (cases rule: seconds_part_split)
      case 1
      then show ?thesis by (simp only: groups_no_digit no_digit_simps)
    next
      case (2 a c t)
      then have "no_digit (c # t)" by auto
      then show ?thesis using 2 by (simp only: re_minutes) auto
    qed
    with None secs show ?thesis
      by (simp only: unit_text_simps append_Nil put_simps re_opt_None)
  next
    case (Some d)
    from assms(2,3) have "take 1 ?rest \<noteq> ''s''"
    proof (cases rule: seconds_part_split)
      case 1
      then show ?thesis by (simp only: take_Nil) simp
    next
      case (2 a c t)
      with digits_hd [OF 2(2)] show ?thesis by (auto simp: 2(1))
    qed
    then have "re_match MINUTES_RE (d @ ''m'' @ ?rest) m seconds_match
        = Some (put 4 ms (put 3 s (m(2 := Some d))))"
      using assms(1) Some secs re_minutes [of d "''m'' @ ?rest" m seconds_match] by simp
    with Some show ?thesis
      by (simp only: unit_text_simps append_assoc put_simps re_opt_Some)
  qed
qed

lemma minutes_part_split:
  assumes "opt_digits mi" "opt_decimal s" "opt_digits ms"
  obtains "unit_text mi ''m'' @ unit_text s ''s'' @ unit_text ms ''ms'' = []"
  | a c t where "unit_text mi ''m'' @ unit_text s ''s'' @ unit_text ms ''ms'' = a @ c # t"
      "digits a" "c = CHR ''.'' \<or> c = CHR ''s'' \<or> c = CHR ''m''"
proof (cases mi)
  case None
  from assms(2,3) show ?thesis
    by (cases rule: seconds_part_split) (use None that in auto)
next
  case (Some d)
  then show ?thesis
    using that(2) [of d "CHR ''m''" "unit_text s ''s'' @ unit_text ms ''ms''"] assms(1) by simp
qed

lemma captures_of_put: "captures_of h mi s ms = put 4 ms (put 3 s (put 2 mi (put 1 h (\<lambda>_. None))))"
  by (auto simp: captures_of_def put_def fun_eq_iff split: option.splits)

lemma match_duration_text:
  assumes "opt_digits h" "opt_digits mi" "opt_decimal s" "opt_digits ms"
  shows "re_exec DURATION_RE (duration_text h mi s ms) = Some (captures_of h mi s ms)"
proof -
  let ?rest = "unit_text mi ''m'' @ unit_text s ''s'' @ unit_text ms ''ms''"
  note mins = match_minutes [OF assms(2-4)]
  have exec: "re_exec DURATION_RE t = re_match (Opt HOURS_RE) t (\<lambda>_. None) minutes_match" for t
    unfolding re_exec_def DURATION_RE_groups at_end_def by (simp only: re_match.simps(3))
  show ?thesis
  proof (cases h)
    case None
    from assms(2-4) have "re_match HOURS_RE ?rest (\<lambda>_. None) minutes_match = None"
    proof (cases rule: minutes_part_split)
      case 1
      then show ?thesis by (simp only: groups_no_digit no_digit_simps)
    next
      case (2 a c t)
      then have "no_digit (c # t)" by auto
      then show ?thesis using 2 by (simp only: re_hours) auto
    qed
    with None mins show ?thesis
      unfolding exec duration_text_def
      by (simp only: unit_text_simps append_Nil re_opt_None captures_of_put put_simps)
  next
    case (Some d)
    have "re_match HOURS_RE (d @ ''h'' @ ?rest) (\<lambda>_. None) minutes_match
        = Some (captures_of h mi s ms)"
      using assms(1) Some mins re_hours [of d "''h'' @ ?rest" "\<lambda>_. None" minutes_match]
      by (simp add: captures_of_put)
    with Some show ?thesis
      unfolding exec duration_text_def
      by (simp only: unit_text_simps append_assoc re_opt_Some)
  qed
qed

section \<open>Soundness: what the expression accepts has this form\<close>

lemma sound_hours:
  assumes "re_match HOURS_RE s m k = Some x"
  shows "\<exists>d r. s = d @ ''h'' @ r \<and> digits d \<and> k r (m(1 := Some d)) = Some x"
proof -
  from assms have "digits_plus s (\<lambda>s'. re_match (Lit (CHR ''h'')) s'
      (m(1 := Some (take (length s - length s') s))) k) = Some x"
    by (simp add: HOURS_RE_def)
  from digits_plus_sound [OF this] obtain d r where
    "s = d @ r" "digits d" "re_match (Lit (CHR ''h'')) r
      (m(1 := Some (take (length s - length r) s))) k = Some x"
    unfolding digits_def by blast
  then show ?thesis by (cases r) (auto split: if_splits)
qed

lemma sound_minutes:
  assumes "re_match MINUTES_RE s m k = Some x"
  shows "\<exists>d r. s = d @ ''m'' @ r \<and> digits d \<and> k r (m(2 := Some d)) = Some x"
proof -
  from assms have "digits_plus s (\<lambda>s'. re_match (Seq (Lit (CHR ''m'')) (NotAhead (CHR ''s''))) s'
      (m(2 := Some (take (length s - length s') s))) k) = Some x"
    by (simp add: MINUTES_RE_def)
  from digits_plus_sound [OF this] obtain d r where
    "s = d @ r" "digits d" "re_match (Seq (Lit (CHR ''m'')) (NotAhead (CHR ''s''))) r
      (m(2 := Some (take (length s - length r) s))) k = Some x"
    unfolding digits_def by blast
  then show ?thesis by (cases r) (auto split: if_splits)
qed

lemma sound_millis:
  assumes "re_match MILLIS_RE s m k = Some x"
  shows "\<exists>d r. s = d @ ''ms'' @ r \<and> digits d \<and> k r (m(4 := Some d)) = Some x"
proof -
  from assms have "digits_plus s (\<lambda>s'. re_match (Seq (Lit (CHR ''m'')) (Lit (CHR ''s''))) s'
      (m(4 := Some (take (length s - length s') s))) k) = Some x"
    by (simp add: MILLIS_RE_def)
  from digits_plus_sound [OF this] obtain d r where
    "s = d @ r" "digits d" "re_match (Seq (Lit (CHR ''m'')) (Lit (CHR ''s''))) r
      (m(4 := Some (take (length s - length r) s))) k = Some x"
    unfolding digits_def by blast
  then show ?thesis by (cases r) (auto split: if_splits list.splits)
qed

lemma sound_seconds:
  assumes "re_match SECONDS_RE s m k = Some x"
  shows "\<exists>d r. s = d @ ''s'' @ r \<and> decimal d \<and> k r (m(3 := Some d)) = Some x"
proof -
  let ?k = "\<lambda>s' m'. re_match (Lit (CHR ''s'')) s' (m'(3 := Some (take (length s - length s') s))) k"
  from assms have "digits_plus s (\<lambda>s'. re_match (Opt (Seq (Lit (CHR ''.'')) Digits)) s' m ?k) = Some x"
    by (simp add: SECONDS_RE_def)
  from digits_plus_sound [OF this] obtain d r where
    r: "s = d @ r" "digits d" and o: "re_match (Opt (Seq (Lit (CHR ''.'')) Digits)) r m ?k = Some x"
    unfolding digits_def by blast
  show ?thesis
  proof (cases "re_match (Seq (Lit (CHR ''.'')) Digits) r m ?k")
    case None
    with o have "?k r m = Some x" by (simp only: re_opt_None)
    with r show ?thesis by (cases r) (auto simp: decimal_def split: if_splits)
  next
    case (Some y)
    with o have "y = x" by (simp only: re_opt_Some option.inject)
    with Some obtain t where t: "r = CHR ''.'' # t" "digits_plus t (\<lambda>s'. ?k s' m) = Some x"
      by (cases r) (simp_all split: if_splits)
    from digits_plus_sound [OF t(2)] obtain f u where
      "t = f @ u" "digits f" "?k u m = Some x"
      unfolding digits_def by blast
    with r t show ?thesis
      by (cases u; simp split: if_splits)
        (intro exI [of _ "d @ ''.'' @ f"] exI [of _ "tl u"], auto simp: decimal_def)
  qed
qed

lemma opt_cases:
  assumes "re_match (Opt a) s m k = Some x"
  obtains "re_match a s m k = Some x" | "k s m = Some x"
  using assms by (auto split: option.splits)

lemma sound_end: "end_match s m = Some x \<Longrightarrow> \<exists>ms. s = unit_text ms ''ms'' \<and> opt_digits ms \<and> x = put 4 ms m"
proof (erule opt_cases)
  assume "re_match MILLIS_RE s m at_end = Some x"
  from sound_millis [OF this] obtain d where "s = d @ ''ms''" "digits d" "x = m(4 := Some d)"
    by (auto simp: at_end_def split: if_splits)
  then show ?thesis by (intro exI [of _ "Some d"]) simp
next
  assume "at_end s m = Some x"
  then show ?thesis by (intro exI [of _ None]) (simp add: at_end_def split: if_splits)
qed

lemma sound_seconds_match:
  "seconds_match s m = Some x \<Longrightarrow> \<exists>se ms. s = unit_text se ''s'' @ unit_text ms ''ms''
     \<and> opt_decimal se \<and> opt_digits ms \<and> x = put 4 ms (put 3 se m)"
proof (erule opt_cases)
  assume "re_match SECONDS_RE s m end_match = Some x"
  from sound_seconds [OF this] obtain d r where
    d: "s = d @ ''s'' @ r" "decimal d" "end_match r (m(3 := Some d)) = Some x" by blast
  from sound_end [OF d(3)] d(1,2) show ?thesis
    by (metis append_assoc opt_decimal_simps(2) put_simps(2) unit_text_simps(2))
next
  assume "end_match s m = Some x"
  from sound_end [OF this] show ?thesis
    by (metis append_Nil opt_decimal_simps(1) put_simps(1) unit_text_simps(1))
qed

lemma sound_minutes_match:
  "minutes_match s m = Some x \<Longrightarrow> \<exists>mi se ms.
     s = unit_text mi ''m'' @ unit_text se ''s'' @ unit_text ms ''ms''
     \<and> opt_digits mi \<and> opt_decimal se \<and> opt_digits ms \<and> x = put 4 ms (put 3 se (put 2 mi m))"
proof (erule opt_cases)
  assume "re_match MINUTES_RE s m seconds_match = Some x"
  from sound_minutes [OF this] obtain d r where
    d: "s = d @ ''m'' @ r" "digits d" "seconds_match r (m(2 := Some d)) = Some x" by blast
  from sound_seconds_match [OF d(3)] d(1,2) show ?thesis
    by (metis append_assoc opt_digits_simps(2) put_simps(2) unit_text_simps(2))
next
  assume "seconds_match s m = Some x"
  from sound_seconds_match [OF this] show ?thesis
    by (metis append_Nil opt_digits_simps(1) put_simps(1) unit_text_simps(1))
qed

lemma re_exec_sound:
  assumes "re_exec DURATION_RE s = Some x"
  shows "\<exists>h mi se ms. s = duration_text h mi se ms \<and> opt_digits h \<and> opt_digits mi
           \<and> opt_decimal se \<and> opt_digits ms \<and> x = captures_of h mi se ms"
proof -
  have "re_match (Opt HOURS_RE) s (\<lambda>_. None) minutes_match = Some x"
    using assms unfolding re_exec_def DURATION_RE_groups at_end_def
    by (simp only: re_match.simps(3))
  then show ?thesis
  proof (rule opt_cases)
    assume "re_match HOURS_RE s (\<lambda>_. None) minutes_match = Some x"
    from sound_hours [OF this] obtain d r where
      d: "s = d @ ''h'' @ r" "digits d" "minutes_match r ((\<lambda>_. None)(1 := Some d)) = Some x" by blast
    from sound_minutes_match [OF d(3)] d(1,2) show ?thesis
      unfolding duration_text_def captures_of_put
      by (metis append_assoc opt_digits_simps(2) put_simps(2) unit_text_simps(2))
  next
    assume "minutes_match s (\<lambda>_. None) = Some x"
    from sound_minutes_match [OF this] show ?thesis
      unfolding duration_text_def captures_of_put
      by (metis append_Nil opt_digits_simps(1) put_simps(1) unit_text_simps(1))
  qed
qed

section \<open>Properties of the parser\<close>

lemma unit_text_not_ws: "opt_decimal d \<Longrightarrow> list_all (\<lambda>c. \<not> is_ws c) u
    \<Longrightarrow> list_all (\<lambda>c. \<not> is_ws c) (unit_text d u)"
proof -
  have "\<not> is_ws (CHR ''.'')" by (simp add: is_ws_def)
  then show "opt_decimal d \<Longrightarrow> list_all (\<lambda>c. \<not> is_ws c) u
      \<Longrightarrow> list_all (\<lambda>c. \<not> is_ws c) (unit_text d u)"
    by (cases d) (auto simp: decimal_def digits_def list_all_iff not_ws_digit)
qed

lemma opt_digits_decimal: "opt_digits d \<Longrightarrow> opt_decimal d"
  by (cases d) (simp_all add: decimal_def)

lemma trim_duration_text:
  assumes "opt_digits h" "opt_digits mi" "opt_decimal s" "opt_digits ms"
  shows "trim (duration_text h mi s ms) = duration_text h mi s ms"
proof (rule trim_id)
  have "\<not> is_ws (CHR ''h'')" "\<not> is_ws (CHR ''m'')" "\<not> is_ws (CHR ''s'')"
    by (simp_all add: is_ws_def)
  then show "list_all (\<lambda>c. \<not> is_ws c) (duration_text h mi s ms)"
    using assms by (simp add: duration_text_def unit_text_not_ws opt_digits_decimal)
qed

lemma duration_text_Nil:
  assumes "opt_digits h" "opt_digits mi" "opt_decimal s" "opt_digits ms"
  shows "duration_text h mi s ms = [] \<longleftrightarrow> h = None \<and> mi = None \<and> s = None \<and> ms = None"
  by (cases h; cases mi; cases s; cases ms) (simp_all add: duration_text_def)

lemma truthy_capture:
  "opt_decimal d \<Longrightarrow> truthy d \<longleftrightarrow> d \<noteq> None"
  by (cases d) (auto simp: truthy_def decimal_def digits_def)

lemma parse_duration_text:
  assumes "opt_digits h" "opt_digits mi" "opt_decimal s" "opt_digits ms"
    and "\<not> (h = None \<and> mi = None \<and> s = None \<and> ms = None)"
  shows "parse_duration (duration_text h mi s ms) = Some (duration_value (captures_of h mi s ms))"
proof -
  have "captures_of h mi s ms 1 = h" "captures_of h mi s ms 2 = mi"
    "captures_of h mi s ms 3 = s" "captures_of h mi s ms 4 = ms"
    by (simp_all add: captures_of_def)
  then show ?thesis
    using assms duration_text_Nil [OF assms(1-4)]
    by (simp add: parse_duration_def Let_def trim_duration_text match_duration_text
        truthy_capture opt_digits_decimal del: One_nat_def)
qed

lemma capture_number_captures [simp]:
  "capture_number (captures_of h mi s ms) 1 = (case h of None \<Rightarrow> Fin 0 | Some d \<Rightarrow> parse_number d)"
  "capture_number (captures_of h mi s ms) 2 = (case mi of None \<Rightarrow> Fin 0 | Some d \<Rightarrow> parse_number d)"
  "capture_number (captures_of h mi s ms) 3 = (case s of None \<Rightarrow> Fin 0 | Some d \<Rightarrow> parse_number d)"
  "capture_number (captures_of h mi s ms) 4 = (case ms of None \<Rightarrow> Fin 0 | Some d \<Rightarrow> parse_number d)"
  by (simp_all add: capture_number_def captures_of_def)

text \<open>
  C29. \<open>parseDuration\<close> accepts, after trimming, exactly the texts made of an hour, a minute, a
  second (with an optional fraction) and a millisecond part in this order, each optional but
  not all absent, and returns the value of the parts; everything else is \<open>null\<close>. In particular
  a bare number is never a duration.
\<close>

theorem parse_duration_grammar:
  "parse_duration v = Some x \<longleftrightarrow>
     (\<exists>h mi s ms. trim v = duration_text h mi s ms
        \<and> opt_digits h \<and> opt_digits mi \<and> opt_decimal s \<and> opt_digits ms
        \<and> \<not> (h = None \<and> mi = None \<and> s = None \<and> ms = None)
        \<and> x = duration_value (captures_of h mi s ms))"
  (is "_ \<longleftrightarrow> ?R")
proof
  assume "parse_duration v = Some x"
  then obtain m where m: "trim v \<noteq> []" "re_exec DURATION_RE (trim v) = Some m"
      "x = duration_value m"
    by (auto simp: parse_duration_def Let_def split: option.splits if_splits)
  from re_exec_sound [OF m(2)] obtain h mi s ms where
    t: "trim v = duration_text h mi s ms" and w: "opt_digits h" "opt_digits mi"
      "opt_decimal s" "opt_digits ms" and c: "m = captures_of h mi s ms" by blast
  have "\<not> (h = None \<and> mi = None \<and> s = None \<and> ms = None)"
    using m(1) t duration_text_Nil [OF w] by simp
  with t w c m(3) show ?R by blast
next
  have "trim (trim v) = trim v"
    if "trim v = duration_text h mi s ms" "opt_digits h" "opt_digits mi" "opt_decimal s" "opt_digits ms"
    for h mi s ms
    using that trim_duration_text by simp
  moreover have "trim (trim v) = trim v \<Longrightarrow> parse_duration v = parse_duration (trim v)"
    by (simp add: parse_duration_def)
  moreover assume ?R
  ultimately show "parse_duration v = Some x"
    using parse_duration_text by metis
qed

section \<open>Properties of the printer\<close>

lemma digits_dec [simp]: "0 \<le> n \<Longrightarrow> digits (dec n)"
  by (simp add: digits_def dec_digits)

lemma to_num_of_int_mult: "\<bar>a * b\<bar> \<le> 2 ^ 53 \<Longrightarrow> to_num (of_int a * of_int b) = Fin (of_int (a * b))"
  using to_num_int [of "a * b"] by simp

lemma floor_fl_div_60:
  assumes "0 \<le> n" "n \<le> 10 ^ 15"
  shows "\<lfloor>fl (of_int n / 60)\<rfloor> = n div 60"
proof -
  let ?q = "n div 60"
  have q: "0 \<le> ?q" "?q \<le> 10 ^ 14" using assms by simp_all
  have n: "60 * ?q \<le> n" "n \<le> 60 * ?q + 59" by simp_all
  have "of_int ?q = fl (of_int ?q)" using q by (simp add: fl_of_int)
  also have "\<dots> \<le> fl (of_int n / 60)"
  proof (rule fl_mono)
    have "of_int (60 * ?q) \<le> (of_int n :: rat)" using n(1) by (simp only: of_int_le_iff)
    then show "of_int ?q \<le> (of_int n / 60 :: rat)" by simp
  qed
  finally have lo: "of_int ?q \<le> fl (of_int n / 60)" .
  let ?m = "64 * ?q + 63"
  have "fl (of_int n / 60) \<le> fl (of_int ?m * pow2 (- 6))"
  proof (rule fl_mono)
    have "of_int n \<le> (of_int (60 * ?q + 59) :: rat)" using n(2) by (simp only: of_int_le_iff)
    then show "of_int n / 60 \<le> of_int ?m * pow2 (- 6)" by (simp add: pow2_def)
  qed
  also have "\<dots> = of_int ?m * pow2 (- 6)"
    using q by (intro fl_exact) simp_all
  also have "\<dots> < of_int (?q + 1)" by (simp add: pow2_def)
  finally have hi: "fl (of_int n / 60) < of_int ?q + 1" by simp
  show ?thesis using lo hi by (simp add: floor_eq_iff)
qed

lemma whole_seconds:
  assumes "0 \<le> n" "n \<le> 10 ^ 14"
  shows "num_div (num_round (num_mul (Fin (of_int n)) (Fin 10))) 10 = Fin (of_int n)"
proof -
  have "num_mul (Fin (of_int n)) (Fin 10) = Fin (of_int (n * 10))"
    using to_num_of_int_mult [of n 10] assms by (simp add: num_eval)
  then show ?thesis
    using to_num_int [of n] math_round_of_int [of "n * 10"] assms by (simp add: num_eval)
qed

lemma fixed_1_int:
  assumes "0 \<le> n" "n \<le> 10 ^ 14"
  shows "num_str (parse_number (num_fixed 1 (Fin (of_int n)))) = dec n"
proof -
  have big: "\<not> 10 ^ 21 \<le> \<bar>of_int n :: rat\<bar>"
  proof -
    have "(of_int n :: rat) \<le> of_int (10 ^ 14)" using assms by (simp only: of_int_le_iff)
    then show ?thesis using assms by simp
  qed
  have round: "math_round (\<bar>of_int n :: rat\<bar> * 10 ^ 1) = n * 10"
    using math_round_of_int [of "n * 10"] assms by simp
  show ?thesis
  proof (cases "n = 0")
    case True
    have "num_str (parse_number (num_fixed 1 (Fin 0))) = dec 0" by code_simp
    with True show ?thesis by simp
  next
    case False
    then have "dec (n * 10) = dec n @ ''0''"
      using dec_mult_10 [of n 1] assms by simp
    then have "num_fixed 1 (Fin (of_int n)) = dec n @ ''.'' @ ''0''"
      using assms big round Suc_leI [of 0 "length (dec n)"]
      by (simp add: num_fixed_def to_fixed_def fixed_digits_def pad_start_def Let_def)
    moreover have "parse_number (dec n @ ''.'' @ ''0'') = to_num (of_int (undec (dec n @ ''0'')) / 10 ^ 1)"
      using parse_number_digits(2) [of "dec n" "''0''"] assms
      by (simp add: dec_digits is_digit_def)
    moreover have "undec (dec n @ ''0'') = n * 10"
      using assms by (simp add: digit_val_def)
    ultimately show ?thesis
      using assms to_num_int [of n] by (simp add: num_str_int)
  qed
qed

lemma to_duration_string_int:
  assumes "0 \<le> n" "n \<le> 10 ^ 14"
  shows "to_duration_string (Fin (of_int n)) =
    (if n < 60 then dec n @ ''s''
     else if n mod 60 = 0 then dec (n div 60) @ ''m''
     else dec (n div 60) @ ''m'' @ dec (n mod 60) @ ''s'')"
proof -
  have small: "\<not> (0 < (of_int n :: rat) \<and> (of_int n :: rat) < 1)" by auto
  have minutes: "num_floor (num_div (Fin (of_int n)) 60) = Fin (of_int (n div 60))"
  proof -
    have "\<bar>of_int n / 60 :: rat\<bar> \<le> of_int (10 ^ 14)"
    proof -
      have "(of_int n :: rat) \<le> of_int (10 ^ 14)" using assms by (simp only: of_int_le_iff)
      then show ?thesis using assms by simp
    qed
    also have "\<dots> \<le> 2 ^ 1000" by simp
    finally have "to_num (of_int n / 60) = Fin (fl (of_int n / 60))" by (rule to_num_small)
    then show ?thesis using floor_fl_div_60 [of n] assms by (simp add: num_eval)
  qed
  have rest: "num_round (num_sub (Fin (of_int n)) (num_mul (Fin (of_int (n div 60))) (Fin 60)))
      = Fin (of_int (n mod 60))"
  proof -
    have "num_mul (Fin (of_int (n div 60))) (Fin 60) = Fin (of_int (n div 60 * 60))"
      using to_num_of_int_mult [of "n div 60" 60] assms by (simp add: num_eval)
    moreover have "to_num (of_int n - of_int (n div 60 * 60)) = Fin (of_int (n mod 60))"
    proof -
      have "(of_int n :: rat) - of_int (n div 60 * 60) = of_int (n mod 60)"
        by (simp only: of_int_diff [symmetric] minus_div_mult_eq_mod)
      moreover have "\<bar>n mod 60\<bar> \<le> 2 ^ 53"
        using pos_mod_bound [of 60 n] pos_mod_sign [of 60 n] by simp
      ultimately show ?thesis by (simp only: to_num_int)
    qed
    ultimately show ?thesis by (simp only: num_sub_def num_neg.simps num_add.simps
        num_round.simps math_round_of_int diff_conv_add_uminus)
  qed
  have "\<not> num_less (Fin (of_int n)) (Fin 0)" using assms by simp
  moreover have "num_less (Fin (of_int n)) (Fin 60) \<longleftrightarrow> n < 60" by simp
  moreover have "Fin (of_int (n mod 60)) = Fin 0 \<longleftrightarrow> n mod 60 = 0" by simp
  moreover have "num_str (Fin (of_int (n div 60))) = dec (n div 60)"
    "num_str (Fin (of_int (n mod 60))) = dec (n mod 60)"
    using assms pos_mod_bound [of 60 n] by (simp_all add: num_str_int)
  ultimately show ?thesis
    using assms small
    by (simp add: to_duration_string_def is_finite_def whole_seconds fixed_1_int minutes rest
        del: One_nat_def)
qed

lemma duration_value_int:
  assumes "0 \<le> a" "a \<le> 10 ^ 14" "0 \<le> b" "b \<le> 10 ^ 14"
    and "mi = None \<and> a = 0 \<or> mi = Some (dec a)" and "s = None \<and> b = 0 \<or> s = Some (dec b)"
  shows "duration_value (captures_of None mi s None) = Fin (of_int (60 * a + b))"
proof -
  have n: "(case mi of None \<Rightarrow> Fin 0 | Some d \<Rightarrow> parse_number d) = Fin (of_int a)"
    "(case s of None \<Rightarrow> Fin 0 | Some d \<Rightarrow> parse_number d) = Fin (of_int b)"
    using assms by (auto simp: parse_number_dec)
  have z: "to_num 0 = Fin 0" using to_num_int [of 0] by simp
  have "num_add (num_add (num_mul (Fin 0) (Fin 3600)) (num_mul (Fin (of_int a)) (Fin 60)))
      (Fin (of_int b)) = Fin (of_int (60 * a + b))"
    using assms(1-4) to_num_int [of "60 * a"] to_num_int [of "60 * a + b"] z
    by (simp add: num_eval mult.commute)
  moreover have "num_add (Fin (of_int (60 * a + b))) (num_div (Fin 0) 1000)
      = Fin (of_int (60 * a + b))"
    using assms(1-4) to_num_int [of "60 * a + b"] z by (simp add: num_eval)
  ultimately show ?thesis
    unfolding duration_value_def capture_number_captures n option.case by (simp only:)
qed

text \<open>
  Round trip: a whole number of seconds, printed by \<open>toDurationString\<close> and parsed by
  \<open>parseDuration\<close>, is the same number (up to 10^14 seconds, far below 2^53).
\<close>

theorem duration_roundtrip:
  assumes "0 \<le> n" "n \<le> 10 ^ 14"
  shows "parse_duration (to_duration_string (Fin (of_int n))) = Some (Fin (of_int n))"
proof -
  consider "n < 60" | "60 \<le> n" "n mod 60 = 0" | "60 \<le> n" "n mod 60 \<noteq> 0" by linarith
  then show ?thesis
  proof cases
    case 1
    then have "to_duration_string (Fin (of_int n)) = duration_text None None (Some (dec n)) None"
      using assms by (simp add: to_duration_string_int duration_text_def)
    then show ?thesis
      using assms duration_value_int [of 0 n None "Some (dec n)"]
      by (simp add: parse_duration_text decimal_def)
  next
    case 2
    then have "to_duration_string (Fin (of_int n)) = duration_text None (Some (dec (n div 60))) None None"
      using assms by (simp add: to_duration_string_int duration_text_def)
    moreover have "60 * (n div 60) = n" using 2 by auto
    ultimately show ?thesis
      using assms duration_value_int [of "n div 60" 0 "Some (dec (n div 60))" None]
      by (simp add: parse_duration_text)
  next
    case 3
    then have "to_duration_string (Fin (of_int n))
        = duration_text None (Some (dec (n div 60))) (Some (dec (n mod 60))) None"
      using assms by (simp add: to_duration_string_int duration_text_def)
    then show ?thesis
      using assms pos_mod_bound [of 60 n]
        duration_value_int [of "n div 60" "n mod 60" "Some (dec (n div 60))" "Some (dec (n mod 60))"]
      by (simp add: parse_duration_text decimal_def)
  qed
qed

theorem duration_roundtrip_witness:
  "to_duration_string (Fin 95) = ''1m35s''
     \<and> parse_duration (to_duration_string (Fin 95)) = Some (Fin 95)"
proof -
  have "to_duration_string (Fin 95) = ''1m35s''" by code_simp
  then show ?thesis using duration_roundtrip [of 95] by simp
qed

end
