(* ===== verification/Format.thy ===== *)
theory Format
  imports States Duration
begin

text \<open>
  apps/web/src/lib/utils.ts and apps/web/src/lib/format.ts: how times, durations, percentages,
  metric values and scores are printed. A number argument that may be \<open>null\<close>, \<open>undefined\<close> or
  NaN is a \<open>jsnum option\<close>. Parsing of date strings is the runtime's: the functions that use it
  take the parsed time as a parameter.
\<close>

section \<open>utils.ts\<close>

text \<open>\<open>x % m\<close> for a positive modulus: exact, with the sign of \<open>x\<close>.\<close>

definition rem_trunc :: "rat \<Rightarrow> rat \<Rightarrow> rat" where
  "rem_trunc x m = (if 0 \<le> x then x - of_int \<lfloor>x / m\<rfloor> * m else x - of_int \<lceil>x / m\<rceil> * m)"

fun num_mod :: "jsnum \<Rightarrow> rat \<Rightarrow> jsnum" where
  "num_mod (Fin x) m = Fin (rem_trunc x m)"
| "num_mod x m = NaN"

text \<open>\<open>seconds === null || seconds === undefined || Number.isNaN(seconds)\<close>\<close>

definition missing :: "jsnum option \<Rightarrow> bool" where
  "missing x = (x = None \<or> x = Some NaN)"

definition format_mission_time :: "jsnum option \<Rightarrow> string" where
  "format_mission_time seconds =
     (case seconds of
        None \<Rightarrow> ''T+--:--''
      | Some x \<Rightarrow>
          if x = NaN then ''T+--:--''
          else (let sign = (if num_less x (Fin 0) then ''-'' else ''+'');
                    total = num_floor (num_abs x);
                    minutes = num_floor (num_div total 60);
                    secs = num_mod total 60
                in ''T'' @ sign @ pad_start 2 (CHR ''0'') (num_str minutes)
                     @ '':'' @ pad_start 2 (CHR ''0'') (num_str secs)))"

text \<open>\<open>s.replace(/\.0$/, "")\<close>\<close>

definition strip_dot_zero :: "string \<Rightarrow> string" where
  "strip_dot_zero s = (if drop (length s - 2) s = ''.0'' then take (length s - 2) s else s)"

definition format_duration :: "jsnum option \<Rightarrow> string" where
  "format_duration seconds =
     (case seconds of
        None \<Rightarrow> ''n/a''
      | Some x \<Rightarrow>
          if x = NaN then ''n/a''
          else if num_less x (Fin 1) then num_str (num_round (num_mul x (Fin 1000))) @ ''ms''
          else if num_less x (Fin 60) then strip_dot_zero (num_fixed 1 x) @ ''s''
          else (let minutes = num_floor (num_div x 60);
                    rem = num_round (num_sub x (num_mul minutes (Fin 60)))
                in num_str minutes @ ''m'' @ pad_start 2 (CHR ''0'') (num_str rem) @ ''s''))"

definition format_percent :: "jsnum option \<Rightarrow> nat \<Rightarrow> string" where
  "format_percent ratio places =
     (case ratio of
        None \<Rightarrow> ''n/a''
      | Some x \<Rightarrow> if x = NaN then ''n/a''
                  else num_fixed places (num_mul x (Fin 100)) @ ''%'')"

definition format_number :: "jsnum option \<Rightarrow> nat \<Rightarrow> string" where
  "format_number value places =
     (case value of
        None \<Rightarrow> ''n/a''
      | Some x \<Rightarrow> if x = NaN then ''n/a'' else num_fixed places x)"

definition short_id :: "string \<Rightarrow> string" where
  "short_id i = take 8 i"

text \<open>\<open>s.replace("T", " ")\<close>: the first occurrence.\<close>

fun replace_first :: "char \<Rightarrow> char \<Rightarrow> string \<Rightarrow> string" where
  "replace_first a b [] = []"
| "replace_first a b (c # cs) = (if c = a then b # cs else c # replace_first a b cs)"

text \<open>
  \<open>to_iso\<close> is \<open>new Date(iso).toISOString()\<close>; \<open>None\<close> is the RangeError of an invalid date.
\<close>

definition format_date_time :: "(string \<Rightarrow> string option) \<Rightarrow> string option \<Rightarrow> string option" where
  "format_date_time to_iso text =
     (case text of
        None \<Rightarrow> Some ''n/a''
      | Some s \<Rightarrow>
          if s = [] then Some ''n/a''
          else map_option (\<lambda>d. take 19 (replace_first (CHR ''T'') (CHR '' '') d) @ '' UTC'') (to_iso s))"

text \<open>\<open>date_ms\<close> is \<open>new Date(iso).getTime()\<close>, \<open>now\<close> is \<open>Date.now()\<close>, both in milliseconds.\<close>

definition relative_time :: "(string \<Rightarrow> int) \<Rightarrow> int \<Rightarrow> string option \<Rightarrow> string" where
  "relative_time date_ms now text =
     (case text of
        None \<Rightarrow> ''n/a''
      | Some s \<Rightarrow>
          if s = [] then ''n/a''
          else (let delta = max 0 (now - date_ms s);
                    seconds = delta div 1000;
                    minutes = seconds div 60;
                    hours = minutes div 60
                in if seconds < 60 then dec seconds @ ''s ago''
                   else if minutes < 60 then dec minutes @ ''m ago''
                   else if hours < 48 then dec hours @ ''h ago''
                   else dec (hours div 24) @ ''d ago''))"

section \<open>format.ts\<close>

datatype metric_unit = U_percent | U_seconds | U_count | U_score | U_bool

datatype verdict = V_improvement | V_regression | V_unchanged | V_changed | V_not_comparable

datatype better = B_higher | B_lower | B_neutral

fun VERDICT_LABEL :: "verdict \<Rightarrow> string" where
  "VERDICT_LABEL V_improvement = ''IMPROVEMENT''"
| "VERDICT_LABEL V_regression = ''REGRESSION''"
| "VERDICT_LABEL V_unchanged = ''UNCHANGED''"
| "VERDICT_LABEL V_changed = ''CHANGED''"
| "VERDICT_LABEL V_not_comparable = ''NOT COMPARABLE''"

fun VERDICT_TONE :: "verdict \<Rightarrow> tone" where
  "VERDICT_TONE V_improvement = Ok"
| "VERDICT_TONE V_regression = Bad"
| "VERDICT_TONE V_unchanged = Dim"
| "VERDICT_TONE V_changed = Info"
| "VERDICT_TONE V_not_comparable = Dim"

definition verdict_tone :: "verdict \<Rightarrow> tone" where
  "verdict_tone v = VERDICT_TONE v"

definition is_integer :: "jsnum \<Rightarrow> bool" where
  "is_integer x = (case x of Fin r \<Rightarrow> r = of_int \<lfloor>r\<rfloor> | _ \<Rightarrow> False)"

definition seconds_digits :: "jsnum \<Rightarrow> nat" where
  "seconds_digits x = (if num_less x (Fin 10) then 2 else 1)"

text \<open>A boolean is handled before the unit; a number with unit \<open>bool\<close> shows its truthiness.\<close>

definition format_metric_value :: "metric_value \<Rightarrow> metric_unit \<Rightarrow> string" where
  "format_metric_value value unit =
     (case value of
        MV_null \<Rightarrow> ''n/a''
      | MV_bool b \<Rightarrow> if b then ''true'' else ''false''
      | MV_num x \<Rightarrow>
          if x = NaN then ''n/a''
          else (case unit of
                  U_percent \<Rightarrow> num_fixed 1 (num_mul x (Fin 100)) @ ''%''
                | U_seconds \<Rightarrow> num_fixed (seconds_digits x) x @ ''s''
                | U_count \<Rightarrow> if is_integer x then num_str x else num_fixed 1 x
                | U_score \<Rightarrow> num_fixed 1 x
                | U_bool \<Rightarrow> if x \<noteq> Fin 0 then ''true'' else ''false''))"

definition format_metric_delta :: "jsnum option \<Rightarrow> metric_unit \<Rightarrow> string" where
  "format_metric_delta delta unit =
     (case delta of
        None \<Rightarrow> ''n/a''
      | Some x \<Rightarrow>
          if x = NaN then ''n/a''
          else if unit = U_bool then (if x = Fin 0 then ''same'' else ''changed'')
          else (let sign = (if num_less (Fin 0) x then ''+''
                            else if num_less x (Fin 0) then ''-'' else []);
                    magnitude = num_abs x
                in case unit of
                     U_percent \<Rightarrow> sign @ num_fixed 1 (num_mul magnitude (Fin 100)) @ '' pp''
                   | U_seconds \<Rightarrow> sign @ num_fixed (seconds_digits magnitude) magnitude @ ''s''
                   | U_count \<Rightarrow> sign @ (if is_integer magnitude then num_str magnitude
                                        else num_fixed 1 magnitude)
                   | U_score \<Rightarrow> sign @ num_fixed 1 magnitude
                   | U_bool \<Rightarrow> sign @ num_str magnitude))"

fun BETTER_LABEL :: "better \<Rightarrow> string" where
  "BETTER_LABEL B_higher = ''higher is better''"
| "BETTER_LABEL B_lower = ''lower is better''"
| "BETTER_LABEL B_neutral = ''no preferred direction''"

definition format_score :: "jsnum option \<Rightarrow> string" where
  "format_score score =
     (case score of None \<Rightarrow> ''--'' | Some x \<Rightarrow> if x = NaN then ''--'' else num_fixed 1 x)"

definition format_bytes :: "int \<Rightarrow> string" where
  "format_bytes bytes =
     (if bytes < 1024 then rat_str (of_int bytes) @ '' B''
      else if bytes < 1024 * 1024 then to_fixed 1 (fl (of_int bytes / 1024)) @ '' KB''
      else to_fixed 1 (fl (of_int bytes / 1048576)) @ '' MB'')"

text \<open>\<open>Math.PI\<close>, the double nearest to pi.\<close>

definition MATH_PI :: rat where
  "MATH_PI = 884279719003555 / 281474976710656"

definition format_heading :: "jsnum option \<Rightarrow> string" where
  "format_heading yaw_angle =
     (case yaw_angle of
        None \<Rightarrow> ''n/a''
      | Some x \<Rightarrow>
          if x = NaN then ''n/a''
          else (let degrees = num_mod (num_add (num_div (num_mul x (Fin 180)) MATH_PI) (Fin 360)) 360
                in pad_start 3 (CHR ''0'') (num_fixed 0 degrees) @ ''deg''))"

definition format_metres :: "jsnum option \<Rightarrow> nat \<Rightarrow> string" where
  "format_metres value places =
     (case value of None \<Rightarrow> ''n/a'' | Some x \<Rightarrow> if x = NaN then ''n/a'' else num_fixed places x @ '' m'')"

definition format_speed :: "jsnum option \<Rightarrow> string" where
  "format_speed value =
     (case value of None \<Rightarrow> ''n/a'' | Some x \<Rightarrow> if x = NaN then ''n/a'' else num_fixed 1 x @ '' m/s'')"

end
