(* ===== verification/Events.thy ===== *)
theory Events
  imports States
begin

text \<open>
  apps/web/src/lib/events.ts: the class and tone of a run event, the metadata accessors, and
  the loud alerts of the mission view. An object used as a table with a default is an
  association list; \<open>names\<close> is a \<open>Map\<close> from component identifiers to names.
\<close>

datatype event_klass = C_injection | C_observed | C_response | C_verification | C_platform

fun CLASS_BY_KIND :: "event_kind \<Rightarrow> event_klass" where
  "CLASS_BY_KIND INJECTION_REQUEST = C_injection"
| "CLASS_BY_KIND INJECTION_APPLIED = C_injection"
| "CLASS_BY_KIND INJECTION_REJECTED = C_injection"
| "CLASS_BY_KIND INJECTION_CLEARED = C_injection"
| "CLASS_BY_KIND OBSERVED_EFFECT = C_observed"
| "CLASS_BY_KIND RECOVERY = C_observed"
| "CLASS_BY_KIND SYSTEM_RESPONSE = C_response"
| "CLASS_BY_KIND EXPECTATION_RESULT = C_verification"
| "CLASS_BY_KIND ASSERTION_RESULT = C_verification"
| "CLASS_BY_KIND MISSION = C_platform"
| "CLASS_BY_KIND LIFECYCLE = C_platform"
| "CLASS_BY_KIND LOG = C_platform"

record event_class_style =
  ec_label :: string
  ec_description :: string
  ec_rail :: string

abbreviation class_style :: "string \<Rightarrow> string \<Rightarrow> string \<Rightarrow> event_class_style" where
  "class_style l d r \<equiv> \<lparr>ec_label = l, ec_description = d, ec_rail = r\<rparr>"

fun EVENT_CLASS :: "event_klass \<Rightarrow> event_class_style" where
  "EVENT_CLASS C_injection =
     class_style ''Scenario'' ''Disturbance requested by the scenario'' ''border-l-info''"
| "EVENT_CLASS C_observed =
     class_style ''Observed'' ''State change measured in the target'' ''border-l-warn''"
| "EVENT_CLASS C_response =
     class_style ''Response'' ''Autonomous reaction of the target'' ''border-l-ok''"
| "EVENT_CLASS C_verification =
     class_style ''Check'' ''Declared expectation or assertion evaluated'' ''border-l-border-strong''"
| "EVENT_CLASS C_platform =
     class_style ''Platform'' ''Mission progress, lifecycle and logs'' ''border-l-border''"

definition event_class :: "run_event \<Rightarrow> event_klass" where
  "event_class e = CLASS_BY_KIND (ev_kind e)"

text \<open>\<open>event.metadata?.key\<close>\<close>

definition metadata_get :: "run_event \<Rightarrow> string \<Rightarrow> jsval" where
  "metadata_get e k = (case ev_metadata e of None \<Rightarrow> Undefined | Some ob \<Rightarrow> obj_get ob k)"

definition event_tone :: "run_event \<Rightarrow> tone" where
  "event_tone e =
     (case (ev_kind e, ev_state_after e) of
        (OBSERVED_EFFECT, Some s) \<Rightarrow> st_tone (COMPONENT_STATE s)
      | _ \<Rightarrow>
          if ev_kind e = EXPECTATION_RESULT \<or> ev_kind e = ASSERTION_RESULT
          then (if metadata_get e ''passed'' = Bool False then Bad else Ok)
          else st_tone (EVENT_KIND (ev_kind e)))"

definition is_state_change :: "run_event \<Rightarrow> bool" where
  "is_state_change e = (ev_state_after e \<noteq> None)"

definition is_safe_state_response :: "run_event \<Rightarrow> bool" where
  "is_safe_state_response e =
     (ev_kind e = SYSTEM_RESPONSE \<and> metadata_get e ''safe_state'' = Bool True)"

definition event_metadata_number :: "run_event \<Rightarrow> string \<Rightarrow> rat option" where
  "event_metadata_number e k =
     (case metadata_get e k of Num (Fin x) \<Rightarrow> Some x | _ \<Rightarrow> None)"

section \<open>Alerts\<close>

record active_alert =
  al_id :: string
  al_label :: string
  al_detail :: string
  al_tone :: tone

definition ALERT_LABELS :: "(string \<times> string) list" where
  "ALERT_LABELS =
     [(''navigation.gnss'', ''GNSS''), (''navigation.estimator'', ''NAV''),
      (''communications.c2'', ''C2 LINK''), (''communications.telemetry'', ''TELEMETRY''),
      (''mission.compute'', ''MISSION COMPUTE''), (''mission.planner'', ''MISSION PLANNER''),
      (''mission.services'', ''MISSION SERVICES''),
      (''network.companion_link'', ''COMPANION LINK''),
      (''security.gateway'', ''CMD GATEWAY''), (''flight_control.core'', ''FLIGHT CORE''),
      (''actuation.motors'', ''MOTORS''), (''sensors.imu'', ''IMU''),
      (''sensors.barometer'', ''BAROMETER''), (''sensors.magnetometer'', ''MAGNETOMETER''),
      (''power.battery'', ''BATTERY''), (''power.bus'', ''POWER BUS''),
      (''external.gcs'', ''GROUND STATION'')]"

fun STATE_WORD :: "component_state \<Rightarrow> string option" where
  "STATE_WORD DEGRADED = Some ''DEGRADED''"
| "STATE_WORD UNAVAILABLE = Some ''LOST''"
| "STATE_WORD FAILED = Some ''FAILED''"
| "STATE_WORD RECOVERING = Some ''RESTARTING''"
| "STATE_WORD UNKNOWN = Some ''UNKNOWN''"
| "STATE_WORD _ = None"

fun tone_order :: "tone \<Rightarrow> int" where
  "tone_order Bad = 0"
| "tone_order Warn = 1"
| "tone_order Info = 2"
| "tone_order Ok = 3"
| "tone_order Dim = 4"

definition health_alert :: "(string \<times> string) list \<Rightarrow> string \<times> component_state \<Rightarrow> active_alert" where
  "health_alert names = (\<lambda>(i, st).
     \<lparr>al_id = i,
      al_label = nullish (map_of ALERT_LABELS i) (to_upper (nullish (map_of names i) i))
                   @ '' '' @ nullish (STATE_WORD st) (component_state_str st),
      al_detail = nullish (map_of names i) i,
      al_tone = st_tone (COMPONENT_STATE st)\<rparr>)"

definition mode_alert :: "flight_status \<Rightarrow> active_alert" where
  "mode_alert f =
     \<lparr>al_id = ''flight-mode-'' @ flight_mode_str (fs_mode f),
      al_label = (if fs_mode f = FM_HOLD then ''FAILSAFE HOLD'' else ''RETURN TO LAUNCH''),
      al_detail = ''Autonomy: '' @ fs_autonomy f,
      al_tone = Warn\<rparr>"

definition authority_alert :: active_alert where
  "authority_alert =
     \<lparr>al_id = ''control-authority'',
      al_label = ''CONTROL AUTHORITY LOST'',
      al_detail = ''The flight core no longer has full control of the vehicle'',
      al_tone = Bad\<rparr>"

definition active_alerts ::
  "telemetry_sample option \<Rightarrow> (string \<times> string) list \<Rightarrow> active_alert list" where
  "active_alerts sample names =
     (case sample of
        None \<Rightarrow> []
      | Some s \<Rightarrow>
          (case ts_health s of
             None \<Rightarrow> []
           | Some health \<Rightarrow>
               js_sort (by_key (\<lambda>a. tone_order (al_tone a)))
                 (map (health_alert names) (filter (\<lambda>(i, st). \<not> is_healthy (Some st)) health)
                  @ (if fs_mode (ts_flight s) = FM_HOLD \<or> fs_mode (ts_flight s) = FM_RTL
                     then [mode_alert (ts_flight s)] else [])
                  @ (if \<not> fs_control_authority (ts_flight s) then [authority_alert] else []))))"

text \<open>Tones in the order of the alerts, loudest first.\<close>

lemma tone_order_inj: "tone_order a = tone_order b \<Longrightarrow> a = b"
  by (cases a; cases b) simp_all

instantiation tone :: linorder
begin

definition less_eq_tone :: "tone \<Rightarrow> tone \<Rightarrow> bool" where
  "less_eq_tone a b = (tone_order a \<le> tone_order b)"

definition less_tone :: "tone \<Rightarrow> tone \<Rightarrow> bool" where
  "less_tone a b = (tone_order a < tone_order b)"

instance
  by standard (auto simp: less_eq_tone_def less_tone_def tone_order_inj)

end

section \<open>Properties\<close>

lemma event_tone_observed:
  "ev_kind e = OBSERVED_EFFECT \<Longrightarrow> ev_state_after e = Some s
     \<Longrightarrow> event_tone e = st_tone (COMPONENT_STATE s)"
  by (simp add: event_tone_def)

lemma event_tone_check:
  "ev_kind e = EXPECTATION_RESULT \<or> ev_kind e = ASSERTION_RESULT
     \<Longrightarrow> event_tone e = (if metadata_get e ''passed'' = Bool False then Bad else Ok)"
  by (auto simp: event_tone_def)

lemma sorted_active_alerts: "sorted (map al_tone (active_alerts sample names))"
proof -
  have "sorted (map al_tone (js_sort (by_key (\<lambda>a. tone_order (al_tone a))) xs))"
    for xs :: "active_alert list"
    using by_key.sorted_js_sort [of "\<lambda>a. tone_order (al_tone a)" xs]
    by (simp add: sorted_wrt_map less_eq_tone_def)
  then show ?thesis
    by (auto simp: active_alerts_def split: option.splits)
qed

lemma set_active_alerts:
  "ts_health s = Some health \<Longrightarrow>
     set (active_alerts (Some s) names) =
       health_alert names ` {(i, st) \<in> set health. \<not> is_healthy (Some st)}
       \<union> (if fs_mode (ts_flight s) \<in> {FM_HOLD, FM_RTL} then {mode_alert (ts_flight s)} else {})
       \<union> (if fs_control_authority (ts_flight s) then {} else {authority_alert})"
  by (auto simp: active_alerts_def)


definition sample_example :: telemetry_sample where
  "sample_example =
     \<lparr>ts_t = 31, ts_position = \<lparr>px = 10, py = 2, pz = 30\<rparr>, ts_velocity = \<lparr>vx = 5, vy = 0, vz = 0\<rparr>,
      ts_attitude = \<lparr>pitch = 0, roll = 0, yaw = 1\<rparr>,
      ts_flight = \<lparr>fs_armed = True, fs_autonomy = ''mission'', fs_control_authority = True,
                   fs_mode = FM_HOLD\<rparr>,
      ts_mission = \<lparr>ms_phase = MP_ENROUTE, ms_progress = 1 / 4, ms_waypoint_index = 1,
                    ms_waypoints_total = 4, ms_distance_to_waypoint = Some 60\<rparr>,
      ts_navigation = \<lparr>ns_gnss_fix = False, ns_position_error = 2, ns_satellites = None,
                       ns_source = ''dead_reckoning''\<rparr>,
      ts_communications = \<lparr>cs_c2_link = True, cs_telemetry_link = True, cs_latency_ms = None,
                           cs_packet_loss = None\<rparr>,
      ts_power = \<lparr>pw_remaining = 3 / 4, pw_voltage = 15, pw_current = None\<rparr>,
      ts_health = Some [(''flight_control.core'', OPERATIONAL), (''navigation.gnss'', UNAVAILABLE),
                        (''navigation.estimator'', DEGRADED)],
      ts_source = ''mock'', ts_wall_time = None\<rparr>"


end
