(* ===== verification/Topology.thy ===== *)
theory Topology
  imports States
begin

text \<open>
  apps/web/src/lib/topology.ts: lookup maps over the system topology, the grouping of its
  components by domain and the command path of the blast-radius view. \<open>undefined\<close> (topology
  not loaded) is \<open>None\<close>.
\<close>

definition components_of :: "topology option \<Rightarrow> component list" where
  "components_of tp = (case tp of None \<Rightarrow> [] | Some t \<Rightarrow> tp_components t)"

definition component_name_map :: "topology option \<Rightarrow> (string \<times> string) list" where
  "component_name_map tp =
     foldl (\<lambda>m c. AList.update (co_id c) (co_name c) m) [] (components_of tp)"

definition component_map :: "topology option \<Rightarrow> (string \<times> component) list" where
  "component_map tp = map_set_all co_id [] (components_of tp)"

record domain_group =
  dg_domain :: domain
  dg_components :: "component list"

definition add_to_group ::
  "(domain \<times> component list) list \<Rightarrow> component \<Rightarrow> (domain \<times> component list) list" where
  "add_to_group groups c =
     (case map_of groups (co_domain c) of
        Some cs \<Rightarrow> AList.update (co_domain c) (cs @ [c]) groups
      | None \<Rightarrow> AList.update (co_domain c) [c] groups)"

definition group_by_domain :: "topology option \<Rightarrow> domain_group list" where
  "group_by_domain tp =
     (let groups = foldl add_to_group [] (components_of tp)
      in map (\<lambda>d. \<lparr>dg_domain = d, dg_components = nullish (map_of groups d) []\<rparr>)
           (filter (\<lambda>d. map_of groups d \<noteq> None) DOMAIN_ORDER))"

definition PROPAGATION_CHAIN :: "string list" where
  "PROPAGATION_CHAIN =
     [''external.gcs'', ''communications.c2'', ''communications.telemetry'', ''mission.compute'',
      ''mission.planner'', ''network.companion_link'', ''security.gateway'',
      ''flight_control.core'', ''actuation.motors'']"

definition mission_flight_boundary :: "topology option \<Rightarrow> trust_boundary option" where
  "mission_flight_boundary tp =
     (case tp of None \<Rightarrow> None
      | Some t \<Rightarrow> find (\<lambda>b. tb_id b = ''mission-flight'') (tp_trust_boundaries t))"

definition is_flight_critical_zone :: "component option \<Rightarrow> bool" where
  "is_flight_critical_zone c =
     (case c of None \<Rightarrow> False | Some x \<Rightarrow> co_trust_zone x = TZ_flight_critical)"

section \<open>Properties\<close>

lemma map_of_groups:
  "map_of (foldl add_to_group [] cs) d =
     (let ds = filter (\<lambda>c. co_domain c = d) cs in if ds = [] then None else Some ds)"
proof (induction cs rule: rev_induct)
  case Nil
  then show ?case by simp
next
  case (snoc c cs)
  have "map_of (add_to_group g c) d =
      (if d = co_domain c then Some (nullish (map_of g d) [] @ [c]) else map_of g d)" for g
    by (auto simp: add_to_group_def AList.update_conv' split: option.splits)
  then show ?case using snoc by (auto simp: Let_def)
qed

lemma mset_filter_groups:
  "distinct ds \<Longrightarrow> mset (concat (map (\<lambda>d. filter (\<lambda>c. f c = d) cs) ds)) = mset (filter (\<lambda>c. f c \<in> set ds) cs)"
proof (induction ds)
  case (Cons d ds)
  have "mset (filter (\<lambda>c. f c \<in> set (d # ds)) cs)
      = mset (filter (\<lambda>c. f c = d) cs) + mset (filter (\<lambda>c. f c \<in> set ds) cs)"
    using Cons.prems by (induction cs) auto
  with Cons show ?case by simp
qed simp

lemma sorted_filter_groups:
  fixes f :: "'a \<Rightarrow> 'b :: linorder"
  shows "sorted_wrt (<) ds \<Longrightarrow> sorted (map f (concat (map (\<lambda>d. filter (\<lambda>c. f c = d) cs) ds)))"
proof (induction ds)
  case (Cons d ds)
  have "map f (filter (\<lambda>c. f c = d) cs) = replicate (length (filter (\<lambda>c. f c = d) cs)) d"
    by (rule replicate_eqI) auto
  then have "sorted (map f (filter (\<lambda>c. f c = d) cs))" by (simp only: sorted_replicate)
  moreover have "\<forall>y \<in> set (concat (map (\<lambda>d. filter (\<lambda>c. f c = d) cs) ds)). d \<le> f y"
    using Cons.prems by (auto simp: less_imp_le)
  ultimately show ?case using Cons by (simp add: sorted_append)
qed simp

text \<open>
  Grouping partitions the components: there is one group per domain that has a component,
  the groups stand in the display order, and a group lists exactly the components of its domain
  in topology order. Laid end to end the groups are the components stably sorted by domain.
\<close>

theorem group_by_domain_partition:
  "group_by_domain tp =
     map (\<lambda>d. \<lparr>dg_domain = d, dg_components = filter (\<lambda>c. co_domain c = d) (components_of tp)\<rparr>)
       (filter (\<lambda>d. d \<in> co_domain ` set (components_of tp)) DOMAIN_ORDER)
   \<and> mset (concat (map dg_components (group_by_domain tp))) = mset (components_of tp)
   \<and> sorted (map co_domain (concat (map dg_components (group_by_domain tp))))"
proof -
  let ?cs = "components_of tp"
  let ?g = "\<lambda>d. filter (\<lambda>c. co_domain c = d) ?cs"
  have ne: "map_of (foldl add_to_group [] ?cs) d \<noteq> None \<longleftrightarrow> d \<in> co_domain ` set ?cs" for d
    by (auto simp: map_of_groups Let_def filter_empty_conv)
  have eq: "group_by_domain tp = map (\<lambda>d. \<lparr>dg_domain = d, dg_components = ?g d\<rparr>)
       (filter (\<lambda>d. d \<in> co_domain ` set ?cs) DOMAIN_ORDER)"
    unfolding group_by_domain_def Let_def ne
    by (intro map_cong refl) (auto simp: map_of_groups Let_def filter_empty_conv)
  let ?ds = "filter (\<lambda>d. d \<in> co_domain ` set ?cs) DOMAIN_ORDER"
  have "mset (concat (map ?g ?ds)) = mset (filter (\<lambda>c. co_domain c \<in> set ?ds) ?cs)"
    by (rule mset_filter_groups) simp
  also have "filter (\<lambda>c. co_domain c \<in> set ?ds) ?cs = ?cs" by (intro filter_True) auto
  finally have "mset (concat (map ?g ?ds)) = mset ?cs" .
  moreover have "sorted (map co_domain (concat (map ?g ?ds)))"
    by (intro sorted_filter_groups sorted_wrt_filter sorted_DOMAIN_ORDER)
  ultimately show ?thesis by (simp add: eq comp_def)
qed

lemma component_map_lookup:
  "map_of (component_map tp) i = find (\<lambda>c. co_id c = i) (rev (components_of tp))"
  by (simp add: component_map_def map_of_map_set_all split: option.split)

lemma component_map_id:
  assumes "map_of (component_map tp) i = Some c"
  shows "co_id c = i \<and> c \<in> set (components_of tp)"
proof -
  from assms obtain n where "n < length (components_of tp)"
      "co_id (rev (components_of tp) ! n) = i" "c = rev (components_of tp) ! n"
    by (auto simp: component_map_lookup find_Some_iff)
  then show ?thesis
    using nth_mem [of n "rev (components_of tp)"] by simp
qed

end
