(* ===== verification/RunView.thy ===== *)
theory RunView
  imports Events Topology
begin

text \<open>
  apps/web/src/lib/run-view.ts: the views derived from observed events and telemetry: state
  timelines, live mission, recovery and containment figures, current health, and the prefix of
  a recording up to a time. \<open>components\<close> is a \<open>Map\<close> from identifiers to components.
\<close>

type_synonym component_lookup = "(string \<times> component) list"

section \<open>State timelines\<close>

record state_segment =
  sg_state :: component_state
  sg_from :: rat
  sg_to :: rat

record subsystem_track =
  tr_subsystem :: string
  tr_name :: string
  tr_domain :: domain
  tr_critical :: bool
  tr_segments :: "state_segment list"
  tr_worst :: component_state

fun SEVERITY_RANK :: "component_state \<Rightarrow> int" where
  "SEVERITY_RANK FAILED = 5"
| "SEVERITY_RANK UNAVAILABLE = 4"
| "SEVERITY_RANK RECOVERING = 3"
| "SEVERITY_RANK DEGRADED = 2"
| "SEVERITY_RANK RECOVERED = 1"
| "SEVERITY_RANK NOMINAL = 0"
| "SEVERITY_RANK OPERATIONAL = 0"
| "SEVERITY_RANK UNKNOWN = 0"

type_synonym change = "rat \<times> component_state"

text \<open>The subsystem and the change of an event that reports one.\<close>

definition event_change :: "run_event \<Rightarrow> (string \<times> change) option" where
  "event_change e =
     (case (ev_subsystem e, ev_state_after e) of
        (Some i, Some st) \<Rightarrow> if i = [] then None else Some (i, (ev_simulation_time e, st))
      | _ \<Rightarrow> None)"

definition add_transition ::
  "(string \<times> change list) list \<Rightarrow> run_event \<Rightarrow> (string \<times> change list) list" where
  "add_transition m e =
     (case event_change e of
        None \<Rightarrow> m
      | Some (i, ch) \<Rightarrow>
          (case map_of m i of
             Some chs \<Rightarrow> AList.update i (chs @ [ch]) m
           | None \<Rightarrow> AList.update i [ch] m))"

definition add_always ::
  "component_lookup \<Rightarrow> (string \<times> change list) list \<Rightarrow> string \<Rightarrow> (string \<times> change list) list" where
  "add_always components m i =
     (if map_of m i = None \<and> map_of components i \<noteq> None then AList.update i [] m else m)"

definition transitions ::
  "run_event list \<Rightarrow> component_lookup \<Rightarrow> string list \<Rightarrow> (string \<times> change list) list" where
  "transitions events components always =
     foldl (add_always components) (foldl add_transition [] events) always"

text \<open>The variables of the loop over the changes of one subsystem.\<close>

record walk =
  wk_segments :: "state_segment list"
  wk_current :: component_state
  wk_from :: rat
  wk_worst :: component_state

definition walk_step :: "rat \<Rightarrow> walk \<Rightarrow> change \<Rightarrow> walk" where
  "walk_step end_time w ch =
     (let pos = min (max (fst ch) 0) end_time in
      if snd ch = wk_current w then w
      else w\<lparr>wk_segments := (if pos > wk_from w
               then wk_segments w @ [\<lparr>sg_state = wk_current w, sg_from = wk_from w, sg_to = pos\<rparr>]
               else wk_segments w),
             wk_current := snd ch,
             wk_from := pos,
             wk_worst := (if SEVERITY_RANK (snd ch) > SEVERITY_RANK (wk_worst w) then snd ch
                          else wk_worst w)\<rparr>)"

definition walk_start :: "component_state \<Rightarrow> walk" where
  "walk_start st = \<lparr>wk_segments = [], wk_current = st, wk_from = 0, wk_worst = st\<rparr>"

definition walk_changes :: "rat \<Rightarrow> component_state \<Rightarrow> change list \<Rightarrow> walk" where
  "walk_changes end_time initial changes = foldl (walk_step end_time) (walk_start initial) changes"

definition close_walk :: "rat \<Rightarrow> walk \<Rightarrow> state_segment list" where
  "close_walk end_time w =
     wk_segments w @ [\<lparr>sg_state = wk_current w, sg_from = wk_from w, sg_to = end_time\<rparr>]"

definition track_of :: "component_lookup \<Rightarrow> rat \<Rightarrow> string \<times> change list \<Rightarrow> subsystem_track" where
  "track_of components end_time = (\<lambda>(i, changes).
     let component = map_of components i;
         initial = (case component of None \<Rightarrow> NOMINAL | Some c \<Rightarrow> co_healthy_state c);
         w = walk_changes end_time initial changes
     in \<lparr>tr_subsystem = i,
         tr_name = (case component of None \<Rightarrow> i | Some c \<Rightarrow> co_name c),
         tr_domain = (case component of None \<Rightarrow> Mission_compute | Some c \<Rightarrow> co_domain c),
         tr_critical = (case component of None \<Rightarrow> False | Some c \<Rightarrow> co_critical c),
         tr_segments = close_walk end_time w,
         tr_worst = wk_worst w\<rparr>)"

text \<open>\<open>order.get(a.domain) ?? 99\<close>: every domain is in \<open>DOMAIN_ORDER\<close>, so the default never applies.\<close>

definition domain_order :: "domain \<Rightarrow> int" where
  "domain_order d = int (length (takeWhile (\<lambda>x. x \<noteq> d) DOMAIN_ORDER))"

definition track_cmp ::
  "(string \<Rightarrow> string \<Rightarrow> int) \<Rightarrow> subsystem_track \<Rightarrow> subsystem_track \<Rightarrow> int" where
  "track_cmp collate a b =
     (let domain_delta = domain_order (tr_domain a) - domain_order (tr_domain b)
      in if domain_delta \<noteq> 0 then domain_delta else collate (tr_name a) (tr_name b))"

definition DEFAULT_ALWAYS :: "string list" where
  "DEFAULT_ALWAYS = [''flight_control.core'']"

definition build_timeline ::
  "(string \<Rightarrow> string \<Rightarrow> int) \<Rightarrow> run_event list \<Rightarrow> component_lookup \<Rightarrow> rat \<Rightarrow> string list
     \<Rightarrow> subsystem_track list" where
  "build_timeline collate events components end_time always =
     js_sort (track_cmp collate)
       (map (track_of components (max end_time (fl (1 / 1000))))
            (transitions events components always))"

record injection_marker =
  im_t :: rat
  im_label :: string
  im_subsystem :: "string option"

definition injection_markers :: "run_event list \<Rightarrow> injection_marker list" where
  "injection_markers events =
     map (\<lambda>e. \<lparr>im_t = ev_simulation_time e,
               im_label = nullish (ev_scenario_event_id e) (nullish (ev_subsystem e) ''injection''),
               im_subsystem = ev_subsystem e\<rparr>)
       (filter (\<lambda>e. ev_kind e = INJECTION_APPLIED) events)"

section \<open>Live figures\<close>

record mission_kpis =
  lm_progress :: rat
  lm_phase :: string
  lm_flight_mode :: string
  lm_autonomy :: string
  lm_safety_preserved :: bool
  lm_control_authority :: bool
  lm_observed :: bool

record recovery_kpis =
  lr_faults_observed :: int
  lr_recovered :: int
  lr_mean_time_to_recovery :: "rat option"
  lr_time_to_safe_state :: "rat option"
  lr_safe_state_entered :: bool

record containment_kpis =
  lc_injected :: "string list"
  lc_affected :: "string list"
  lc_propagated :: "string list"
  lc_affected_domains :: "domain list"
  lc_flight_domain_affected :: bool
  lc_contained :: bool

definition flight_core_down :: "run_event list \<Rightarrow> bool" where
  "flight_core_down events =
     list_ex (\<lambda>e. ev_kind e = OBSERVED_EFFECT \<and> ev_subsystem e = Some ''flight_control.core''
                 \<and> ev_state_after e \<noteq> None \<and> \<not> is_healthy (ev_state_after e)) events"

definition live_mission_kpis :: "telemetry_sample option \<Rightarrow> run_event list \<Rightarrow> mission_kpis" where
  "live_mission_kpis sample events =
     (let authority = (case sample of None \<Rightarrow> True | Some s \<Rightarrow> fs_control_authority (ts_flight s))
      in \<lparr>lm_progress = (case sample of None \<Rightarrow> 0 | Some s \<Rightarrow> ms_progress (ts_mission s)),
          lm_phase = (case sample of None \<Rightarrow> ''PENDING''
                      | Some s \<Rightarrow> mission_phase_str (ms_phase (ts_mission s))),
          lm_flight_mode = (case sample of None \<Rightarrow> ''UNKNOWN''
                            | Some s \<Rightarrow> flight_mode_str (fs_mode (ts_flight s))),
          lm_autonomy = (case sample of None \<Rightarrow> ''mission'' | Some s \<Rightarrow> fs_autonomy (ts_flight s)),
          lm_safety_preserved = (authority \<and> \<not> flight_core_down events),
          lm_control_authority = authority,
          lm_observed = (sample \<noteq> None \<or> events \<noteq> [])\<rparr>)"

definition is_fault :: "run_event \<Rightarrow> bool" where
  "is_fault e = (ev_kind e = OBSERVED_EFFECT \<and> truthy (ev_subsystem e)
                  \<and> ev_state_after e \<noteq> None \<and> \<not> is_healthy (ev_state_after e)
                  \<and> ev_state_after e \<noteq> Some UNKNOWN)"

definition fault_key :: "run_event \<Rightarrow> string" where
  "fault_key e = nullish (ev_subsystem e) [] @ ''@'' @ rat_str (ev_simulation_time e)"

definition is_recovery :: "run_event \<Rightarrow> bool" where
  "is_recovery e = (ev_kind e = RECOVERY
                     \<and> \<not> (ev_state_before e = None \<or> is_healthy (ev_state_before e)
                          \<or> ev_state_before e = Some UNKNOWN))"

definition fault_durations :: "run_event list \<Rightarrow> rat list" where
  "fault_durations events =
     List.map_filter (\<lambda>e. event_metadata_number e ''fault_duration'') (filter is_recovery events)"

text \<open>\<open>durations.reduce((sum, value) => sum + value, 0)\<close> in doubles.\<close>

definition sum_fl :: "rat list \<Rightarrow> rat" where
  "sum_fl xs = foldl (\<lambda>s x. fl (s + x)) 0 xs"

definition round_to :: "rat \<Rightarrow> rat \<Rightarrow> rat" where
  "round_to unit x = fl (of_int (math_round (fl (x * unit))) / unit)"

definition faults_before :: "run_event list \<Rightarrow> rat \<Rightarrow> rat list" where
  "faults_before events t =
     map ev_simulation_time
       (filter (\<lambda>e. ev_kind e = OBSERVED_EFFECT \<and> ev_state_after e \<noteq> None
                   \<and> \<not> is_healthy (ev_state_after e) \<and> ev_simulation_time e \<le> t) events)"

definition time_to_safe_state :: "run_event list \<Rightarrow> rat option" where
  "time_to_safe_state events =
     (case find is_safe_state_response events of
        None \<Rightarrow> None
      | Some safe \<Rightarrow>
          (case at_last (faults_before events (ev_simulation_time safe)) of
             None \<Rightarrow> None
           | Some t \<Rightarrow> Some (round_to 1000 (fl (ev_simulation_time safe - t)))))"

definition live_recovery_kpis :: "run_event list \<Rightarrow> recovery_kpis" where
  "live_recovery_kpis events =
     (let durations = fault_durations events
      in \<lparr>lr_faults_observed = int (length (set_of_list (map fault_key (filter is_fault events)))),
          lr_recovered = int (length (filter is_recovery events)),
          lr_mean_time_to_recovery =
            (if durations \<noteq> []
             then Some (round_to 100 (fl (sum_fl durations / of_nat (length durations)))) else None),
          lr_time_to_safe_state = time_to_safe_state events,
          lr_safe_state_entered = (find is_safe_state_response events \<noteq> None)\<rparr>)"

definition CRITICAL_DOMAIN_SET :: "domain list" where
  "CRITICAL_DOMAIN_SET = [Flight_control, Actuation]"

definition injected_set :: "run_event list \<Rightarrow> string list" where
  "injected_set events =
     set_of_list (List.map_filter ev_subsystem
       (filter (\<lambda>e. ev_kind e = INJECTION_APPLIED \<and> truthy (ev_subsystem e)) events))"

definition affected_set :: "run_event list \<Rightarrow> string list" where
  "affected_set events =
     set_of_list (List.map_filter ev_subsystem
       (filter (\<lambda>e. ev_kind e = OBSERVED_EFFECT \<and> truthy (ev_subsystem e)
                   \<and> ev_state_after e \<noteq> None \<and> \<not> is_healthy (ev_state_after e)) events))"

definition affected_domain_set :: "string list \<Rightarrow> component_lookup \<Rightarrow> domain list" where
  "affected_domain_set affected components =
     set_of_list (List.map_filter (\<lambda>i. map_option co_domain (map_of components i)) affected)"

definition live_containment_kpis ::
  "run_event list \<Rightarrow> component_lookup \<Rightarrow> containment_kpis" where
  "live_containment_kpis events components =
     (let injected = injected_set events;
          affected = affected_set events;
          domains = affected_domain_set affected components;
          flight = list_ex (\<lambda>d. d \<in> set CRITICAL_DOMAIN_SET) domains
      in \<lparr>lc_injected = sort_strings injected,
          lc_affected = sort_strings affected,
          lc_propagated = sort_strings (filter (\<lambda>i. i \<notin> set injected) affected),
          lc_affected_domains = filter (\<lambda>d. d \<in> set domains) DOMAIN_ORDER,
          lc_flight_domain_affected = flight,
          lc_contained = (\<not> flight)\<rparr>)"

section \<open>Health and replay\<close>

definition current_health ::
  "telemetry_sample option \<Rightarrow> run_event list \<Rightarrow> (string \<times> component_state) list" where
  "current_health sample events =
     (let reported = (case sample of None \<Rightarrow> [] | Some s \<Rightarrow> nullish (ts_health s) []);
          health = foldl (\<lambda>m (i, st). AList.update i st m) [] reported
      in if health = []
         then foldl (\<lambda>m e. case event_change e of None \<Rightarrow> m | Some (i, _, st) \<Rightarrow> AList.update i st m)
                health events
         else health)"

text \<open>
  The binary search of \<open>samplesUpTo\<close>. Array indices stay below 2^32, but \<open>>> 1\<close> works on the
  sum as a signed 32-bit integer.
\<close>

definition to_int32 :: "int \<Rightarrow> int" where
  "to_int32 x = (let y = x mod 2 ^ 32 in if y < 2 ^ 31 then y else y - 2 ^ 32)"

definition mid_point :: "int \<Rightarrow> int \<Rightarrow> int" where
  "mid_point low high = to_int32 (low + high) div 2"

text \<open>\<open>samples[mid]\<close>: \<open>undefined\<close> outside the array.\<close>

definition sample_at :: "telemetry_sample list \<Rightarrow> int \<Rightarrow> telemetry_sample option" where
  "sample_at samples i = (if 0 \<le> i \<and> i < int (length samples) then Some (samples ! nat i) else None)"

text \<open>One round of the loop; the fuel bounds the rounds, \<open>None\<close> when it runs out.\<close>

fun search_up_to :: "nat \<Rightarrow> telemetry_sample list \<Rightarrow> rat \<Rightarrow> int \<Rightarrow> int \<Rightarrow> int option" where
  "search_up_to 0 samples t low high = (if low < high then None else Some low)"
| "search_up_to (Suc n) samples t low high =
     (if low < high then
        (let mid = mid_point low high in
         case sample_at samples mid of
           Some s \<Rightarrow> if ts_t s \<le> t then search_up_to n samples t (mid + 1) high
                      else search_up_to n samples t low mid
         | None \<Rightarrow> search_up_to n samples t low mid)
      else Some low)"

definition samples_up_to :: "telemetry_sample list \<Rightarrow> rat \<Rightarrow> telemetry_sample list option" where
  "samples_up_to samples t =
     map_option (\<lambda>low. take (nat low) samples)
       (search_up_to (length samples) samples t 0 (int (length samples)))"

definition events_up_to :: "run_event list \<Rightarrow> rat \<Rightarrow> run_event list" where
  "events_up_to events t = filter (\<lambda>e. ev_simulation_time e \<le> t) events"

section \<open>State timelines: what the segments show\<close>

definition clamp :: "rat \<Rightarrow> rat \<Rightarrow> rat" where
  "clamp end_time t = min (max t 0) end_time"

definition changes_of :: "string \<Rightarrow> run_event list \<Rightarrow> change list" where
  "changes_of i events =
     List.map_filter (\<lambda>e. case event_change e of None \<Rightarrow> None
                          | Some (j, ch) \<Rightarrow> if j = i then Some ch else None) events"

text \<open>The state after the changes up to \<open>t\<close>.\<close>

definition state_at :: "rat \<Rightarrow> component_state \<Rightarrow> change list \<Rightarrow> rat \<Rightarrow> component_state" where
  "state_at end_time initial chs t =
     foldl (\<lambda>st ch. if clamp end_time (fst ch) \<le> t then snd ch else st) initial chs"

text \<open>Segments that cover \<open>[a, b]\<close> without gap or overlap; only the last may be empty.\<close>

fun tiles :: "rat \<Rightarrow> state_segment list \<Rightarrow> rat \<Rightarrow> bool" where
  "tiles a [] b = (a = b)"
| "tiles a (s # ss) b = (sg_from s = a \<and> a \<le> sg_to s \<and> tiles (sg_to s) ss b)"

lemma tiles_append: "tiles a (xs @ ys) b \<longleftrightarrow> (\<exists>c. tiles a xs c \<and> tiles c ys b)"
  by (induction xs arbitrary: a) auto

lemma tiles_covers:
  "tiles a ss b \<Longrightarrow> a \<le> t \<Longrightarrow> t < b \<Longrightarrow> \<exists>s \<in> set ss. sg_from s \<le> t \<and> t < sg_to s"
proof (induction ss arbitrary: a)
  case Nil
  then show ?case by simp
next
  case (Cons s ss)
  then show ?case by (cases "t < sg_to s") auto
qed

lemma tiles_le: "tiles a ss b \<Longrightarrow> a \<le> b"
  by (induction ss arbitrary: a) force+

lemma tiles_bounds: "tiles a ss b \<Longrightarrow> s \<in> set ss \<Longrightarrow> sg_to s \<le> b"
  by (induction ss arbitrary: a) (auto dest: tiles_le)

lemma event_change_Some:
  "event_change e = Some (i, ch) \<longleftrightarrow>
     i \<noteq> [] \<and> ev_subsystem e = Some i \<and> ev_state_after e = Some (snd ch)
     \<and> fst ch = ev_simulation_time e"
  by (cases ch) (auto simp: event_change_def split: option.splits)

lemma changes_of_snoc:
  "changes_of i (es @ [e]) =
     changes_of i es @ (case event_change e of None \<Rightarrow> []
                        | Some (j, ch) \<Rightarrow> if j = i then [ch] else [])"
  by (simp add: changes_of_def map_filter_simps List.map_filter_def split: option.split)

lemma changes_of_Nil [simp]: "changes_of i [] = []"
  by (simp add: changes_of_def List.map_filter_def)

lemma map_of_add_transition:
  "map_of (add_transition m e) i =
     (case event_change e of None \<Rightarrow> map_of m i
      | Some (j, ch) \<Rightarrow> if j = i then Some (nullish (map_of m i) [] @ [ch]) else map_of m i)"
  by (auto simp: add_transition_def AList.update_conv' nullish_def split: option.split)

lemma map_of_add_transitions:
  "map_of (foldl add_transition [] es) i = (if changes_of i es = [] then None else Some (changes_of i es))"
proof (induction es rule: rev_induct)
  case Nil
  show ?case by simp
next
  case (snoc e es)
  show ?case
  proof (cases "event_change e")
    case None
    with snoc show ?thesis by (simp add: map_of_add_transition changes_of_snoc)
  next
    case (Some p)
    obtain j ch where p: "p = (j, ch)" by (cases p)
    show ?thesis
      by (simp add: map_of_add_transition snoc changes_of_snoc Some p nullish_def)
  qed
qed

lemma distinct_add_transitions: "distinct (map fst (foldl add_transition [] es))"
proof (induction es rule: rev_induct)
  case Nil
  show ?case by simp
next
  case (snoc e es)
  then show ?case
    by (auto simp: add_transition_def AList.distinct_update split: option.split)
qed

lemma add_always_keeps:
  assumes "distinct (map fst m)"
  shows "distinct (map fst (foldl (add_always components) m always))"
    and "map_of (foldl (add_always components) m always) i =
           (if map_of m i = None \<and> i \<in> set always \<and> map_of components i \<noteq> None then Some []
            else map_of m i)"
proof -
  show "distinct (map fst (foldl (add_always components) m always))"
    using assms
    by (induction always arbitrary: m) (auto simp: add_always_def AList.distinct_update)
  show "map_of (foldl (add_always components) m always) i =
           (if map_of m i = None \<and> i \<in> set always \<and> map_of components i \<noteq> None then Some []
            else map_of m i)"
  proof (induction always arbitrary: m)
    case Nil
    show ?case by simp
  next
    case (Cons a as)
    have "map_of (add_always components m a) i =
        (if map_of m i = None \<and> i = a \<and> map_of components i \<noteq> None then Some [] else map_of m i)"
      by (auto simp: add_always_def AList.update_conv')
    then show ?case using Cons [of "add_always components m a"] by auto
  qed
qed

lemma distinct_transitions: "distinct (map fst (transitions events components always))"
  by (simp add: transitions_def add_always_keeps distinct_add_transitions)

lemma map_of_transitions:
  "map_of (transitions events components always) i =
     (if changes_of i events \<noteq> [] then Some (changes_of i events)
      else if i \<in> set always \<and> map_of components i \<noteq> None then Some [] else None)"
  by (auto simp: transitions_def add_always_keeps distinct_add_transitions map_of_add_transitions)

lemma transitions_member:
  assumes "(i, chs) \<in> set (transitions events components always)"
  shows "chs = changes_of i events"
proof -
  have "map_of (transitions events components always) i = Some chs"
    using assms distinct_transitions by simp
  then show ?thesis by (auto simp: map_of_transitions split: if_splits)
qed

text \<open>The invariant of the loop over the changes of a subsystem.\<close>

definition walk_inv :: "rat \<Rightarrow> component_state \<Rightarrow> change list \<Rightarrow> walk \<Rightarrow> bool" where
  "walk_inv end_time initial chs w \<longleftrightarrow>
     tiles 0 (wk_segments w) (wk_from w)
     \<and> wk_from w \<le> end_time
     \<and> (wk_from w = 0 \<or> (\<exists>ch \<in> set chs. wk_from w = clamp end_time (fst ch)))
     \<and> (\<forall>sg \<in> set (wk_segments w). \<forall>t. sg_from sg \<le> t \<and> t < sg_to sg
           \<longrightarrow> sg_state sg = state_at end_time initial chs t)
     \<and> (\<forall>t \<ge> wk_from w. state_at end_time initial chs t = wk_current w)"

lemma walk_inv_start: "0 \<le> end_time \<Longrightarrow> walk_inv end_time st [] (walk_start st)"
  by (simp add: walk_inv_def walk_start_def state_at_def)

lemma state_at_snoc:
  "state_at end_time initial (chs @ [ch]) t =
     (if clamp end_time (fst ch) \<le> t then snd ch else state_at end_time initial chs t)"
  by (simp add: state_at_def)

lemma clamp_bounds: "0 \<le> end_time \<Longrightarrow> 0 \<le> clamp end_time t \<and> clamp end_time t \<le> end_time"
  by (simp add: clamp_def)

lemma clamp_mono: "t \<le> u \<Longrightarrow> clamp end_time t \<le> clamp end_time u"
  by (auto simp: clamp_def)

lemma walk_inv_step:
  assumes inv: "walk_inv end_time initial chs w" and "0 \<le> end_time"
    and later: "\<forall>c \<in> set chs. fst c \<le> fst ch"
  shows "walk_inv end_time initial (chs @ [ch]) (walk_step end_time w ch)"
proof -
  define p where "p = clamp end_time (fst ch)"
  have p: "0 \<le> p" "p \<le> end_time" and from_le: "wk_from w \<le> p"
    using assms clamp_bounds [of end_time "fst ch"] by (auto simp: p_def walk_inv_def clamp_mono)
  have old: "sg_state sg = state_at end_time initial (chs @ [ch]) t"
    if "sg \<in> set (wk_segments w)" "sg_from sg \<le> t" "t < sg_to sg" for sg t
  proof -
    have "sg_to sg \<le> wk_from w"
      using inv that(1) tiles_bounds unfolding walk_inv_def by blast
    then have "\<not> p \<le> t" using that from_le by simp
    then show ?thesis
      using inv that by (auto simp: walk_inv_def state_at_snoc p_def)
  qed
  have now: "state_at end_time initial chs t = wk_current w" if "wk_from w \<le> t" for t
    using inv that by (simp add: walk_inv_def)
  show ?thesis
  proof (cases "snd ch = wk_current w")
    case True
    then have "walk_step end_time w ch = w" by (simp add: walk_step_def)
    moreover have "state_at end_time initial (chs @ [ch]) t = wk_current w" if "wk_from w \<le> t" for t
      using now [OF that] True by (simp add: state_at_snoc)
    ultimately show ?thesis
      using inv old by (auto simp: walk_inv_def)
  next
    case False
    then have step: "walk_step end_time w ch =
      w\<lparr>wk_segments := (if p > wk_from w
               then wk_segments w @ [\<lparr>sg_state = wk_current w, sg_from = wk_from w, sg_to = p\<rparr>]
               else wk_segments w),
        wk_current := snd ch, wk_from := p,
        wk_worst := (if SEVERITY_RANK (snd ch) > SEVERITY_RANK (wk_worst w) then snd ch
                     else wk_worst w)\<rparr>"
      by (simp add: walk_step_def p_def clamp_def Let_def)
    have "tiles 0 (wk_segments w) (wk_from w)" using inv by (simp add: walk_inv_def)
    moreover have "state_at end_time initial (chs @ [ch]) t = wk_current w"
      if "wk_from w \<le> t" "t < p" for t
      using now [OF that(1)] that(2) by (simp add: state_at_snoc p_def)
    moreover have "state_at end_time initial (chs @ [ch]) t = snd ch" if "p \<le> t" for t
      using that by (simp add: state_at_snoc p_def)
    ultimately show ?thesis
      using from_le p old by (auto simp: step walk_inv_def tiles_append p_def)
  qed
qed

lemma walk_inv_changes:
  assumes "0 \<le> end_time" "sorted_wrt (\<lambda>a b. fst a \<le> fst b) chs"
  shows "walk_inv end_time initial chs (walk_changes end_time initial chs)"
  using assms(2)
proof (induction chs rule: rev_induct)
  case Nil
  then show ?case using assms(1) by (simp add: walk_changes_def walk_inv_start)
next
  case (snoc ch chs)
  then have "walk_inv end_time initial chs (walk_changes end_time initial chs)"
    and "\<forall>c \<in> set chs. fst c \<le> fst ch"
    by (auto simp: sorted_wrt_append)
  from walk_inv_step [OF this(1) assms(1) this(2)] show ?case by (simp add: walk_changes_def)
qed

lemma sorted_changes_of:
  assumes "sorted (map ev_simulation_time events)"
  shows "sorted_wrt (\<lambda>a b. fst a \<le> fst b) (changes_of i events)"
  using assms
proof (induction events rule: rev_induct)
  case Nil
  show ?case by simp
next
  case (snoc e es)
  have "\<forall>c \<in> set (changes_of i es). \<exists>d \<in> set es. fst c = ev_simulation_time d"
    by (auto simp: changes_of_def List.map_filter_def event_change_Some split: option.splits if_splits)
  with snoc show ?case
    by (auto simp: changes_of_snoc sorted_append sorted_wrt_append event_change_Some
             split: option.split)
qed

lemma walk_worst:
  "wk_worst (walk_changes end_time initial chs) \<in> insert initial (snd ` set chs)
   \<and> (\<forall>st \<in> insert initial (snd ` set chs).
        SEVERITY_RANK st \<le> SEVERITY_RANK (wk_worst (walk_changes end_time initial chs)))"
proof -
  have cur: "wk_current (walk_changes end_time initial chs) \<in> insert initial (snd ` set chs)" for chs
    by (induction chs rule: rev_induct) (auto simp: walk_changes_def walk_start_def walk_step_def Let_def)
  show ?thesis
  proof (induction chs rule: rev_induct)
    case Nil
    show ?case by (simp add: walk_changes_def walk_start_def)
  next
    case (snoc ch chs)
    define w where "w = walk_changes end_time initial chs"
    have "walk_changes end_time initial (chs @ [ch]) = walk_step end_time w ch"
      by (simp add: walk_changes_def w_def)
    moreover have "wk_current w \<in> insert initial (snd ` set chs)" using cur by (simp add: w_def)
    ultimately show ?case
      using snoc by (auto simp: walk_step_def Let_def w_def [symmetric])
  qed
qed

lemma track_member:
  assumes "tr \<in> set (build_timeline collate events components end_time always)"
  obtains i where "tr = track_of components (max end_time (fl (1 / 1000))) (i, changes_of i events)"
    and "tr_subsystem tr = i"
  using assms transitions_member
  by (force simp: build_timeline_def track_of_def Let_def)

lemma domain_order_rank: "domain_order d = int (domain_rank d)"
  by (cases d) (simp_all add: domain_order_def DOMAIN_ORDER_def)

lemma domain_order_less: "domain_order a < domain_order b \<longleftrightarrow> a < b"
  by (simp add: domain_order_rank less_domain_def)

lemma domain_order_eq: "domain_order a = domain_order b \<longleftrightarrow> a = b"
  by (auto simp: domain_order_rank dest: domain_rank_inj)

definition initial_state :: "component_lookup \<Rightarrow> string \<Rightarrow> component_state" where
  "initial_state components i =
     (case map_of components i of None \<Rightarrow> NOMINAL | Some c \<Rightarrow> co_healthy_state c)"


text \<open>
  C10. For events in time order, the segments of every track cover the run from 0 to the end
  without gap or overlap, and each shows the state the subsystem last reported before every
  time it covers (its healthy state before the first report).
\<close>

theorem timeline_faithful:
  assumes "sorted (map ev_simulation_time events)"
    and "tr \<in> set (build_timeline collate events components end_time always)"
    and "e = max end_time (fl (1 / 1000))"
  shows "tiles 0 (tr_segments tr) e
    \<and> (\<forall>t. 0 \<le> t \<and> t < e \<longrightarrow>
        (\<exists>sg \<in> set (tr_segments tr). sg_from sg \<le> t \<and> t < sg_to sg)
        \<and> (\<forall>sg \<in> set (tr_segments tr). sg_from sg \<le> t \<and> t < sg_to sg \<longrightarrow>
              sg_state sg = state_at e (initial_state components (tr_subsystem tr))
                              (changes_of (tr_subsystem tr) events) t))"
proof -
  obtain i where tr: "tr = track_of components e (i, changes_of i events)" and i: "tr_subsystem tr = i"
    using track_member [OF assms(2)] assms(3) by blast
  define w where "w = walk_changes e (initial_state components i) (changes_of i events)"
  have segs: "tr_segments tr = close_walk e w"
    by (simp add: tr track_of_def w_def initial_state_def Let_def)
  have "0 \<le> fl (1 / 1000)" by (rule fl_nonneg) simp
  then have "0 \<le> e" using assms(3) by simp
  then have inv: "walk_inv e (initial_state components i) (changes_of i events) w"
    unfolding w_def using sorted_changes_of [OF assms(1)] by (rule walk_inv_changes)
  then have tiles: "tiles 0 (tr_segments tr) e"
    by (auto simp: segs close_walk_def tiles_append walk_inv_def)
  have "sg_state sg = state_at e (initial_state components i) (changes_of i events) t"
    if "sg \<in> set (tr_segments tr)" "sg_from sg \<le> t" "t < sg_to sg" for sg t
    using that inv by (auto simp: segs close_walk_def walk_inv_def)
  then show ?thesis using tiles tiles_covers [OF tiles] by (auto simp: i)
qed

lemma track_cmp_sorts:
  assumes "collation collate"
  shows "sorted_wrt (\<lambda>a b. tr_domain a < tr_domain b
      \<or> tr_domain a = tr_domain b \<and> collate (tr_name a) (tr_name b) \<le> 0) (js_sort (track_cmp collate) trs)"
proof -
  have cmp: "track_cmp collate
      = cmp_or (by_key (\<lambda>t. domain_order (tr_domain t))) (\<lambda>a b. collate (tr_name a) (tr_name b))"
    by (intro ext) (simp add: track_cmp_def cmp_or_def by_key_def Let_def)
  have "comparator (track_cmp collate)"
    unfolding cmp
  proof (rule cmp_or_by_key)
    show "comparator (\<lambda>a b. collate (tr_name a) (tr_name b))"
      using assms by (auto simp: collation_def comparator_def)
  qed
  from comparator.sorted_js_sort [OF this, of trs] show ?thesis
    by (simp add: cmp cmp_or_le domain_order_less domain_order_eq)
qed

lemma track_worst:
  assumes "tr \<in> set (build_timeline collate events components end_time always)"
  shows "let states = insert (initial_state components (tr_subsystem tr)) (snd ` set (changes_of (tr_subsystem tr) events))
         in tr_worst tr \<in> states \<and> (\<forall>st \<in> states. SEVERITY_RANK st \<le> SEVERITY_RANK (tr_worst tr))"
proof -
  obtain i where "tr = track_of components (max end_time (fl (1 / 1000))) (i, changes_of i events)"
    and "tr_subsystem tr = i"
    using track_member [OF assms] by blast
  then have "tr_worst tr = wk_worst (walk_changes (max end_time (fl (1 / 1000)))
      (initial_state components i) (changes_of i events))" and "tr_subsystem tr = i"
    by (simp_all add: track_of_def initial_state_def Let_def)
  then show ?thesis using walk_worst by (simp add: Let_def)
qed

text \<open>
  C11. There is exactly one track per subsystem that reported a change, or that is always
  included and known; the tracks are grouped by domain in display order, by name inside a
  domain; the worst state of a track is one of its states and none ranks above it.
\<close>

theorem timeline_tracks:
  assumes "collation collate"
  shows "distinct (map tr_subsystem (build_timeline collate events components end_time always))
    \<and> (\<forall>i. i \<in> tr_subsystem ` set (build_timeline collate events components end_time always)
         \<longleftrightarrow> changes_of i events \<noteq> [] \<or> i \<in> set always \<and> map_of components i \<noteq> None)
    \<and> sorted_wrt (\<lambda>a b. tr_domain a < tr_domain b
          \<or> tr_domain a = tr_domain b \<and> collate (tr_name a) (tr_name b) \<le> 0)
        (build_timeline collate events components end_time always)
    \<and> (\<forall>tr \<in> set (build_timeline collate events components end_time always).
         let states = insert (initial_state components (tr_subsystem tr))
                        (snd ` set (changes_of (tr_subsystem tr) events))
         in tr_worst tr \<in> states \<and> (\<forall>st \<in> states. SEVERITY_RANK st \<le> SEVERITY_RANK (tr_worst tr)))"
proof -
  define ts where "ts = transitions events components always"
  define f where "f = track_of components (max end_time (fl (1 / 1000)))"
  have bt: "build_timeline collate events components end_time always
      = js_sort (track_cmp collate) (map f ts)"
    by (simp add: build_timeline_def f_def ts_def)
  have sub: "map (tr_subsystem \<circ> f) ts = map fst ts"
    by (auto simp: f_def track_of_def Let_def)
  have "distinct (map tr_subsystem (js_sort (track_cmp collate) (map f ts)))
      \<longleftrightarrow> distinct (map tr_subsystem (map f ts))"
    by (metis mset_eq_imp_distinct_iff mset_js_sort mset_map)
  then have d: "distinct (map tr_subsystem (js_sort (track_cmp collate) (map f ts)))"
    using distinct_transitions [of events components always, folded ts_def] by (simp add: sub)
  have "tr_subsystem ` set (map f ts) = dom (map_of ts)"
    using sub by (metis dom_map_of_conv_image_fst list.set_map map_map)
  then have s: "\<forall>i. i \<in> tr_subsystem ` set (map f ts)
      \<longleftrightarrow> changes_of i events \<noteq> [] \<or> i \<in> set always \<and> map_of components i \<noteq> None"
    by (auto simp: ts_def map_of_transitions split: if_splits)
  then have "\<forall>i. i \<in> tr_subsystem ` set (js_sort (track_cmp collate) (map f ts))
      \<longleftrightarrow> changes_of i events \<noteq> [] \<or> i \<in> set always \<and> map_of components i \<noteq> None" by simp
  with d show ?thesis
    using track_cmp_sorts [OF assms, of "map f ts"] track_worst [of _ collate events components end_time always]
    unfolding bt by blast
qed


section \<open>Containment, recovery, health and replay\<close>

lemma mem_map_filter: "y \<in> set (List.map_filter f xs) \<longleftrightarrow> (\<exists>x \<in> set xs. f x = Some y)"
  by (force simp: List.map_filter_def)

text \<open>The effects an event shows on a component: its observed state is not a healthy one.\<close>

definition impairs :: "run_event \<Rightarrow> string \<Rightarrow> bool" where
  "impairs e i = (ev_kind e = OBSERVED_EFFECT \<and> ev_subsystem e = Some i \<and> i \<noteq> []
                   \<and> ev_state_after e \<noteq> None \<and> \<not> is_healthy (ev_state_after e))"

definition injects :: "run_event \<Rightarrow> string \<Rightarrow> bool" where
  "injects e i = (ev_kind e = INJECTION_APPLIED \<and> ev_subsystem e = Some i \<and> i \<noteq> [])"

lemma set_injected: "set (injected_set events) = {i. \<exists>e \<in> set events. injects e i}"
  by (force simp: injected_set_def mem_map_filter injects_def truthy_iff)

lemma set_affected: "set (affected_set events) = {i. \<exists>e \<in> set events. impairs e i}"
  by (force simp: affected_set_def mem_map_filter impairs_def truthy_iff)

lemma set_affected_domains:
  "set (affected_domain_set affected components)
     = {co_domain c | i c. i \<in> set affected \<and> map_of components i = Some c}"
  by (force simp: affected_domain_set_def mem_map_filter)

lemma distinct_kpi_sets [simp]: "distinct (injected_set events)" "distinct (affected_set events)"
  by (simp_all add: injected_set_def affected_set_def)


text \<open>An observation gap: a component whose state could not be observed, or seen again after one.\<close>

definition is_gap :: "run_event \<Rightarrow> bool" where
  "is_gap e = (ev_kind e = OBSERVED_EFFECT \<and> ev_state_after e = Some UNKNOWN
               \<or> ev_kind e = RECOVERY \<and> ev_state_before e = Some UNKNOWN)"


text \<open>
  Losing observation of the flight core is nevertheless reported as a loss: a single
  UNKNOWN observation of it clears "safety preserved" and, when the core is known to be in the
  flight-control domain, "contained", although no fault was observed.
\<close>

theorem gap_counts_as_loss:
  assumes "ev_kind e = OBSERVED_EFFECT" "ev_subsystem e = Some ''flight_control.core''"
    and "ev_state_after e = Some UNKNOWN"
    and "map_of components ''flight_control.core'' = Some c" "co_domain c = Flight_control"
  shows "\<not> lm_safety_preserved (live_mission_kpis sample [e])
    \<and> \<not> lc_contained (live_containment_kpis [e] components)
    \<and> lr_faults_observed (live_recovery_kpis [e]) = 0"
  using assms
  by (auto simp: live_mission_kpis_def flight_core_down_def live_containment_kpis_def
      live_recovery_kpis_def Let_def list_ex_iff set_affected_domains set_affected impairs_def
      CRITICAL_DOMAIN_SET_def is_healthy_Some is_fault_def set_of_list_def)

definition gap_event :: run_event where
  "gap_event =
     \<lparr>ev_sequence = 1, ev_run_id = ''run-1'', ev_kind = OBSERVED_EFFECT,
      ev_event_type = ''state'', ev_message = ''not observed'', ev_severity = Sev_info,
      ev_source = ''adapter'', ev_simulation_time = 12, ev_wall_time = None,
      ev_subsystem = Some ''flight_control.core'', ev_scenario_event_id = None,
      ev_state_before = Some OPERATIONAL, ev_state_after = Some UNKNOWN, ev_metadata = None\<rparr>"

definition flight_core :: component where
  "flight_core =
     \<lparr>co_id = ''flight_control.core'', co_name = ''Flight core'', co_description = [],
      co_category = ''autopilot'', co_domain = Flight_control, co_trust_zone = TZ_flight_critical,
      co_critical = True, co_healthy_state = OPERATIONAL\<rparr>"

theorem gap_counts_as_loss_witness:
  "\<not> lm_safety_preserved (live_mission_kpis None [gap_event])
   \<and> \<not> lc_contained (live_containment_kpis [gap_event] [(''flight_control.core'', flight_core)])
   \<and> lr_faults_observed (live_recovery_kpis [gap_event]) = 0"
  by (rule gap_counts_as_loss [where c = flight_core]) (simp_all add: gap_event_def flight_core_def)

definition fault_event :: run_event where
  "fault_event = gap_event\<lparr>ev_sequence := 2, ev_simulation_time := 20, ev_state_after := Some FAILED\<rparr>"

theorem timeline_faithful_witness:
  "map (\<lambda>sg. (sg_from sg, sg_to sg, sg_state sg))
       (concat (map tr_segments (build_timeline code_unit_cmp [gap_event, fault_event]
          [(''flight_control.core'', flight_core)] 30 [])))
     = [(0, 12, OPERATIONAL), (12, 20, UNKNOWN), (20, 30, FAILED)]
   \<and> list_all (\<lambda>tr. tiles 0 (tr_segments tr) (max 30 (fl (1 / 1000))))
       (build_timeline code_unit_cmp [gap_event, fault_event] [(''flight_control.core'', flight_core)] 30 [])"
proof (rule conjI)
  show "map (\<lambda>sg. (sg_from sg, sg_to sg, sg_state sg))
       (concat (map tr_segments (build_timeline code_unit_cmp [gap_event, fault_event]
          [(''flight_control.core'', flight_core)] 30 [])))
     = [(0, 12, OPERATIONAL), (12, 20, UNKNOWN), (20, 30, FAILED)]"
    by code_simp
  have s: "sorted (map ev_simulation_time [gap_event, fault_event])"
    by (simp add: gap_event_def fault_event_def)
  show "list_all (\<lambda>tr. tiles 0 (tr_segments tr) (max 30 (fl (1 / 1000))))
       (build_timeline code_unit_cmp [gap_event, fault_event] [(''flight_control.core'', flight_core)] 30 [])"
    using timeline_faithful [OF s _ refl] unfolding list_all_iff by blast
qed

theorem timeline_tracks_witness:
  "let tracks = build_timeline code_unit_cmp [gap_event, fault_event]
          [(''flight_control.core'', flight_core)] 30 []
   in ''flight_control.core'' \<in> tr_subsystem ` set tracks \<and> distinct (map tr_subsystem tracks)"
proof -
  have "changes_of ''flight_control.core'' [gap_event, fault_event] \<noteq> []"
    by (simp add: changes_of_def gap_event_def fault_event_def event_change_def map_filter_simps)
  then show ?thesis
    using timeline_tracks [OF code_units.collation_axioms, of "[gap_event, fault_event]"
        "[(''flight_control.core'', flight_core)]" 30 "[]"]
    unfolding Let_def by blast
qed

lemma mid_point_exact:
  assumes "0 \<le> low" "low < high" "high < 2 ^ 30"
  shows "mid_point low high = (low + high) div 2"
  using assms by (simp add: mid_point_def to_int32_def Let_def)

text \<open>\<open>k\<close> splits the samples between \<open>low\<close> and \<open>high\<close> at the time \<open>t\<close>.\<close>

definition cuts :: "telemetry_sample list \<Rightarrow> rat \<Rightarrow> int \<Rightarrow> int \<Rightarrow> int \<Rightarrow> bool" where
  "cuts samples t low high k \<longleftrightarrow> low \<le> k \<and> k \<le> high \<and> (sorted (map ts_t samples) \<longrightarrow>
     (\<forall>i. low \<le> int i \<and> int i < k \<longrightarrow> ts_t (samples ! i) \<le> t)
     \<and> (\<forall>i. k \<le> int i \<and> int i < high \<longrightarrow> t < ts_t (samples ! i)))"

lemma sorted_samples_le:
  "sorted (map ts_t samples) \<Longrightarrow> i \<le> j \<Longrightarrow> j < length samples \<Longrightarrow> ts_t (samples ! i) \<le> ts_t (samples ! j)"
  using sorted_nth_mono [of "map ts_t samples" i j] by simp

lemma cuts_right:
  assumes "cuts samples t (int mid + 1) high k" "low \<le> int mid" "mid < length samples" "ts_t (samples ! mid) \<le> t"
  shows "cuts samples t low high k"
proof -
  have "ts_t (samples ! i) \<le> t" if "sorted (map ts_t samples)" "int i < k" for i
  proof (cases "i \<le> mid")
    case True
    then show ?thesis using sorted_samples_le [OF that(1) True assms(3)] assms(4) by simp
  next
    case False
    then show ?thesis using assms(1) that by (simp add: cuts_def)
  qed
  then show ?thesis using assms(1,2) by (auto simp: cuts_def)
qed

lemma cuts_left:
  assumes "cuts samples t low (int mid) k" "int mid < high" "high \<le> int (length samples)" "t < ts_t (samples ! mid)"
  shows "cuts samples t low high k"
proof -
  have "t < ts_t (samples ! i)" if "sorted (map ts_t samples)" "k \<le> int i" "int i < high" for i
  proof (cases "i < mid")
    case True
    then show ?thesis using assms(1) that by (simp add: cuts_def)
  next
    case False
    then show ?thesis using sorted_samples_le [OF that(1), of mid i] that(3) assms(3,4) by simp
  qed
  then show ?thesis using assms(1,2) by (auto simp: cuts_def)
qed

lemma search_up_to_total:
  assumes "0 \<le> low" "low \<le> high" "high \<le> int (length samples)" "length samples < 2 ^ 30"
    and "nat (high - low) \<le> fuel"
  shows "\<exists>k. search_up_to fuel samples t low high = Some k \<and> cuts samples t low high k"
  using assms
proof (induction fuel arbitrary: low high)
  case (Suc n)
  show ?case
  proof (cases "low < high")
    case True
    define mid where "mid = nat ((low + high) div 2)"
    have mid: "low \<le> int mid" "int mid < high" "mid < length samples"
      using True Suc.prems by (auto simp: mid_def)
    have mp: "mid_point low high = int mid"
      using Suc.prems True mid_point_exact by (simp add: mid_def)
    have here: "sample_at samples (int mid) = Some (samples ! mid)" using mid by (simp add: sample_at_def)
    show ?thesis
    proof (cases "ts_t (samples ! mid) \<le> t")
      case le: True
      have "\<exists>k. search_up_to n samples t (int mid + 1) high = Some k \<and> cuts samples t (int mid + 1) high k"
        using Suc.prems mid by (intro Suc.IH) auto
      then show ?thesis using cuts_right [OF _ mid(1,3) le] True by (auto simp: mp here le)
    next
      case gt: False
      have "\<exists>k. search_up_to n samples t low (int mid) = Some k \<and> cuts samples t low (int mid) k"
        using Suc.prems mid by (intro Suc.IH) auto
      then show ?thesis using cuts_left [OF _ mid(2) Suc.prems(3)] gt True by (auto simp: mp here)
    qed
  qed (use Suc.prems in \<open>auto simp: cuts_def\<close>)
qed (auto simp: cuts_def)

lemma filter_prefix:
  assumes "k \<le> length xs" "\<And>i. i < k \<Longrightarrow> P (xs ! i)"
    and "\<And>i. k \<le> i \<Longrightarrow> i < length xs \<Longrightarrow> \<not> P (xs ! i)"
  shows "filter P xs = take k xs"
proof -
  have "filter P (take k xs) = take k xs"
    using assms(1,2) by (auto simp: filter_id_conv in_set_conv_nth)
  moreover have "filter P (drop k xs) = []"
    using assms(3) by (auto simp: filter_empty_conv in_set_conv_nth)
  ultimately show ?thesis
    by (metis append_Nil2 append_take_drop_id filter_append)
qed

lemma search_up_to_exact:
  assumes "length samples < 2 ^ 30"
  obtains k where "search_up_to (length samples) samples t 0 (int (length samples)) = Some (int k)"
    "k \<le> length samples"
    "sorted (map ts_t samples) \<Longrightarrow> filter (\<lambda>s. ts_t s \<le> t) samples = take k samples"
proof -
  obtain k where k: "search_up_to (length samples) samples t 0 (int (length samples)) = Some k"
    "0 \<le> k" "k \<le> int (length samples)"
    "sorted (map ts_t samples) \<Longrightarrow> int i < k \<Longrightarrow> ts_t (samples ! i) \<le> t"
    "sorted (map ts_t samples) \<Longrightarrow> k \<le> int i \<Longrightarrow> i < length samples \<Longrightarrow> t < ts_t (samples ! i)" for i
    using search_up_to_total [of 0 "int (length samples)" samples "length samples" t] assms
    by (auto simp: cuts_def)
  have "filter (\<lambda>s. ts_t s \<le> t) samples = take (nat k) samples" if "sorted (map ts_t samples)"
    using k that by (intro filter_prefix) (force simp: not_le)+
  with k that [of "nat k"] show thesis by simp
qed

text \<open>
  The binary search that cuts a recording at a time always ends, for every recording below
  2^30 samples, and on samples in time order it returns exactly those up to that time.
\<close>

theorem samples_up_to_exact:
  assumes "length samples < 2 ^ 30"
  shows "samples_up_to samples t \<noteq> None
    \<and> (sorted (map ts_t samples) \<longrightarrow>
        samples_up_to samples t = Some (filter (\<lambda>s. ts_t s \<le> t) samples))"
  by (rule search_up_to_exact [OF assms, of t]) (simp add: samples_up_to_def)

theorem samples_up_to_exact_witness:
  "let xs = map (\<lambda>i. sample_example\<lparr>ts_t := i\<rparr>) [1, 2, 4, 8]
   in samples_up_to xs 5 = Some (take 3 xs)"
proof -
  define xs where "xs = map (\<lambda>i. sample_example\<lparr>ts_t := i\<rparr>) [1, 2, 4, 8]"
  have "length xs < 2 ^ 30" "sorted (map ts_t xs)" by (simp_all add: xs_def)
  with samples_up_to_exact [of xs 5] have "samples_up_to xs 5 = Some (filter (\<lambda>s. ts_t s \<le> 5) xs)"
    by blast
  moreover have "filter (\<lambda>s. ts_t s \<le> 5) xs = take 3 xs" by (simp add: xs_def)
  ultimately show ?thesis by (simp add: xs_def)
qed

text \<open>The last state an event reports for a subsystem.\<close>

definition last_reported :: "run_event list \<Rightarrow> string \<Rightarrow> component_state option" where
  "last_reported events i = map_option snd (at_last (changes_of i events))"

lemma map_of_update_all:
  "map_of (foldl (\<lambda>m (i, st). AList.update i st m) m0 xs) i
     = (case map_of (rev xs) i of Some st \<Rightarrow> Some st | None \<Rightarrow> map_of m0 i)"
proof (induction xs rule: rev_induct)
  case Nil
  show ?case by simp
next
  case (snoc x xs)
  then show ?case by (cases x) (simp add: AList.update_conv')
qed

lemma update_all_Nil: "foldl (\<lambda>m (i, st). AList.update i st m) m0 xs = [] \<longleftrightarrow> m0 = [] \<and> xs = []"
proof (induction xs arbitrary: m0)
  case Nil
  show ?case by simp
next
  case (Cons x xs)
  have "AList.update i st m0 \<noteq> []" for i st by (cases m0) auto
  with Cons show ?case by (cases x) simp
qed

lemma map_of_event_health:
  "map_of (foldl (\<lambda>m e. case event_change e of None \<Rightarrow> m | Some (i, _, st) \<Rightarrow> AList.update i st m)
             [] events) i = last_reported events i"
proof (induction events rule: rev_induct)
  case Nil
  show ?case by (simp add: last_reported_def)
next
  case (snoc e es)
  then show ?case
    by (auto simp: last_reported_def changes_of_snoc AList.update_conv' split: option.split)
qed

text \<open>
  The current health is the telemetry's own report when it has one, and otherwise, for
  every subsystem, the last state an event reported.
\<close>

theorem current_health_exact:
  "map_of (current_health sample events) i =
     (case sample of
        Some s \<Rightarrow> (case ts_health s of
            Some (h # hs) \<Rightarrow> map_of (rev (h # hs)) i
          | _ \<Rightarrow> last_reported events i)
      | None \<Rightarrow> last_reported events i)"
proof -
  define reported where "reported = (case sample of None \<Rightarrow> [] | Some s \<Rightarrow> nullish (ts_health s) [])"
  define m0 :: "(string \<times> component_state) list"
    where "m0 = foldl (\<lambda>m (i, st). AList.update i st m) [] reported"
  have m0: "m0 = [] \<longleftrightarrow> reported = []" "map_of m0 i = map_of (rev reported) i"
    by (simp_all add: m0_def update_all_Nil map_of_update_all split: option.split)
  have "current_health sample events =
      (if m0 = []
       then foldl (\<lambda>m e. case event_change e of None \<Rightarrow> m | Some (i, _, st) \<Rightarrow> AList.update i st m)
              [] events
       else m0)"
    unfolding current_health_def Let_def m0_def reported_def by simp
  then have "map_of (current_health sample events) i
      = (if reported = [] then last_reported events i else map_of (rev reported) i)"
    by (simp add: m0 map_of_event_health)
  then show ?thesis
    by (auto simp: reported_def nullish_def split: option.split list.split)
qed

end
