(* ===== verification/KeyedMerge.thy ===== *)
theory KeyedMerge
  imports JSPrelude
begin

text \<open>
  Merging a batch into a history kept in key order without duplicates, the pattern of
  \<open>mergeEvents\<close> and \<open>mergeSamples\<close>: a \<open>Map\<close> filled from both lists, its values sorted by key,
  cut to the newest \<open>cap\<close>. The locale \<open>ordered_history\<close> is what the store relies on.
\<close>

definition by_key_merge :: "('a \<Rightarrow> 'n::linordered_idom) \<Rightarrow> 'a list \<Rightarrow> 'a list \<Rightarrow> 'a list" where
  "by_key_merge key current incoming =
     js_sort (by_key key) (map snd (map_set_all key (map_set_all key [] current) incoming))"

abbreviation strict_by :: "('a \<Rightarrow> 'n::linordered_idom) \<Rightarrow> 'a list \<Rightarrow> bool" where
  "strict_by key \<equiv> sorted_wrt (\<lambda>a b. key a < key b)"

text \<open>The newest entry of a list with a key.\<close>

definition newest :: "('a \<Rightarrow> 'n::linordered_idom) \<Rightarrow> 'a list \<Rightarrow> 'n \<Rightarrow> 'a option" where
  "newest key xs k = find (\<lambda>x. key x = k) (rev xs)"

lemma newest_Nil [simp]: "newest key [] k = None"
  by (simp add: newest_def)

lemma newest_snoc [simp]: "newest key (xs @ [x]) k = (if key x = k then Some x else newest key xs k)"
  by (simp add: newest_def)

lemma newest_append:
  "newest key (xs @ ys) k = (case newest key ys k of None \<Rightarrow> newest key xs k | Some y \<Rightarrow> Some y)"
  by (induction ys rule: rev_induct) (simp_all flip: append_assoc split: option.split)

lemma newest_Some: "newest key xs k = Some x \<Longrightarrow> x \<in> set xs \<and> key x = k"
  by (induction xs rule: rev_induct) (auto split: if_splits)

lemma newest_None: "newest key xs k = None \<longleftrightarrow> k \<notin> key ` set xs"
  by (induction xs rule: rev_induct) (auto split: if_splits)

lemma newest_strict: "strict_by key xs \<Longrightarrow> x \<in> set xs \<Longrightarrow> newest key xs (key x) = Some x"
  by (induction xs rule: rev_induct) (auto simp: sorted_wrt_append)

lemma newest_ex: "k \<in> key ` set xs \<Longrightarrow> \<exists>x. newest key xs k = Some x"
  by (metis newest_None not_None_eq)

text \<open>A strictly ordered list is determined by its entries.\<close>

lemma strict_by_distinct: "strict_by key xs \<Longrightarrow> distinct xs"
  by (induction xs) auto

lemma strict_by_unique:
  "strict_by key xs \<Longrightarrow> strict_by key ys \<Longrightarrow> set xs = set ys \<Longrightarrow> xs = ys"
proof (induction xs arbitrary: ys)
  case Nil
  then show ?case by simp
next
  case (Cons x xs)
  then obtain y ys' where ys: "ys = y # ys'" by (cases ys) auto
  have "x \<in> set ys" "y \<in> set (x # xs)" using Cons.prems(3) ys by auto
  then have "x = y"
    using Cons.prems(1,2) ys by (auto dest: less_asym)
  moreover have "x \<notin> set xs" "y \<notin> set ys'" using Cons.prems(1,2) ys by auto
  ultimately have "set xs = set ys'" using Cons.prems(3) ys by auto
  then show ?case using Cons ys \<open>x = y\<close> by simp
qed

lemma strict_by_eq_newest:
  assumes "strict_by key xs" "strict_by key ys" "newest key xs = newest key ys"
  shows "xs = ys"
proof (rule strict_by_unique [OF assms(1,2)])
  show "set xs = set ys"
    using newest_strict [OF assms(1)] newest_strict [OF assms(2)] newest_Some assms(3)
    by (metis subsetI subset_antisym)
qed

section \<open>The merge\<close>

lemma map_of_fill:
  "map_of (map_set_all key (map_set_all key [] current) incoming) = newest key (current @ incoming)"
  by (rule ext) (simp add: map_of_map_set_all newest_append flip: newest_def split: option.split)

lemma fill_keyed: "\<forall>(k, x) \<in> set (map_set_all key (map_set_all key [] c) i). key x = k"
  by (intro map_set_all_keyed) simp

lemma fill_distinct: "distinct (map fst (map_set_all key (map_set_all key [] c) i))"
  by (intro distinct_map_set_all) simp

lemma fill_keys: "map key (map snd (map_set_all key (map_set_all key [] c) i))
    = map fst (map_set_all key (map_set_all key [] c) i)"
  using fill_keyed [of key c i] by auto

lemma set_by_key_merge:
  "x \<in> set (by_key_merge key c i) \<longleftrightarrow> newest key (c @ i) (key x) = Some x"
proof -
  have "x \<in> set (by_key_merge key c i)
      \<longleftrightarrow> (key x, x) \<in> set (map_set_all key (map_set_all key [] c) i)"
    using fill_keyed [of key c i] by (force simp: by_key_merge_def)
  also have "\<dots> \<longleftrightarrow> newest key (c @ i) (key x) = Some x"
    using fill_distinct [of key c i] by (simp flip: map_of_fill)
  finally show ?thesis .
qed

lemma strict_by_key_merge: "strict_by key (by_key_merge key c i)"
proof -
  let ?xs = "map snd (map_set_all key (map_set_all key [] c) i)"
  have "distinct (map key ?xs)" using fill_distinct by (simp only: fill_keys)
  then have d: "distinct (map key (by_key_merge key c i))"
    unfolding by_key_merge_def by (metis mset_eq_imp_distinct_iff mset_js_sort mset_map)
  have s: "sorted_wrt (\<lambda>a b. key a \<le> key b) (by_key_merge key c i)"
    using by_key.sorted_js_sort [of key ?xs] by (simp add: by_key_merge_def)
  have "sorted_wrt (\<lambda>a b. key a \<le> key b) xs \<Longrightarrow> distinct (map key xs) \<Longrightarrow> strict_by key xs" for xs
    by (induction xs) (auto simp: order.strict_iff_order image_iff)
  then show ?thesis using s d by blast
qed

lemma newest_by_key_merge: "newest key (by_key_merge key c i) k = newest key (c @ i) k"
proof (cases "newest key (c @ i) k")
  case None
  then have "k \<notin> key ` set (by_key_merge key c i)"
    by (auto simp: set_by_key_merge)
  then have "newest key (by_key_merge key c i) k = None" by (rule newest_None [THEN iffD2])
  with None show ?thesis by simp
next
  case (Some x)
  then have "key x = k" using newest_Some by metis
  with Some have "x \<in> set (by_key_merge key c i)" by (simp add: set_by_key_merge)
  with Some \<open>key x = k\<close> show ?thesis
    using newest_strict [OF strict_by_key_merge] by metis
qed

lemma by_key_merge_unique:
  assumes "strict_by key xs" "newest key xs = newest key (c @ i)"
  shows "xs = by_key_merge key c i"
  using assms by (intro strict_by_eq_newest [OF _ strict_by_key_merge]) (auto simp: newest_by_key_merge)

lemma by_key_merge_append:
  assumes "strict_by key c" "strict_by key i" "\<forall>x \<in> set c. \<forall>y \<in> set i. key x < key y"
  shows "by_key_merge key c i = c @ i"
  using assms by (intro by_key_merge_unique [symmetric]) (auto simp: sorted_wrt_append)

lemma by_key_merge_Nil: "strict_by key c \<Longrightarrow> by_key_merge key c [] = c"
  using by_key_merge_append [of key c "[]"] by simp

lemma by_key_merge_assoc:
  "by_key_merge key (by_key_merge key c i) j = by_key_merge key c (i @ j)"
  by (intro by_key_merge_unique strict_by_key_merge ext)
     (simp add: newest_by_key_merge newest_append split: option.split)

lemma key_in_merge: "k \<in> key ` set (c @ i) \<longleftrightarrow> k \<in> key ` set (by_key_merge key c i)"
  using newest_by_key_merge [of key c i k] newest_None [of key "c @ i" k]
    newest_None [of key "by_key_merge key c i" k] by metis

lemma length_strict_by: "strict_by key xs \<Longrightarrow> length xs = card (key ` set xs)"
proof -
  assume "strict_by key xs"
  then have "distinct (map key xs)" by (induction xs) auto
  then show ?thesis using distinct_card by fastforce
qed

section \<open>Cutting to the newest entries\<close>

definition capped_merge :: "('a \<Rightarrow> 'n::linordered_idom) \<Rightarrow> nat \<Rightarrow> 'a list \<Rightarrow> 'a list \<Rightarrow> 'a list" where
  "capped_merge key cap c i = keep_last cap (by_key_merge key c i)"

lemma keep_last_filter:
  assumes "\<forall>x \<in> set (keep_last cap xs). Q x"
  shows "keep_last cap (filter Q xs) = keep_last cap xs"
proof (cases "length xs \<le> cap")
  case True
  then have "filter Q xs = xs" using assms by (simp add: filter_id_conv)
  then show ?thesis by simp
next
  case False
  obtain us where xs: "xs = us @ keep_last cap xs" using keep_last_suffix by blast
  have "filter Q xs = filter Q us @ keep_last cap xs"
    using assms by (subst xs) (simp add: filter_id_conv)
  moreover have "length (keep_last cap xs) = cap" using False by simp
  ultimately show ?thesis by (simp add: keep_last_eq_drop)
qed

lemma keep_last_few_above:
  assumes "strict_by key xs" "x \<in> set (keep_last cap xs)"
  shows "card (key ` {y \<in> set xs. key x < key y}) < cap"
proof -
  obtain us where xs: "xs = us @ keep_last cap xs" using keep_last_suffix by blast
  have s: "strict_by key (keep_last cap xs)" using assms(1) by (rule sorted_wrt_keep_last)
  have "{y \<in> set xs. key x < key y} \<subseteq> set (keep_last cap xs) - {x}"
  proof
    fix y assume y: "y \<in> {y \<in> set xs. key x < key y}"
    have "strict_by key (us @ keep_last cap xs)" using assms(1) xs by simp
    then have "y \<notin> set us" using y assms(2) by (auto simp: sorted_wrt_append dest: less_asym)
    moreover have "y \<in> set us \<union> set (keep_last cap xs)" using y xs by (metis (no_types, lifting) mem_Collect_eq set_append)
    ultimately show "y \<in> set (keep_last cap xs) - {x}" using y by auto
  qed
  then have "key ` {y \<in> set xs. key x < key y} \<subseteq> key ` set (keep_last cap xs) - {key x}"
    by auto
  then have "card (key ` {y \<in> set xs. key x < key y}) \<le> card (key ` set (keep_last cap xs) - {key x})"
    by (intro card_mono) auto
  also have "\<dots> < card (key ` set (keep_last cap xs))"
    using assms(2) by (intro psubset_card_mono) auto
  also have "\<dots> = length (keep_last cap xs)" using length_strict_by [OF s] by simp
  also have "\<dots> \<le> cap" by simp
  finally show ?thesis .
qed

text \<open>Of a history \<open>P @ K\<close> the older part \<open>P\<close> only adds its entries that are not replaced.\<close>

lemma merge_without_old:
  assumes "strict_by key (P @ K)"
  shows "by_key_merge key K b
    = filter (\<lambda>x. \<not> (x \<in> set P \<and> newest key b (key x) = None)) (by_key_merge key (P @ K) b)"
proof (rule strict_by_unique [where key = key])
  have below: "key x < key y" if "x \<in> set P" "y \<in> set K" for x y
    using assms that by (auto simp: sorted_wrt_append)
  have sK: "strict_by key K" using assms by (auto simp: sorted_wrt_append)
  show "set (by_key_merge key K b)
      = set (filter (\<lambda>x. \<not> (x \<in> set P \<and> newest key b (key x) = None)) (by_key_merge key (P @ K) b))"
  proof (rule set_eqI)
    fix x
    show "x \<in> set (by_key_merge key K b) \<longleftrightarrow>
        x \<in> set (filter (\<lambda>x. \<not> (x \<in> set P \<and> newest key b (key x) = None)) (by_key_merge key (P @ K) b))"
    proof (cases "newest key b (key x)")
      case None
      have "newest key K (key x) = Some x \<longleftrightarrow> x \<in> set K"
        using newest_strict [OF sK] newest_Some by metis
      moreover have "newest key (P @ K) (key x) = Some x \<longleftrightarrow> x \<in> set (P @ K)"
        using newest_strict [OF assms] newest_Some by metis
      ultimately show ?thesis using None below by (auto simp: set_by_key_merge newest_append)
    next
      case (Some y)
      then show ?thesis by (simp add: set_by_key_merge newest_append)
    qed
  qed
qed (simp_all add: strict_by_key_merge sorted_wrt_filter)

lemma merge_after_cut:
  assumes "strict_by key A"
  shows "capped_merge key cap (keep_last cap A) b = capped_merge key cap A b"
proof -
  define K where "K = keep_last cap A"
  obtain P where A: "A = P @ K" using keep_last_suffix K_def by blast
  have below: "key x < key y" if "x \<in> set P" "y \<in> set K" for x y
    using assms that A by (auto simp: sorted_wrt_append)
  have sK: "strict_by key K" using assms K_def sorted_wrt_keep_last by blast
  define Q where "Q = (\<lambda>x. \<not> (x \<in> set P \<and> newest key b (key x) = None))"
  have "by_key_merge key K b = filter Q (by_key_merge key A b)"
    using merge_without_old [of key P K b] assms unfolding A Q_def by simp
  moreover have "Q x" if x: "x \<in> set (keep_last cap (by_key_merge key A b))" for x
  proof (rule ccontr)
    assume "\<not> Q x"
    then have P: "x \<in> set P" by (simp add: Q_def)
    then have "length K = cap" using A by (auto simp: K_def keep_last_def split: if_splits)
    then have "cap = card (key ` set K)" using length_strict_by [OF sK] by simp
    also have "\<dots> \<le> card (key ` {y \<in> set (by_key_merge key A b). key x < key y})"
    proof (rule card_mono)
      show "key ` set K \<subseteq> key ` {y \<in> set (by_key_merge key A b). key x < key y}"
      proof
        fix k assume k: "k \<in> key ` set K"
        then have "k \<in> key ` set (A @ b)" by (auto simp: A)
        then have "k \<in> key ` set (by_key_merge key A b)" by (simp only: key_in_merge)
        moreover have "key x < k" using k below [OF P] by auto
        ultimately show "k \<in> key ` {y \<in> set (by_key_merge key A b). key x < key y}" by auto
      qed
    qed simp
    also have "\<dots> < cap" using x by (intro keep_last_few_above strict_by_key_merge)
    finally show False by simp
  qed
  ultimately show ?thesis
    by (simp add: capped_merge_def keep_last_filter flip: K_def)
qed

lemma capped_merge_assoc:
  "capped_merge key cap (capped_merge key cap c i) j = capped_merge key cap c (i @ j)"
proof -
  have "capped_merge key cap (capped_merge key cap c i) j
      = capped_merge key cap (by_key_merge key c i) j"
    unfolding capped_merge_def [of key cap c i] by (rule merge_after_cut [OF strict_by_key_merge])
  then show ?thesis by (simp add: capped_merge_def by_key_merge_assoc)
qed

lemma strict_capped_merge [js_intros]: "strict_by key (capped_merge key cap c i)"
  unfolding capped_merge_def by (intro js_intros strict_by_key_merge)

lemma newest_capped_merge:
  "x \<in> set (capped_merge key cap c i) \<Longrightarrow> newest key (c @ i) (key x) = Some x"
  using set_keep_last set_by_key_merge unfolding capped_merge_def by fastforce

text \<open>What the cut drops is older than everything it keeps.\<close>

lemma capped_merge_dropped:
  assumes "newest key (c @ i) (key x) = Some x" "x \<notin> set (capped_merge key cap c i)"
  shows "length (capped_merge key cap c i) = cap
    \<and> (\<forall>y \<in> set (capped_merge key cap c i). key x < key y)"
proof -
  let ?M = "by_key_merge key c i"
  obtain us where M: "?M = us @ keep_last cap ?M" using keep_last_suffix by blast
  have x: "x \<in> set ?M" using assms(1) by (simp add: set_by_key_merge)
  then have "x \<in> set us" using assms(2) M by (metis UnE capped_merge_def set_append)
  moreover have "strict_by key (us @ keep_last cap ?M)" using strict_by_key_merge M by metis
  ultimately have "\<forall>y \<in> set (keep_last cap ?M). key x < key y" by (auto simp: sorted_wrt_append)
  moreover have "length ?M > cap"
    using x assms(2) by (cases "length ?M > cap") (auto simp: capped_merge_def)
  ultimately show ?thesis by (simp add: capped_merge_def)
qed

section \<open>The interface of a history\<close>

text \<open>A history: entries in strict key order, at most \<open>cap\<close> of them.\<close>

definition history :: "('a \<Rightarrow> 'n::linordered_idom) \<Rightarrow> nat \<Rightarrow> 'a list \<Rightarrow> bool" where
  "history key cap c \<longleftrightarrow> strict_by key c \<and> length c \<le> cap"

text \<open>
  What the store needs of a merge: an empty batch changes nothing, and on the batches it gets
  (\<open>accepts\<close>) the result is the capped merge by key.
\<close>

locale ordered_history =
  fixes key :: "'a \<Rightarrow> 'n::linordered_idom"
    and merge :: "'a list \<Rightarrow> 'a list \<Rightarrow> 'a list"
    and cap :: nat
    and accepts :: "'a list \<Rightarrow> 'a list \<Rightarrow> bool"
  assumes merge_Nil: "merge c [] = c"
    and merge_value: "i \<noteq> [] \<Longrightarrow> accepts c i \<Longrightarrow> merge c i = capped_merge key cap c i"
begin

lemma history_Nil: "history key cap []"
  by (simp add: history_def)

lemma merge_capped: "history key cap c \<Longrightarrow> accepts c i \<Longrightarrow> merge c i = capped_merge key cap c i"
  by (cases "i = []") (simp_all add: merge_Nil merge_value history_def capped_merge_def by_key_merge_Nil)

lemma history_merge: "history key cap c \<Longrightarrow> accepts c i \<Longrightarrow> history key cap (merge c i)"
  using strict_capped_merge [of key cap c i] by (simp add: merge_capped) (simp add: history_def capped_merge_def)

lemma merge_newest: "history key cap c \<Longrightarrow> accepts c i \<Longrightarrow> x \<in> set (merge c i)
    \<Longrightarrow> newest key (c @ i) (key x) = Some x"
  by (simp add: merge_capped newest_capped_merge)

lemma merge_batches:
  assumes "history key cap c" "accepts c i" "accepts (merge c i) j" "accepts c (i @ j)"
  shows "merge (merge c i) j = merge c (i @ j)"
  using assms history_merge [OF assms(1,2)] by (simp add: merge_capped capped_merge_assoc)

lemma merge_again:
  assumes "history key cap c" "accepts c i" "set i \<subseteq> set c"
  shows "merge c i = c"
proof -
  have c: "strict_by key c" using assms(1) by (simp add: history_def)
  have "newest key c = newest key (c @ i)"
  proof
    fix k
    show "newest key c k = newest key (c @ i) k"
    proof (cases "newest key i k")
      case (Some y)
      from newest_Some [OF this] have "y \<in> set c" "key y = k" using assms(3) by auto
      then have "newest key c k = Some y" using newest_strict [OF c, of y] by simp
      with Some show ?thesis by (simp add: newest_append)
    qed (simp add: newest_append)
  qed
  then have "by_key_merge key c i = c" by (rule by_key_merge_unique [OF c, symmetric])
  moreover have "length c \<le> cap" using assms(1) by (simp add: history_def)
  ultimately show ?thesis by (simp add: merge_capped [OF assms(1,2)] capped_merge_def)
qed

end

end
