(* ===== verification/LiveStore.thy ===== *)
theory LiveStore
  imports KeyedMerge States
begin

text \<open>
  apps/web/src/stores/live-run.ts: the store of the run being watched. Its state is the record
  \<open>live_run\<close>; each action of the store is a function on it, and \<open>Date.now()\<close> is the argument
  \<open>now\<close>. The stream messages are those of packages/client/src/index.ts.
\<close>

section \<open>Messages\<close>

record stream_snapshot =
  sn_run :: run_detail
  sn_events :: "run_event list"
  sn_telemetry :: "telemetry_sample list"

record stream_lifecycle =
  ml_state :: run_state
  ml_reason :: string
  ml_simulation_time :: rat
  ml_planned_path :: "planned_path option"

record stream_run_finished =
  mf_simulation_time :: rat

record stream_completed =
  mc_run :: run_summary
  mc_report_available :: bool

section \<open>Merging\<close>

datatype connection_status =
  CS_idle | CS_connecting | CS_live | CS_stale | CS_reconnecting | CS_closed | CS_error

definition MAX_EVENTS :: nat where
  "MAX_EVENTS = 2000"

definition MAX_SAMPLES :: nat where
  "MAX_SAMPLES = 6000"

definition STALE_AFTER_MS :: int where
  "STALE_AFTER_MS = 30000"

definition merge_events :: "nat \<Rightarrow> run_event list \<Rightarrow> run_event list \<Rightarrow> run_event list" where
  "merge_events cap current incoming =
     (if incoming = [] then current
      else let bySequence = map_set_all ev_sequence (map_set_all ev_sequence [] current) incoming;
               merged = js_sort (by_key ev_sequence) (map snd bySequence)
           in keep_last cap merged)"

definition append_only :: "telemetry_sample list \<Rightarrow> telemetry_sample list \<Rightarrow> bool" where
  "append_only current incoming =
     (case at_last current of None \<Rightarrow> False
      | Some l \<Rightarrow> list_all (\<lambda>s. ts_t s > ts_t l) incoming)"

definition merge_samples ::
  "nat \<Rightarrow> telemetry_sample list \<Rightarrow> telemetry_sample list \<Rightarrow> telemetry_sample list" where
  "merge_samples cap current incoming =
     (if incoming = [] then current
      else let merged = (if append_only current incoming then current @ incoming
               else js_sort (by_key ts_t)
                      (map snd (map_set_all ts_t (map_set_all ts_t [] current) incoming)))
           in keep_last cap merged)"

section \<open>The store\<close>

definition apply_summary :: "run_detail option \<Rightarrow> run_summary \<Rightarrow> run_detail option" where
  "apply_summary run summary =
     (case run of None \<Rightarrow> None
      | Some r \<Rightarrow> Some (r\<lparr>rs_state := rs_state summary, rs_reason := rs_reason summary,
          rs_result := rs_result summary, rs_hard_gate_result := rs_hard_gate_result summary,
          rs_resilience_score := rs_resilience_score summary, rs_summary := rs_summary summary,
          rs_event_count := rs_event_count summary, rs_sample_count := rs_sample_count summary,
          rs_last_simulation_time := rs_last_simulation_time summary,
          rs_mission_complete := rs_mission_complete summary,
          rs_ended_at := rs_ended_at summary, rs_updated_at := rs_updated_at summary\<rparr>))"

record live_run =
  lv_run_id :: "string option"
  lv_generation :: int
  lv_run :: "run_detail option"
  lv_planned_path :: "planned_path option"
  lv_events :: "run_event list"
  lv_samples :: "telemetry_sample list"
  lv_latest :: "telemetry_sample option"
  lv_simulation_time :: rat
  lv_status :: connection_status
  lv_last_message_at :: "int option"
  lv_finished :: bool
  lv_report_available :: bool
  lv_error :: "string option"

definition EMPTY :: live_run where
  "EMPTY = \<lparr>lv_run_id = None, lv_generation = 0, lv_run = None, lv_planned_path = None,
            lv_events = [], lv_samples = [], lv_latest = None, lv_simulation_time = 0,
            lv_status = CS_idle, lv_last_message_at = None, lv_finished = False,
            lv_report_available = False, lv_error = None\<rparr>"

definition start :: "string \<Rightarrow> live_run \<Rightarrow> live_run" where
  "start runId st = EMPTY\<lparr>lv_run_id := Some runId, lv_generation := lv_generation st + 1,
                          lv_status := CS_connecting\<rparr>"

definition stop :: "live_run \<Rightarrow> live_run" where
  "stop st = st\<lparr>lv_status := CS_closed\<rparr>"

definition set_status :: "connection_status \<Rightarrow> live_run \<Rightarrow> live_run" where
  "set_status status st = st\<lparr>lv_status := status\<rparr>"

definition set_error :: "string option \<Rightarrow> live_run \<Rightarrow> live_run" where
  "set_error message st = st\<lparr>lv_error := message\<rparr>"

definition touch :: "int \<Rightarrow> live_run \<Rightarrow> live_run" where
  "touch now st = st\<lparr>lv_last_message_at := Some now\<rparr>"

text \<open>\<open>latest?.t ?? 0\<close>\<close>

definition time_of :: "telemetry_sample option \<Rightarrow> rat" where
  "time_of latest = (case latest of None \<Rightarrow> 0 | Some s \<Rightarrow> ts_t s)"

definition last_event_time :: "run_event list \<Rightarrow> rat" where
  "last_event_time events = (case at_last events of None \<Rightarrow> 0 | Some e \<Rightarrow> ev_simulation_time e)"

definition apply_snapshot :: "stream_snapshot \<Rightarrow> int \<Rightarrow> live_run \<Rightarrow> live_run" where
  "apply_snapshot m now st =
     (let samples = sn_telemetry m;
          latest = at_last samples
      in st\<lparr>lv_run := Some (sn_run m),
             lv_planned_path := rd_planned_path (sn_run m),
             lv_events := merge_events MAX_EVENTS [] (sn_events m),
             lv_samples := merge_samples MAX_SAMPLES [] samples,
             lv_latest := latest,
             lv_simulation_time := max (time_of latest) (rs_last_simulation_time (sn_run m)),
             lv_generation := lv_generation st + 1,
             lv_last_message_at := Some now,
             lv_error := None,
             lv_report_available := rd_report_available (sn_run m)\<rparr>)"

definition apply_lifecycle :: "stream_lifecycle \<Rightarrow> int \<Rightarrow> live_run \<Rightarrow> live_run" where
  "apply_lifecycle m now st =
     st\<lparr>lv_run := map_option (\<lambda>r. r\<lparr>rs_state := ml_state m, rs_reason := ml_reason m\<rparr>) (lv_run st),
        lv_planned_path := (case ml_planned_path m of None \<Rightarrow> lv_planned_path st | Some p \<Rightarrow> Some p),
        lv_simulation_time := max (lv_simulation_time st) (ml_simulation_time m),
        lv_last_message_at := Some now\<rparr>"

text \<open>\<open>nextSamples.at(-1) ?? state.latest\<close>\<close>

definition latest_or :: "telemetry_sample list \<Rightarrow> live_run \<Rightarrow> telemetry_sample option" where
  "latest_or samples st = (case at_last samples of None \<Rightarrow> lv_latest st | Some s \<Rightarrow> Some s)"

definition ingest :: "run_event list \<Rightarrow> telemetry_sample list \<Rightarrow> int \<Rightarrow> live_run \<Rightarrow> live_run" where
  "ingest events samples now st =
     (let nextSamples = merge_samples MAX_SAMPLES (lv_samples st) samples;
          latest = latest_or nextSamples st;
          nextEvents = merge_events MAX_EVENTS (lv_events st) events
      in st\<lparr>lv_events := nextEvents,
             lv_samples := nextSamples,
             lv_latest := latest,
             lv_simulation_time :=
               max (lv_simulation_time st) (max (time_of latest) (last_event_time nextEvents)),
             lv_last_message_at := Some now\<rparr>)"

definition apply_run_finished :: "stream_run_finished \<Rightarrow> int \<Rightarrow> live_run \<Rightarrow> live_run" where
  "apply_run_finished m now st =
     st\<lparr>lv_finished := True,
        lv_simulation_time := max (lv_simulation_time st) (mf_simulation_time m),
        lv_last_message_at := Some now\<rparr>"

definition apply_completed :: "stream_completed \<Rightarrow> int \<Rightarrow> live_run \<Rightarrow> live_run" where
  "apply_completed m now st =
     st\<lparr>lv_run := apply_summary (lv_run st) (mc_run m),
        lv_finished := True,
        lv_report_available := mc_report_available m,
        lv_status := CS_closed,
        lv_last_message_at := Some now\<rparr>"

definition replace_history ::
  "run_event list option \<Rightarrow> telemetry_sample list option \<Rightarrow> live_run \<Rightarrow> live_run" where
  "replace_history events samples st =
     (let nextSamples = (case samples of None \<Rightarrow> lv_samples st
                         | Some xs \<Rightarrow> merge_samples MAX_SAMPLES [] xs);
          nextEvents = (case events of None \<Rightarrow> lv_events st
                        | Some es \<Rightarrow> merge_events MAX_EVENTS [] es);
          latest = latest_or nextSamples st
      in st\<lparr>lv_events := nextEvents,
             lv_samples := nextSamples,
             lv_latest := latest,
             lv_simulation_time :=
               max (lv_simulation_time st) (max (time_of latest) (last_event_time nextEvents)),
             lv_generation := lv_generation st + 1\<rparr>)"

fun connection_label :: "connection_status \<Rightarrow> string" where
  "connection_label CS_live = ''LIVE''"
| "connection_label CS_stale = ''STALE''"
| "connection_label CS_reconnecting = ''RECONNECTING''"
| "connection_label CS_connecting = ''CONNECTING''"
| "connection_label CS_closed = ''CLOSED''"
| "connection_label CS_error = ''DISCONNECTED''"
| "connection_label CS_idle = ''IDLE''"

fun connection_tone :: "connection_status \<Rightarrow> tone" where
  "connection_tone CS_live = Ok"
| "connection_tone CS_stale = Warn"
| "connection_tone CS_reconnecting = Warn"
| "connection_tone CS_connecting = Warn"
| "connection_tone CS_error = Bad"
| "connection_tone CS_closed = Dim"
| "connection_tone CS_idle = Dim"

section \<open>The histories of the store\<close>

lemma merge_events_capped: "i \<noteq> [] \<Longrightarrow> merge_events cap c i = capped_merge ev_sequence cap c i"
  by (simp add: merge_events_def capped_merge_def by_key_merge_def Let_def)

interpretation events: ordered_history ev_sequence "merge_events cap" cap "\<lambda>_ _. True" for cap
  by unfold_locales (simp_all add: merge_events_def capped_merge_def by_key_merge_def Let_def)

text \<open>Samples come in time order, or into an empty history.\<close>

definition timed_batch :: "telemetry_sample list \<Rightarrow> telemetry_sample list \<Rightarrow> bool" where
  "timed_batch c i \<longleftrightarrow> c = [] \<or> strict_by ts_t c \<and> strict_by ts_t i"

lemma append_only_merge:
  assumes "append_only c i" "timed_batch c i"
  shows "c @ i = by_key_merge ts_t c i"
proof -
  obtain l where l: "at_last c = Some l" "\<forall>s \<in> set i. ts_t l < ts_t s"
    using assms(1) by (auto simp: append_only_def list_all_iff split: option.splits)
  then have "c \<noteq> []" by auto
  then have s: "strict_by ts_t c" "strict_by ts_t i" using assms(2) by (auto simp: timed_batch_def)
  have "\<forall>x \<in> set c. \<forall>y \<in> set i. ts_t x < ts_t y"
    using at_last_sorted_ge [OF s(1) l(1)] l(2) by fastforce
  then show ?thesis using by_key_merge_append [OF s] by simp
qed

interpretation samples: ordered_history ts_t "merge_samples cap" cap timed_batch for cap
proof
  show "merge_samples cap c [] = c" for c by (simp add: merge_samples_def)
  show "merge_samples cap c i = capped_merge ts_t cap c i" if "i \<noteq> []" "timed_batch c i" for c i
    using that append_only_merge [OF _ that(2)]
    by (cases "append_only c i")
       (simp_all add: merge_samples_def capped_merge_def Let_def flip: by_key_merge_def)
qed

lemma timed_batch_intros [js_intros]:
  "timed_batch [] i"
  "history ts_t cap c \<Longrightarrow> strict_by ts_t i \<Longrightarrow> timed_batch c i"
  by (auto simp: timed_batch_def history_def)

text \<open>
  C3. Merging a non-empty batch of events gives a list in strict sequence order, so without
  duplicates; its entries are the newest copies of their sequence numbers, the incoming one
  before the current one; and an entry is missing only when the cap is reached and everything
  kept is newer.
\<close>

theorem merge_events_exact:
  assumes "incoming \<noteq> []"
  shows "history ev_sequence cap (merge_events cap current incoming)
    \<and> (\<forall>x \<in> set (merge_events cap current incoming).
          newest ev_sequence (current @ incoming) (ev_sequence x) = Some x)
    \<and> (\<forall>x. newest ev_sequence (current @ incoming) (ev_sequence x) = Some x
            \<and> x \<notin> set (merge_events cap current incoming) \<longrightarrow>
          length (merge_events cap current incoming) = cap
          \<and> (\<forall>y \<in> set (merge_events cap current incoming). ev_sequence x < ev_sequence y))"
proof -
  have eq: "merge_events cap current incoming = capped_merge ev_sequence cap current incoming"
    using assms by (rule merge_events_capped)
  have "length (capped_merge ev_sequence cap current incoming) \<le> cap"
    by (simp add: capped_merge_def)
  then have "history ev_sequence cap (capped_merge ev_sequence cap current incoming)"
    by (simp add: history_def strict_capped_merge)
  then show ?thesis
    unfolding eq by (auto simp: newest_capped_merge dest: capped_merge_dropped)
qed

definition event_no :: "int \<Rightarrow> string \<Rightarrow> run_event" where
  "event_no n msg =
     \<lparr>ev_sequence = n, ev_run_id = ''run-1'', ev_kind = OBSERVED_EFFECT,
      ev_event_type = ''state_change'', ev_message = msg, ev_severity = Sev_high,
      ev_source = ''adapter'', ev_simulation_time = of_int n, ev_wall_time = None,
      ev_subsystem = None, ev_scenario_event_id = None, ev_state_before = None,
      ev_state_after = None, ev_metadata = None\<rparr>"

theorem merge_events_exact_witness:
  "let xs = merge_events 2 [event_no 1 ''a'', event_no 2 ''stale''] [event_no 3 ''c'', event_no 2 ''fresh'']
   in history ev_sequence 2 xs \<and> map ev_message xs = [''fresh'', ''c'']"
proof -
  have "history ev_sequence 2
      (merge_events 2 [event_no 1 ''a'', event_no 2 ''stale''] [event_no 3 ''c'', event_no 2 ''fresh''])"
    using merge_events_exact by blast
  moreover have "map ev_message
      (merge_events 2 [event_no 1 ''a'', event_no 2 ''stale''] [event_no 3 ''c'', event_no 2 ''fresh''])
      = [''fresh'', ''c'']"
    by code_simp
  ultimately show ?thesis by (simp only: Let_def)
qed

text \<open>
  C28. How the incoming events are cut into batches does not matter: merging two batches one
  after the other, or one in parts and again, gives the same list as merging them at once.
\<close>

theorem merge_events_batches:
  assumes "history ev_sequence cap current"
  shows "merge_events cap (merge_events cap current a) b = merge_events cap current (a @ b)
    \<and> (set b \<subseteq> set (merge_events cap current a) \<longrightarrow>
         merge_events cap current (a @ b) = merge_events cap current a)"
  using events.merge_batches [OF assms TrueI TrueI TrueI]
    events.merge_again [OF events.history_merge [OF assms TrueI] TrueI]
  by auto

theorem merge_events_batches_witness:
  "let c = [event_no 1 ''a'']; a = [event_no 2 ''b'']; b = [event_no 2 ''b'', event_no 3 ''c'']
   in merge_events 5 (merge_events 5 c a) b = merge_events 5 c (a @ b)"
proof -
  have "history ev_sequence 5 [event_no 1 ''a'']" by (simp add: history_def)
  then show ?thesis using merge_events_batches by (simp only: Let_def)
qed

text \<open>
  On samples in time order, the fast path that appends without sorting gives the merge by
  simulation time: strictly increasing times, the newest copy of each, only older ones cut.
\<close>

theorem merge_samples_exact:
  assumes "incoming \<noteq> []" "current = [] \<or> strict_by ts_t current \<and> strict_by ts_t incoming"
  shows "history ts_t cap (merge_samples cap current incoming)
    \<and> (\<forall>x \<in> set (merge_samples cap current incoming).
          newest ts_t (current @ incoming) (ts_t x) = Some x)
    \<and> (\<forall>x. newest ts_t (current @ incoming) (ts_t x) = Some x
            \<and> x \<notin> set (merge_samples cap current incoming) \<longrightarrow>
          length (merge_samples cap current incoming) = cap
          \<and> (\<forall>y \<in> set (merge_samples cap current incoming). ts_t x < ts_t y))"
proof -
  have eq: "merge_samples cap current incoming = capped_merge ts_t cap current incoming"
    using assms by (intro samples.merge_value) (simp_all add: timed_batch_def)
  have "length (capped_merge ts_t cap current incoming) \<le> cap"
    by (simp add: capped_merge_def)
  then have "history ts_t cap (capped_merge ts_t cap current incoming)"
    by (simp add: history_def strict_capped_merge)
  then show ?thesis
    unfolding eq by (auto simp: newest_capped_merge dest: capped_merge_dropped)
qed

definition sample_no :: "rat \<Rightarrow> telemetry_sample" where
  "sample_no t =
     \<lparr>ts_t = t, ts_position = \<lparr>px = t, py = 0, pz = 30\<rparr>, ts_velocity = \<lparr>vx = 1, vy = 0, vz = 0\<rparr>,
      ts_attitude = \<lparr>pitch = 0, roll = 0, yaw = 0\<rparr>,
      ts_flight = \<lparr>fs_armed = True, fs_autonomy = ''mission'', fs_control_authority = True,
                   fs_mode = FM_MISSION\<rparr>,
      ts_mission = \<lparr>ms_phase = MP_ENROUTE, ms_progress = t / 100, ms_waypoint_index = 1,
                    ms_waypoints_total = 7, ms_distance_to_waypoint = None\<rparr>,
      ts_navigation = \<lparr>ns_gnss_fix = True, ns_position_error = 7 / 10, ns_satellites = None,
                       ns_source = ''gnss''\<rparr>,
      ts_communications = \<lparr>cs_c2_link = True, cs_telemetry_link = True, cs_latency_ms = None,
                           cs_packet_loss = None\<rparr>,
      ts_power = \<lparr>pw_remaining = 9 / 10, pw_voltage = 33 / 2, pw_current = None\<rparr>,
      ts_health = Some [(''flight_control.core'', OPERATIONAL)],
      ts_source = ''mock'', ts_wall_time = None\<rparr>"

lemma ts_t_sample_no [simp]: "ts_t (sample_no t) = t"
  by (simp add: sample_no_def)

theorem merge_samples_exact_witness:
  "let xs = merge_samples 3 [sample_no 1, sample_no 2] [sample_no 3, sample_no 4]
   in history ts_t 3 xs \<and> map ts_t xs = [2, 3, 4]"
proof -
  have "history ts_t 3 (merge_samples 3 [sample_no 1, sample_no 2] [sample_no 3, sample_no 4])"
    using merge_samples_exact [of "[sample_no 3, sample_no 4]" "[sample_no 1, sample_no 2]" 3] by simp
  then show ?thesis
    by (simp add: merge_samples_def append_only_def at_last_def keep_last_def)
qed

text \<open>
  The fast path looks at the last known sample only: a batch that is itself out of order,
  or repeats a time, is appended as it is, and the history is no longer ordered or duplicate-free.
\<close>

theorem merge_samples_unordered_batch:
  "map ts_t (merge_samples MAX_SAMPLES [sample_no 1] [sample_no 3, sample_no 2, sample_no 3]) = [1, 3, 2, 3]
   \<and> \<not> history ts_t MAX_SAMPLES
        (merge_samples MAX_SAMPLES [sample_no 1] [sample_no 3, sample_no 2, sample_no 3])"
  by (simp add: merge_samples_def append_only_def at_last_def keep_last_def MAX_SAMPLES_def history_def)

section \<open>Reachable stores\<close>

datatype store_action =
    A_start string
  | A_stop
  | A_set_status connection_status
  | A_set_error "string option"
  | A_touch int
  | A_snapshot stream_snapshot int
  | A_lifecycle stream_lifecycle int
  | A_ingest "run_event list" "telemetry_sample list" int
  | A_run_finished stream_run_finished int
  | A_completed stream_completed int
  | A_replace "run_event list option" "telemetry_sample list option"

fun store_step :: "store_action \<Rightarrow> live_run \<Rightarrow> live_run" where
  "store_step (A_start i) st = start i st"
| "store_step A_stop st = stop st"
| "store_step (A_set_status s) st = set_status s st"
| "store_step (A_set_error e) st = set_error e st"
| "store_step (A_touch now) st = touch now st"
| "store_step (A_snapshot m now) st = apply_snapshot m now st"
| "store_step (A_lifecycle m now) st = apply_lifecycle m now st"
| "store_step (A_ingest es ss now) st = ingest es ss now st"
| "store_step (A_run_finished m now) st = apply_run_finished m now st"
| "store_step (A_completed m now) st = apply_completed m now st"
| "store_step (A_replace es ss) st = replace_history es ss st"

text \<open>The batches of an action carry their samples in time order, as the server sends them.\<close>

fun in_order :: "store_action \<Rightarrow> bool" where
  "in_order (A_snapshot m now) = strict_by ts_t (sn_telemetry m)"
| "in_order (A_ingest es ss now) = strict_by ts_t ss"
| "in_order _ = True"

inductive reachable_store :: "live_run \<Rightarrow> bool" where
  initial: "reachable_store EMPTY"
| action: "reachable_store st \<Longrightarrow> in_order a \<Longrightarrow> reachable_store (store_step a st)"

definition store_inv :: "live_run \<Rightarrow> bool" where
  "store_inv st \<longleftrightarrow>
     history ev_sequence MAX_EVENTS (lv_events st)
     \<and> history ts_t MAX_SAMPLES (lv_samples st)
     \<and> (lv_samples st \<noteq> [] \<longrightarrow> lv_latest st = at_last (lv_samples st))
     \<and> time_of (lv_latest st) \<le> lv_simulation_time st"

lemmas store_defs =
  EMPTY_def start_def stop_def set_status_def set_error_def touch_def apply_snapshot_def
  apply_lifecycle_def ingest_def apply_run_finished_def apply_completed_def replace_history_def

lemma MAX_pos [simp]: "0 < MAX_SAMPLES" "0 < MAX_EVENTS"
  by (simp_all add: MAX_SAMPLES_def MAX_EVENTS_def)

lemma history_merge_events [js_intros]:
  "history ev_sequence cap c \<Longrightarrow> history ev_sequence cap (merge_events cap c i)"
  by (rule events.history_merge) simp_all

lemma history_merge_samples [js_intros]:
  "history ts_t cap c \<Longrightarrow> strict_by ts_t i \<Longrightarrow> history ts_t cap (merge_samples cap c i)"
  by (intro samples.history_merge js_intros)

lemma history_fresh_samples [js_intros]: "history ts_t cap (merge_samples cap [] i)"
  by (intro samples.history_merge js_intros samples.history_Nil)

lemma history_fresh_events [js_intros]: "history ev_sequence cap (merge_events cap [] i)"
  by (intro js_intros events.history_Nil)

lemma merge_samples_fresh:
  assumes "strict_by ts_t xs"
  shows "merge_samples cap [] xs = keep_last cap xs"
proof (cases "xs = []")
  case False
  then have "merge_samples cap [] xs = capped_merge ts_t cap [] xs"
    by (intro samples.merge_value js_intros)
  also have "by_key_merge ts_t [] xs = xs"
    using by_key_merge_append [of ts_t "[]" xs] assms by simp
  then have "capped_merge ts_t cap [] xs = keep_last cap xs" by (simp add: capped_merge_def)
  finally show ?thesis .
qed (simp add: merge_samples_def)

lemma latest_or_inv:
  "latest_or xs st = (if xs = [] then lv_latest st else at_last xs)"
  by (auto simp: latest_or_def at_last_def)

lemma store_inv_step:
  assumes "store_inv st" "in_order a"
  shows "store_inv (store_step a st)"
proof -
  have e: "history ev_sequence MAX_EVENTS (lv_events st)" and s: "history ts_t MAX_SAMPLES (lv_samples st)"
    using assms(1) by (auto simp: store_inv_def)
  show ?thesis
  proof (cases a)
    case (A_snapshot m now)
    have fresh: "merge_samples MAX_SAMPLES [] (sn_telemetry m) = keep_last MAX_SAMPLES (sn_telemetry m)"
      using assms(2) A_snapshot by (intro merge_samples_fresh) simp
    have "history ev_sequence MAX_EVENTS (merge_events MAX_EVENTS [] (sn_events m))"
      "history ts_t MAX_SAMPLES (merge_samples MAX_SAMPLES [] (sn_telemetry m))"
      by (intro js_intros)+
    then show ?thesis
      using A_snapshot
      by (simp add: store_inv_def apply_snapshot_def Let_def fresh at_last_keep_last)
  next
    case (A_ingest es ss now)
    have "history ev_sequence MAX_EVENTS (merge_events MAX_EVENTS (lv_events st) es)"
      "history ts_t MAX_SAMPLES (merge_samples MAX_SAMPLES (lv_samples st) ss)"
      using e s assms(2) A_ingest by (auto intro: js_intros)
    then show ?thesis
      using A_ingest by (simp add: store_inv_def ingest_def Let_def latest_or_inv)
  next
    case (A_replace es ss)
    have "history ev_sequence MAX_EVENTS (case es of None \<Rightarrow> lv_events st | Some xs \<Rightarrow> merge_events MAX_EVENTS [] xs)"
      "history ts_t MAX_SAMPLES (case ss of None \<Rightarrow> lv_samples st | Some xs \<Rightarrow> merge_samples MAX_SAMPLES [] xs)"
      using e s by (auto intro: js_intros split: option.split)
    then show ?thesis
      using A_replace by (simp add: store_inv_def replace_history_def Let_def latest_or_inv)
  qed (use assms(1) in \<open>auto simp: store_inv_def store_defs time_of_def history_def\<close>)
qed

lemma store_inv_EMPTY: "store_inv EMPTY"
  by (simp add: store_inv_def EMPTY_def time_of_def history_def)

lemma reachable_store_inv: "reachable_store st \<Longrightarrow> store_inv st"
  by (induction rule: reachable_store.induct) (auto intro: store_inv_step store_inv_EMPTY)



text \<open>
  Only starting a run or a snapshot can set the simulation clock back, and only starting a
  run clears "finished"; the generation counts the replacements of the history, and no other
  action changes it.
\<close>

theorem store_monotone:
  "(\<forall>i. a \<noteq> A_start i) \<longrightarrow>
     (lv_finished st \<longrightarrow> lv_finished (store_step a st))
     \<and> lv_run_id (store_step a st) = lv_run_id st
     \<and> ((\<forall>m now. a \<noteq> A_snapshot m now) \<longrightarrow> lv_simulation_time st \<le> lv_simulation_time (store_step a st))
     \<and> lv_generation (store_step a st)
         = lv_generation st + (case a of A_snapshot _ _ \<Rightarrow> 1 | A_replace _ _ \<Rightarrow> 1 | _ \<Rightarrow> 0)"
  by (cases a) (simp_all add: store_defs Let_def)

theorem store_monotone_witness:
  "lv_finished (store_step (A_touch 7) (store_step (A_run_finished \<lparr>mf_simulation_time = 9\<rparr> 6) EMPTY))"
  using store_monotone [of "A_touch 7" "store_step (A_run_finished \<lparr>mf_simulation_time = 9\<rparr> 6) EMPTY"]
  by (simp add: apply_run_finished_def)

text \<open>
  The rate at which the buffers are flushed does not matter: flushing in two parts leaves
  the same events, samples and latest sample as flushing everything at once.
\<close>

theorem ingest_batches:
  assumes "reachable_store st" "strict_by ts_t (s1 @ s2)"
  shows "let two = ingest e2 s2 now2 (ingest e1 s1 now1 st);
             one = ingest (e1 @ e2) (s1 @ s2) now2 st
         in lv_events two = lv_events one \<and> lv_samples two = lv_samples one
            \<and> lv_latest two = lv_latest one"
proof -
  have inv: "history ev_sequence MAX_EVENTS (lv_events st)" "history ts_t MAX_SAMPLES (lv_samples st)"
    using reachable_store_inv [OF assms(1)] by (auto simp: store_inv_def)
  have s: "strict_by ts_t s1" "strict_by ts_t s2" using assms(2) by (auto simp: sorted_wrt_append)
  have e: "merge_events MAX_EVENTS (merge_events MAX_EVENTS (lv_events st) e1) e2
      = merge_events MAX_EVENTS (lv_events st) (e1 @ e2)"
    by (intro events.merge_batches inv) simp_all
  have h1: "history ts_t MAX_SAMPLES (merge_samples MAX_SAMPLES (lv_samples st) s1)"
    using inv s by (intro js_intros)
  have m: "merge_samples MAX_SAMPLES (merge_samples MAX_SAMPLES (lv_samples st) s1) s2
      = merge_samples MAX_SAMPLES (lv_samples st) (s1 @ s2)"
    using inv s assms(2) h1 by (intro samples.merge_batches js_intros)
  have keeps: "merge_samples MAX_SAMPLES c i = [] \<longleftrightarrow> c = [] \<and> i = []" for c i
  proof -
    have "xs \<noteq> [] \<Longrightarrow> js_sort (by_key ts_t) (map snd (map_set_all ts_t m xs)) \<noteq> []" for xs m
      using keys_map_set_all [of ts_t m xs] mset_js_sort [of "by_key ts_t" "map snd (map_set_all ts_t m xs)"]
      by fastforce
    then show ?thesis
      by (auto simp: merge_samples_def Let_def keep_last_def MAX_SAMPLES_def)
  qed
  have "latest_or (merge_samples MAX_SAMPLES (merge_samples MAX_SAMPLES (lv_samples st) s1) s2)
          (ingest e1 s1 now1 st)
      = latest_or (merge_samples MAX_SAMPLES (lv_samples st) (s1 @ s2)) st"
    unfolding m by (auto simp: latest_or_inv keeps ingest_def Let_def)
  then show ?thesis
    by (simp add: ingest_def Let_def e m)
qed

lemma keep_last_split: "take (length xs - cap) xs @ keep_last cap xs = xs"
  by (simp add: keep_last_def)

lemma merge_in_order:
  assumes "strict_by ts_t (c @ i)" "length c \<le> cap"
  shows "merge_samples cap c i = keep_last cap (c @ i)"
proof (cases "i = []")
  case True
  then show ?thesis using assms(2) by (simp add: merge_samples_def keep_last_def)
next
  case False
  have s: "strict_by ts_t c" "strict_by ts_t i" "\<forall>x \<in> set c. \<forall>y \<in> set i. ts_t x < ts_t y"
    using assms(1) by (auto simp: sorted_wrt_append)
  then show ?thesis
    using samples.merge_value [OF False, of c cap] by (simp add: timed_batch_def capped_merge_def by_key_merge_append)
qed

lemma ingest_in_order:
  "strict_by ts_t (lv_samples st @ ss) \<Longrightarrow> length (lv_samples st @ ss) \<le> MAX_SAMPLES \<Longrightarrow>
     lv_samples (ingest es ss now st) = lv_samples st @ ss"
  "lv_generation (ingest es ss now st) = lv_generation st"
  by (simp_all add: ingest_def Let_def merge_in_order keep_last_def)

theorem ingest_batches_witness:
  "let st = store_step (A_start ''run-1'') EMPTY in
   lv_samples (ingest [] [sample_no 2] 2 (ingest [] [sample_no 1] 1 st)) = [sample_no 1, sample_no 2]"
proof -
  have "reachable_store (store_step (A_start ''run-1'') EMPTY)"
    by (intro reachable_store.intros) simp
  from ingest_batches [OF this, of "[sample_no 1]" "[sample_no 2]" "[]" 2 "[]" 1]
  show ?thesis
    by (simp add: Let_def ingest_in_order start_def EMPTY_def MAX_SAMPLES_def)
qed

end
