(* ===== verification/RunStream.thy ===== *)
theory RunStream
  imports LiveStore
begin

text \<open>
  apps/web/src/hooks/use-run-stream.ts: the effect that keeps a WebSocket open on the stream of
  a run, buffers what arrives and flushes it into the store. The local variables of the effect
  are the record \<open>stream\<close>; its callbacks are functions on it, and \<open>stream_step\<close> says when the
  browser calls them. \<open>Date.now()\<close> is the argument \<open>now\<close>; whether \<open>new WebSocket\<close> succeeds is
  the argument \<open>opens\<close>.
\<close>

section \<open>Frames and messages\<close>

datatype stream_message =
    Snapshot stream_snapshot
  | Lifecycle stream_lifecycle
  | Event run_event
  | Telemetry "telemetry_sample list"
  | Run_finished stream_run_finished
  | Heartbeat
  | Completed stream_completed
  | Other_message

text \<open>
  A frame is binary, or text with the value \<open>JSON.parse\<close> gives (\<open>None\<close> when it throws). The
  type assertion \<open>parsed as StreamMessage\<close> is the parameter \<open>as_message\<close>.
\<close>

datatype frame = Binary_frame | Text_frame "jsval option"

definition has_type :: "jsval \<Rightarrow> bool" where
  "has_type v = (case v of Obj ob \<Rightarrow> ''type'' \<in> set (map fst ob) | _ \<Rightarrow> False)"

definition parse_message :: "(jsval \<Rightarrow> stream_message) \<Rightarrow> frame \<Rightarrow> stream_message option" where
  "parse_message as_message data =
     (case data of
        Binary_frame \<Rightarrow> None
      | Text_frame None \<Rightarrow> None
      | Text_frame (Some v) \<Rightarrow> if has_type v then Some (as_message v) else None)"

section \<open>The effect\<close>

definition MAX_BACKOFF_MS :: int where
  "MAX_BACKOFF_MS = 20000"

definition BASE_BACKOFF_MS :: int where
  "BASE_BACKOFF_MS = 750"

datatype ready_state = Connecting | Open | Closed

text \<open>
  \<open>sm_timer\<close> is the delay of the reconnect timeout that is pending; \<open>sm_completed\<close> counts the calls
  of \<open>onCompleted\<close>.
\<close>

record stream =
  sm_store :: live_run
  sm_run_id :: string
  sm_event_buffer :: "run_event list"
  sm_sample_buffer :: "telemetry_sample list"
  sm_socket :: "ready_state option"
  sm_disposed :: bool
  sm_attempt :: nat
  sm_timer :: "int option"
  sm_completed :: nat

abbreviation on_store :: "(live_run \<Rightarrow> live_run) \<Rightarrow> stream \<Rightarrow> stream" where
  "on_store f s \<equiv> s\<lparr>sm_store := f (sm_store s)\<rparr>"

definition flush :: "int \<Rightarrow> stream \<Rightarrow> stream" where
  "flush now s =
     (if sm_event_buffer s = [] \<and> sm_sample_buffer s = [] then s
      else s\<lparr>sm_store := ingest (sm_event_buffer s) (sm_sample_buffer s) now (sm_store s),
             sm_event_buffer := [], sm_sample_buffer := []\<rparr>)"

definition stale_check :: "int \<Rightarrow> stream \<Rightarrow> stream" where
  "stale_check now s =
     (if lv_finished (sm_store s) \<or> lv_status (sm_store s) \<noteq> CS_live then s
      else case lv_last_message_at (sm_store s) of
             None \<Rightarrow> s
           | Some t \<Rightarrow> if now - t > STALE_AFTER_MS then on_store (set_status CS_stale) s else s)"

definition backoff :: "nat \<Rightarrow> int" where
  "backoff attempt = min MAX_BACKOFF_MS (BASE_BACKOFF_MS * 2 ^ (attempt - 1))"

definition schedule_reconnect :: "stream \<Rightarrow> stream" where
  "schedule_reconnect s =
     (if sm_disposed s then s
      else if lv_finished (sm_store s) then on_store (set_status CS_closed) s
      else let attempt = sm_attempt s + 1
           in (on_store (set_status CS_reconnecting) s)
                \<lparr>sm_attempt := attempt, sm_timer := Some (backoff attempt)\<rparr>)"

fun handle :: "stream_message \<Rightarrow> int \<Rightarrow> stream \<Rightarrow> stream" where
  "handle (Snapshot m) now s =
     on_store (\<lambda>st. set_status (if rs_state (sn_run m) = RS_COMPLETED then CS_closed else CS_live)
                      (apply_snapshot m now st))
       (flush now s)"
| "handle (Lifecycle m) now s = on_store (apply_lifecycle m now) s"
| "handle (Event e) now s =
     on_store (touch now) (s\<lparr>sm_event_buffer := sm_event_buffer s @ [e]\<rparr>)"
| "handle (Telemetry samples) now s =
     on_store (touch now) (s\<lparr>sm_sample_buffer := sm_sample_buffer s @ samples\<rparr>)"
| "handle (Run_finished m) now s = on_store (apply_run_finished m now) (flush now s)"
| "handle Heartbeat now s =
     (let touched = on_store (touch now) s
      in if lv_status (sm_store s) = CS_stale then on_store (set_status CS_live) touched else touched)"
| "handle (Completed m) now s =
     (on_store (apply_completed m now) (flush now s))\<lparr>sm_completed := sm_completed s + 1\<rparr>"
| "handle Other_message now s = s"

definition connect :: "bool \<Rightarrow> stream \<Rightarrow> stream" where
  "connect opens s =
     (if sm_disposed s then s
      else let s' = on_store (set_status (if sm_attempt s = 0 then CS_connecting else CS_reconnecting)) s
           in if opens then s'\<lparr>sm_socket := Some Connecting\<rparr>
              else schedule_reconnect
                     (on_store (set_error (Some ''Could not open the live stream.'')) s'))"

definition on_open :: "int \<Rightarrow> stream \<Rightarrow> stream" where
  "on_open now s =
     on_store (\<lambda>st. touch now (set_status CS_live (set_error None st))) (s\<lparr>sm_attempt := 0\<rparr>)"

definition on_message :: "(jsval \<Rightarrow> stream_message) \<Rightarrow> frame \<Rightarrow> int \<Rightarrow> stream \<Rightarrow> stream" where
  "on_message as_message data now s =
     (case parse_message as_message data of None \<Rightarrow> s | Some m \<Rightarrow> handle m now s)"

definition on_error :: "stream \<Rightarrow> stream" where
  "on_error s =
     (if \<not> lv_finished (sm_store s)
      then on_store (set_error (Some ''The live stream connection failed.'')) s else s)"

definition on_close :: "int \<Rightarrow> int \<Rightarrow> stream \<Rightarrow> stream" where
  "on_close code now s =
     (if sm_disposed s then s
      else let s' = flush now s
           in if lv_finished (sm_store s') \<or> code = 1000 then on_store (set_status CS_closed) s'
              else if code = 1008
              then on_store (\<lambda>st. set_status CS_error
                     (set_error (Some ''The run is not available for streaming.'') st)) s'
              else schedule_reconnect s')"

text \<open>The clean-up of the effect: timers and handlers go, an open socket is closed.\<close>

definition dispose :: "stream \<Rightarrow> stream" where
  "dispose s = s\<lparr>sm_disposed := True, sm_timer := None,
                 sm_socket := (case sm_socket s of None \<Rightarrow> None | Some _ \<Rightarrow> Some Closed)\<rparr>"

text \<open>The body of the effect: start the store, then connect.\<close>

definition mount :: "string \<Rightarrow> bool \<Rightarrow> live_run \<Rightarrow> stream" where
  "mount runId opens st =
     connect opens
       \<lparr>sm_store = start runId st, sm_run_id = runId, sm_event_buffer = [], sm_sample_buffer = [],
        sm_socket = None, sm_disposed = False, sm_attempt = 0, sm_timer = None, sm_completed = 0\<rparr>"

section \<open>When the callbacks run\<close>

datatype stream_event =
    Flush_tick int
  | Stale_tick int
  | Timer_fires bool
  | Socket_opens int
  | Frame_arrives frame int
  | Socket_error
  | Socket_closes int int
  | Unmount

text \<open>
  The browser opens a connecting socket, delivers frames on an open one, and closes either once;
  a timeout fires once; after the clean-up no handler and no timer is left.
\<close>

inductive stream_step :: "(jsval \<Rightarrow> stream_message) \<Rightarrow> stream \<Rightarrow> stream_event \<Rightarrow> stream \<Rightarrow> bool"
  for as_message where
  flush_tick: "\<not> sm_disposed s \<Longrightarrow> stream_step as_message s (Flush_tick now) (flush now s)"
| stale_tick: "\<not> sm_disposed s \<Longrightarrow> stream_step as_message s (Stale_tick now) (stale_check now s)"
| timer_fires: "\<not> sm_disposed s \<Longrightarrow> sm_timer s \<noteq> None
    \<Longrightarrow> stream_step as_message s (Timer_fires opens) (connect opens (s\<lparr>sm_timer := None\<rparr>))"
| socket_opens: "\<not> sm_disposed s \<Longrightarrow> sm_socket s = Some Connecting
    \<Longrightarrow> stream_step as_message s (Socket_opens now) (on_open now (s\<lparr>sm_socket := Some Open\<rparr>))"
| frame_arrives: "\<not> sm_disposed s \<Longrightarrow> sm_socket s = Some Open
    \<Longrightarrow> stream_step as_message s (Frame_arrives data now) (on_message as_message data now s)"
| socket_error: "\<not> sm_disposed s \<Longrightarrow> sm_socket s = Some Connecting \<or> sm_socket s = Some Open
    \<Longrightarrow> stream_step as_message s Socket_error (on_error s)"
| socket_closes: "\<not> sm_disposed s \<Longrightarrow> sm_socket s = Some Connecting \<or> sm_socket s = Some Open
    \<Longrightarrow> stream_step as_message s (Socket_closes code now) (on_close code now (s\<lparr>sm_socket := Some Closed\<rparr>))"
| unmount: "\<not> sm_disposed s \<Longrightarrow> stream_step as_message s Unmount (dispose s)"

inductive_cases stream_stepE: "stream_step as_message s e s'"

inductive stream_steps ::
  "(jsval \<Rightarrow> stream_message) \<Rightarrow> stream \<Rightarrow> stream_event list \<Rightarrow> stream \<Rightarrow> bool"
  for as_message where
  nil: "stream_steps as_message s [] s"
| cons: "stream_step as_message s e t \<Longrightarrow> stream_steps as_message t es u
    \<Longrightarrow> stream_steps as_message s (e # es) u"

inductive_cases stream_steps_ConsE: "stream_steps as_message s (e # es) t"

text \<open>The states the effect can be in when every event satisfies \<open>admits\<close>.\<close>

inductive reachable_stream ::
  "(jsval \<Rightarrow> stream_message) \<Rightarrow> (stream \<Rightarrow> stream_event \<Rightarrow> bool) \<Rightarrow> stream \<Rightarrow> bool"
  for as_message admits where
  mounted: "reachable_stream as_message admits (mount runId opens st)"
| stepped: "reachable_stream as_message admits s \<Longrightarrow> stream_step as_message s e t \<Longrightarrow> admits s e
    \<Longrightarrow> reachable_stream as_message admits t"

abbreviation anything :: "stream \<Rightarrow> stream_event \<Rightarrow> bool" where
  "anything \<equiv> \<lambda>_ _. True"

text \<open>The messages an event delivers.\<close>

definition delivers :: "(jsval \<Rightarrow> stream_message) \<Rightarrow> stream_event \<Rightarrow> stream_message option" where
  "delivers as_message e =
     (case e of Frame_arrives data now \<Rightarrow> parse_message as_message data | _ \<Rightarrow> None)"

text \<open>Every batch of samples the store gets satisfies \<open>ok\<close>.\<close>

definition batches_ok ::
  "(telemetry_sample list \<Rightarrow> bool) \<Rightarrow> (jsval \<Rightarrow> stream_message) \<Rightarrow> stream \<Rightarrow> stream_event \<Rightarrow> bool" where
  "batches_ok ok as_message s e =
     (case delivers as_message e of
        Some (Snapshot m) \<Rightarrow> ok (sn_telemetry m)
      | Some (Telemetry samples) \<Rightarrow> ok (sm_sample_buffer s @ samples)
      | _ \<Rightarrow> True)"

section \<open>The interface to the store\<close>

text \<open>
  What the effect relies on: \<open>good\<close> is kept by every action of the store it calls, for
  batches of samples that are \<open>ok\<close>.
\<close>

locale run_store =
  fixes good :: "live_run \<Rightarrow> bool" and ok :: "telemetry_sample list \<Rightarrow> bool"
  assumes ok_Nil: "ok []"
    and good_start: "good (start i st)"
    and good_status: "good st \<Longrightarrow> good (set_status x st)"
    and good_error: "good st \<Longrightarrow> good (set_error e st)"
    and good_touch: "good st \<Longrightarrow> good (touch now st)"
    and good_snapshot: "good st \<Longrightarrow> ok (sn_telemetry m) \<Longrightarrow> good (apply_snapshot m now st)"
    and good_lifecycle: "good st \<Longrightarrow> good (apply_lifecycle l now st)"
    and good_ingest: "good st \<Longrightarrow> ok ss \<Longrightarrow> good (ingest es ss now st)"
    and good_finished: "good st \<Longrightarrow> good (apply_run_finished f now st)"
    and good_completed: "good st \<Longrightarrow> good (apply_completed c now st)"
begin

definition keeps :: "stream \<Rightarrow> bool" where
  "keeps s \<longleftrightarrow> good (sm_store s) \<and> ok (sm_sample_buffer s)"

lemma keeps_flush: "keeps s \<Longrightarrow> keeps (flush now s)"
  by (simp add: keeps_def flush_def good_ingest ok_Nil)

lemma keeps_schedule: "keeps s \<Longrightarrow> keeps (schedule_reconnect s)"
  by (simp add: keeps_def schedule_reconnect_def good_status Let_def)

lemma keeps_connect: "keeps s \<Longrightarrow> keeps (connect opens s)"
  by (simp add: connect_def keeps_def good_status good_error schedule_reconnect_def Let_def)

lemma keeps_handle:
  assumes "keeps s" "delivers as_message e = Some m" "batches_ok ok as_message s e"
  shows "keeps (handle m now s)"
  using assms keeps_flush [OF assms(1), of now]
  by (cases m) (simp_all add: keeps_def batches_ok_def good_status good_touch good_snapshot
      good_lifecycle good_finished good_completed Let_def)

lemma keeps_step:
  assumes "keeps s" "stream_step as_message s e t" "batches_ok ok as_message s e"
  shows "keeps t"
  using assms(2)
proof cases
  case (frame_arrives data now)
  then show ?thesis
    using keeps_handle [OF assms(1) _ assms(3)] assms(1)
    by (auto simp: on_message_def delivers_def split: option.split)
next
  case (timer_fires opens)
  have "keeps (s\<lparr>sm_timer := None\<rparr>)" using assms(1) by (simp add: keeps_def)
  then show ?thesis using timer_fires keeps_connect by blast
next
  case (socket_closes code now)
  have "keeps (s\<lparr>sm_socket := Some Closed\<rparr>)" using assms(1) by (simp add: keeps_def)
  then have "keeps (flush now (s\<lparr>sm_socket := Some Closed\<rparr>))" by (rule keeps_flush)
  then show ?thesis
    using socket_closes assms(1)
    by (auto simp: on_close_def Let_def keeps_schedule) (auto simp: keeps_def good_status good_error)
qed (use assms(1) keeps_flush in \<open>auto simp: keeps_def stale_check_def on_open_def on_error_def
       dispose_def good_status good_error good_touch split: option.split\<close>)

lemma reachable_keeps:
  "reachable_stream as_message (batches_ok ok as_message) s \<Longrightarrow> keeps s"
proof (induction rule: reachable_stream.induct)
  case (mounted runId opens st)
  show ?case
    unfolding mount_def by (rule keeps_connect) (simp add: keeps_def good_start ok_Nil)
qed (rule keeps_step)

lemmas good_reachable = reachable_keeps [unfolded keeps_def, THEN conjunct1]

end

text \<open>The live store, for the invariant of its histories.\<close>

interpretation live: run_store store_inv "strict_by ts_t"
proof
  show "store_inv (start i st)" for i st
    by (simp add: store_inv_def start_def EMPTY_def time_of_def history_def)
  show "store_inv (set_status x st)" if "store_inv st" for x st
    using store_inv_step [OF that, of "A_set_status x"] by simp
  show "store_inv (set_error e st)" if "store_inv st" for e st
    using store_inv_step [OF that, of "A_set_error e"] by simp
  show "store_inv (touch now st)" if "store_inv st" for now st
    using store_inv_step [OF that, of "A_touch now"] by simp
  show "store_inv (apply_snapshot m now st)" if "store_inv st" "strict_by ts_t (sn_telemetry m)" for m now st
    using store_inv_step [OF that(1), of "A_snapshot m now"] that by simp
  show "store_inv (apply_lifecycle m now st)" if "store_inv st" for m now st
    using store_inv_step [OF that, of "A_lifecycle m now"] by simp
  show "store_inv (ingest es ss now st)" if "store_inv st" "strict_by ts_t ss" for es ss now st
    using store_inv_step [OF that(1), of "A_ingest es ss now"] that by simp
  show "store_inv (apply_run_finished m now st)" if "store_inv st" for m now st
    using store_inv_step [OF that, of "A_run_finished m now"] by simp
  show "store_inv (apply_completed m now st)" if "store_inv st" for m now st
    using store_inv_step [OF that, of "A_completed m now"] by simp
qed simp

text \<open>Its events are in order whatever arrives.\<close>

definition events_history :: "live_run \<Rightarrow> bool" where
  "events_history st \<longleftrightarrow> history ev_sequence MAX_EVENTS (lv_events st)"

interpretation live_events: run_store events_history "\<lambda>_. True"
  by unfold_locales (simp_all add: events_history_def store_defs Let_def
      history_fresh_events history_merge_events, simp_all add: history_def)

section \<open>The connection\<close>

definition live_socket :: "stream \<Rightarrow> bool" where
  "live_socket s \<longleftrightarrow> sm_socket s = Some Connecting \<or> sm_socket s = Some Open"

text \<open>
  A pending reconnect excludes a live socket and a finished run, and its delay is the backoff
  of the attempts so far; without either, and not disposed, the connection is given up in a
  status that says so.
\<close>

definition stream_inv :: "stream \<Rightarrow> bool" where
  "stream_inv s \<longleftrightarrow>
     (sm_disposed s \<longrightarrow> sm_timer s = None \<and> \<not> live_socket s)
     \<and> (sm_timer s \<noteq> None \<longrightarrow>
          \<not> live_socket s \<and> \<not> lv_finished (sm_store s) \<and> lv_status (sm_store s) = CS_reconnecting
          \<and> 1 \<le> sm_attempt s \<and> sm_timer s = Some (backoff (sm_attempt s)))
     \<and> (\<not> sm_disposed s \<and> sm_timer s = None \<and> \<not> live_socket s \<longrightarrow>
          lv_status (sm_store s) = CS_closed \<or> lv_status (sm_store s) = CS_error)"

lemma flush_control [simp]:
  "sm_timer (flush now s) = sm_timer s" "sm_socket (flush now s) = sm_socket s"
  "sm_disposed (flush now s) = sm_disposed s" "sm_attempt (flush now s) = sm_attempt s"
  "sm_run_id (flush now s) = sm_run_id s" "sm_completed (flush now s) = sm_completed s"
  "lv_status (sm_store (flush now s)) = lv_status (sm_store s)"
  "lv_finished (sm_store (flush now s)) = lv_finished (sm_store s)"
  "live_socket (flush now s) = live_socket s"
  by (simp_all add: flush_def ingest_def Let_def live_socket_def)

lemma handle_control [simp]:
  "sm_timer (handle m now s) = sm_timer s" "sm_socket (handle m now s) = sm_socket s"
  "sm_disposed (handle m now s) = sm_disposed s" "sm_attempt (handle m now s) = sm_attempt s"
  "live_socket (handle m now s) = live_socket s"
  by (cases m; simp add: Let_def live_socket_def)+

lemma stale_check_control [simp]:
  "sm_timer (stale_check now s) = sm_timer s" "sm_socket (stale_check now s) = sm_socket s"
  "sm_disposed (stale_check now s) = sm_disposed s" "sm_attempt (stale_check now s) = sm_attempt s"
  "lv_finished (sm_store (stale_check now s)) = lv_finished (sm_store s)"
  "lv_status (sm_store s) \<noteq> CS_live \<Longrightarrow> stale_check now s = s"
  by (auto simp: stale_check_def set_status_def split: option.split)

lemma stream_inv_flush: "stream_inv s \<Longrightarrow> stream_inv (flush now s)"
  by (simp add: stream_inv_def)

lemma stream_inv_schedule:
  "\<not> sm_disposed s \<Longrightarrow> \<not> live_socket s \<Longrightarrow> sm_timer s = None \<Longrightarrow> stream_inv (schedule_reconnect s)"
  by (simp add: stream_inv_def schedule_reconnect_def set_status_def live_socket_def Let_def)

lemma stream_inv_connect:
  "\<not> sm_disposed s \<Longrightarrow> \<not> live_socket s \<Longrightarrow> sm_timer s = None \<Longrightarrow> stream_inv (connect opens s)"
  by (cases opens)
     (simp_all add: connect_def Let_def stream_inv_schedule live_socket_def,
      simp_all add: stream_inv_def live_socket_def)

lemma stream_inv_step:
  assumes "stream_inv s" "stream_step as_message s e t"
  shows "stream_inv t"
  using assms(2)
proof cases
  case (stale_tick now)
  then show ?thesis
    using assms(1) by (cases "lv_status (sm_store s) = CS_live") (auto simp: stream_inv_def live_socket_def)
next
  case (timer_fires opens)
  then have "\<not> live_socket (s\<lparr>sm_timer := None\<rparr>)"
    using assms(1) by (simp add: stream_inv_def live_socket_def)
  then show ?thesis
    unfolding timer_fires(2) using timer_fires by (intro stream_inv_connect) simp_all
next
  case (frame_arrives data now)
  then show ?thesis
    using assms(1) by (auto simp: on_message_def stream_inv_def live_socket_def split: option.split)
next
  case (socket_closes code now)
  let ?s = "flush now (s\<lparr>sm_socket := Some Closed\<rparr>)"
  have timer: "sm_timer s = None" using socket_closes assms(1) by (auto simp: stream_inv_def live_socket_def)
  then have "stream_inv (schedule_reconnect ?s)"
    using socket_closes by (intro stream_inv_schedule) (simp_all add: live_socket_def)
  then show ?thesis
    using socket_closes timer
    by (auto simp: on_close_def Let_def) (auto simp: stream_inv_def live_socket_def set_status_def)
qed (use assms(1) in \<open>auto simp: stream_inv_def live_socket_def on_open_def on_error_def dispose_def
       set_status_def set_error_def touch_def split: option.split\<close>)

lemma reachable_stream_inv: "reachable_stream as_message admits s \<Longrightarrow> stream_inv s"
proof (induction rule: reachable_stream.induct)
  case (mounted runId opens st)
  show ?case unfolding mount_def by (rule stream_inv_connect) (simp_all add: live_socket_def)
qed (rule stream_inv_step)

lemma backoff_bounds: "BASE_BACKOFF_MS \<le> backoff n" "backoff n \<le> MAX_BACKOFF_MS"
proof -
  have "1 * BASE_BACKOFF_MS \<le> 2 ^ (n - 1) * BASE_BACKOFF_MS"
    by (rule mult_right_mono) (simp_all add: BASE_BACKOFF_MS_def)
  then show "BASE_BACKOFF_MS \<le> backoff n"
    by (simp add: backoff_def MAX_BACKOFF_MS_def BASE_BACKOFF_MS_def)
  show "backoff n \<le> MAX_BACKOFF_MS" by (simp add: backoff_def)
qed

lemma backoff_mono: "m \<le> n \<Longrightarrow> backoff m \<le> backoff n"
  unfolding backoff_def
  by (intro min.mono order_refl mult_left_mono power_increasing) (simp_all add: BASE_BACKOFF_MS_def)


text \<open>A reader of frames for the examples: the message a frame holds is named by its type.\<close>

definition example_message :: "jsval \<Rightarrow> stream_message" where
  "example_message v =
     (case v of
        Obj [(_, Str t), (_, Num (Fin n))] \<Rightarrow>
          if t = ''event'' then Event (event_no (floor n) ''arrived'')
          else if t = ''telemetry'' then Telemetry [sample_no n]
          else if t = ''run_finished'' then Run_finished \<lparr>mf_simulation_time = n\<rparr>
          else if t = ''heartbeat'' then Heartbeat else Other_message
      | _ \<Rightarrow> Other_message)"

definition example_frame :: "string \<Rightarrow> rat \<Rightarrow> frame" where
  "example_frame t n = Text_frame (Some (Obj [(''type'', Str t), (''value'', Num (Fin n))]))"

lemma parse_example_frame [simp]:
  "parse_message as_message (example_frame t n)
     = Some (as_message (Obj [(''type'', Str t), (''value'', Num (Fin n))]))"
  by (simp add: example_frame_def parse_message_def has_type_def)

definition dropped_stream :: stream where
  "dropped_stream = on_close 1006 0 ((mount ''run-1'' True EMPTY)\<lparr>sm_socket := Some Closed\<rparr>)"

lemma dropped_stream_reachable:
  "reachable_stream as_message anything dropped_stream"
  unfolding dropped_stream_def
  by (rule reachable_stream.stepped [OF reachable_stream.mounted stream_step.socket_closes])
     (simp_all add: mount_def connect_def)

lemma dropped_stream_timer: "sm_timer dropped_stream = Some 750"
  by (simp add: dropped_stream_def mount_def connect_def on_close_def flush_def
      schedule_reconnect_def start_def set_status_def EMPTY_def backoff_def BASE_BACKOFF_MS_def
      MAX_BACKOFF_MS_def Let_def)


section \<open>Nothing is lost between the socket and the store\<close>

definition receives :: "(jsval \<Rightarrow> stream_message) \<Rightarrow> stream_event \<Rightarrow> run_event list" where
  "receives as_message e = (case delivers as_message e of Some (Event ev) \<Rightarrow> [ev] | _ \<Rightarrow> [])"

definition is_snapshot :: "(jsval \<Rightarrow> stream_message) \<Rightarrow> stream_event \<Rightarrow> bool" where
  "is_snapshot as_message e = (case delivers as_message e of Some (Snapshot _) \<Rightarrow> True | _ \<Rightarrow> False)"

text \<open>The events of the store after the next flush.\<close>

definition pending_events :: "stream \<Rightarrow> run_event list" where
  "pending_events s = merge_events MAX_EVENTS (lv_events (sm_store s)) (sm_event_buffer s)"

lemma merge_events_Nil [simp]: "merge_events cap c [] = c"
  by (simp add: merge_events_def)

lemma pending_flush [simp]: "pending_events (flush now s) = pending_events s"
  by (simp add: pending_events_def flush_def ingest_def Let_def)

lemma flushed_events:
  "lv_events (sm_store (flush now s)) = pending_events s" "sm_event_buffer (flush now s) = []"
  by (auto simp: pending_events_def flush_def ingest_def Let_def)

lemma pending_control [simp]:
  "pending_events (schedule_reconnect s) = pending_events s"
  "pending_events (connect opens s) = pending_events s"
  "pending_events (stale_check now s) = pending_events s"
  "pending_events (on_open now s) = pending_events s"
  "pending_events (on_error s) = pending_events s"
  "pending_events (on_close code now s) = pending_events s"
  "pending_events (dispose s) = pending_events s"
  "pending_events (s\<lparr>sm_timer := tm\<rparr>) = pending_events s"
  "pending_events (s\<lparr>sm_socket := so\<rparr>) = pending_events s"
proof -
  have sched: "pending_events (schedule_reconnect s) = pending_events s" for s
    by (simp add: pending_events_def schedule_reconnect_def set_status_def Let_def)
  show "pending_events (schedule_reconnect s) = pending_events s" by (rule sched)
  show "pending_events (connect opens s) = pending_events s"
    by (simp add: connect_def sched Let_def) (simp add: pending_events_def set_status_def set_error_def)
  have "pending_events (on_store (set_status x) s) = pending_events s" for x s
    by (simp add: pending_events_def set_status_def)
  moreover have "pending_events (on_store (\<lambda>st. set_status x (set_error e st)) s) = pending_events s" for x e s
    by (simp add: pending_events_def set_status_def set_error_def)
  ultimately show "pending_events (on_close code now s) = pending_events s"
    by (simp add: on_close_def sched Let_def)
qed (simp_all add: pending_events_def stale_check_def on_open_def on_error_def dispose_def
       set_status_def set_error_def touch_def split: option.split)

lemma pending_step:
  assumes "events_history (sm_store s)" "stream_step as_message s e t" "\<not> is_snapshot as_message e"
  shows "pending_events t = merge_events MAX_EVENTS (pending_events s) (receives as_message e)"
  using assms(2)
proof cases
  case (frame_arrives data now)
  have h: "history ev_sequence MAX_EVENTS (lv_events (sm_store s))"
    using assms(1) by (simp add: events_history_def)
  have snoc: "merge_events MAX_EVENTS (lv_events (sm_store s)) (sm_event_buffer s @ [ev])
      = merge_events MAX_EVENTS (pending_events s) [ev]" for ev
    unfolding pending_events_def
    by (rule events.merge_batches [OF h TrueI TrueI TrueI, symmetric])
  show ?thesis
  proof (cases "parse_message as_message data")
    case None
    then show ?thesis
      using frame_arrives by (simp add: on_message_def receives_def delivers_def)
  next
    case (Some m)
    have "pending_events (handle m now s)
        = merge_events MAX_EVENTS (pending_events s) (case m of Event ev \<Rightarrow> [ev] | _ \<Rightarrow> [])"
      if "\<nexists>sn. m = Snapshot sn"
      using that snoc
    proof (cases m)
      case (Run_finished f)
      have "pending_events (on_store (apply_run_finished f now) s) = pending_events s" for s
        by (simp add: pending_events_def apply_run_finished_def)
      with Run_finished show ?thesis by simp
    next
      case (Completed c)
      have "pending_events ((on_store (apply_completed c now) s)\<lparr>sm_completed := n\<rparr>) = pending_events s" for s n
        by (simp add: pending_events_def apply_completed_def)
      with Completed show ?thesis by simp
    qed (auto simp: pending_events_def touch_def apply_lifecycle_def set_status_def Let_def)
    with Some show ?thesis
      using frame_arrives assms(3)
      by (cases m) (simp_all add: on_message_def receives_def delivers_def is_snapshot_def)
  qed
qed (simp_all add: receives_def delivers_def)

lemma batches_ok_True [simp]: "batches_ok (\<lambda>_. True) as_message s e"
  by (simp add: batches_ok_def split: option.split stream_message.split)

lemma reachable_events_history:
  assumes "reachable_stream as_message anything s"
  shows "events_history (sm_store s)"
proof -
  have "batches_ok (\<lambda>_. True) as_message = anything" by (intro ext) simp
  then show ?thesis using live_events.good_reachable [of as_message s] assms by simp
qed

lemma reachable_steps:
  "stream_steps as_message s es t \<Longrightarrow> reachable_stream as_message anything s
     \<Longrightarrow> reachable_stream as_message anything t"
  by (induction rule: stream_steps.induct) (auto intro: reachable_stream.stepped)

text \<open>
  C2. Between two snapshots no event is lost or doubled, however the flush timer, the
  connection and the messages interleave: after the next flush the store holds what it held,
  merged with every event received since, in order of arrival.
\<close>

theorem no_event_lost:
  assumes "reachable_stream as_message anything s" "stream_steps as_message s es t"
    and "\<forall>e \<in> set es. \<not> is_snapshot as_message e"
  shows "lv_events (sm_store (flush now t))
    = merge_events MAX_EVENTS (lv_events (sm_store (flush now s))) (concat (map (receives as_message) es))"
proof -
  have "pending_events t = merge_events MAX_EVENTS (pending_events s) (concat (map (receives as_message) es))"
    using assms(2,1,3)
  proof (induction rule: stream_steps.induct)
    case (nil s)
    show ?case by simp
  next
    case (cons s e t es u)
    have h: "events_history (sm_store s)" using cons.prems(1) by (rule reachable_events_history)
    have "reachable_stream as_message anything t"
      using cons.prems(1) cons.hyps(1) by (auto intro: reachable_stream.stepped)
    with cons have "pending_events u
        = merge_events MAX_EVENTS (pending_events t) (concat (map (receives as_message) es))" by simp
    also have "pending_events t = merge_events MAX_EVENTS (pending_events s) (receives as_message e)"
      using cons by (intro pending_step h) simp_all
    also have "merge_events MAX_EVENTS \<dots> (concat (map (receives as_message) es))
        = merge_events MAX_EVENTS (pending_events s) (receives as_message e @ concat (map (receives as_message) es))"
    proof (rule events.merge_batches)
      show "history ev_sequence MAX_EVENTS (pending_events s)"
        using h by (simp add: pending_events_def events_history_def history_merge_events)
    qed simp_all
    finally show ?case by simp
  qed
  then show ?thesis by (simp add: flushed_events)
qed

definition open_stream :: stream where
  "open_stream = on_open 1 ((mount ''run-1'' True EMPTY)\<lparr>sm_socket := Some Open\<rparr>)"

lemma open_stream_reachable: "reachable_stream as_message anything open_stream"
  unfolding open_stream_def
  by (rule reachable_stream.stepped [OF reachable_stream.mounted stream_step.socket_opens])
     (simp_all add: mount_def connect_def)

lemma open_stream_simps [simp]:
  "sm_socket open_stream = Some Open" "\<not> sm_disposed open_stream" "sm_event_buffer open_stream = []"
  "sm_sample_buffer open_stream = []" "lv_events (sm_store open_stream) = []"
  "lv_status (sm_store open_stream) = CS_live" "\<not> lv_finished (sm_store open_stream)"
  "sm_completed open_stream = 0" "lv_run (sm_store open_stream) = None"
  "lv_last_message_at (sm_store open_stream) = Some 1"
  by (simp_all add: open_stream_def on_open_def mount_def connect_def start_def EMPTY_def
      set_status_def set_error_def touch_def)

lemma open_stream_event:
  "stream_step example_message open_stream (Frame_arrives (example_frame ''event'' 4) 2)
     (on_message example_message (example_frame ''event'' 4) 2 open_stream)"
  by (rule stream_step.frame_arrives) simp_all

theorem no_event_lost_witness:
  "map ev_sequence (lv_events (sm_store (flush 3
     (on_message example_message (example_frame ''event'' 4) 2 open_stream)))) = [4]"
proof -
  have steps: "stream_steps example_message open_stream [Frame_arrives (example_frame ''event'' 4) 2]
     (on_message example_message (example_frame ''event'' 4) 2 open_stream)"
    by (rule stream_steps.cons [OF open_stream_event stream_steps.nil])
  have "lv_events (sm_store (flush 3
      (on_message example_message (example_frame ''event'' 4) 2 open_stream)))
    = merge_events MAX_EVENTS (lv_events (sm_store (flush 3 open_stream)))
        (concat (map (receives example_message) [Frame_arrives (example_frame ''event'' 4) 2]))"
    by (rule no_event_lost [OF open_stream_reachable steps])
       (simp add: is_snapshot_def delivers_def example_message_def)
  also have "\<dots> = [event_no 4 ''arrived'']"
    by (simp add: receives_def delivers_def example_message_def flush_def merge_events_def MAX_EVENTS_def)
  finally show ?thesis by (simp add: event_no_def)
qed



text \<open>
  A snapshot replaces the events of the client, buffered ones included, by its own: what
  the client held before does not matter.
\<close>

theorem snapshot_replaces_events:
  assumes "delivers as_message (Frame_arrives data now) = Some (Snapshot m)" "sm_socket s = Some Open"
    and "stream_step as_message s (Frame_arrives data now) t"
  shows "pending_events t = merge_events MAX_EVENTS [] (sn_events m)
    \<and> sm_event_buffer t = [] \<and> sm_sample_buffer t = []
    \<and> lv_latest (sm_store t) = at_last (sn_telemetry m)"
  using assms
  by (auto elim!: stream_stepE simp: delivers_def on_message_def pending_events_def apply_snapshot_def
      set_status_def flush_def Let_def)

definition run_example :: run_detail where
  "run_example =
     \<lparr>rs_id = ''run-1'', rs_adapter = ''mock'', rs_created_at = ''2026-01-01T00:00:00Z'',
      rs_ended_at = None, rs_event_count = 2, rs_hard_gate_result = None, rs_label = [],
      rs_last_simulation_time = 2, rs_mission_complete = False, rs_reason = [],
      rs_replay_source_run_id = None, rs_resilience_score = None, rs_result = None,
      rs_runner_id = Some ''runner-dev'', rs_sample_count = 2, rs_scenario_hash = ''sha256:abc'',
      rs_scenario_name = ''compound-degradation'', rs_scenario_version = ''1'', rs_seed = 42,
      rs_speed = 1, rs_started_at = Some ''2026-01-01T00:00:01Z'', rs_state = RS_RUNNING,
      rs_summary = None, rs_updated_at = ''2026-01-01T00:00:02Z'', rs_vehicle = ''x500'',
      rd_artifacts = [], rd_planned_path = None, rd_provenance = [], rd_report_available = False,
      rd_scenario_document = []\<rparr>"

definition snapshot_example :: stream_snapshot where
  "snapshot_example =
     \<lparr>sn_run = run_example, sn_events = [event_no 7 ''from the server''],
      sn_telemetry = [sample_no 1, sample_no 2]\<rparr>"

definition held_stream :: stream where
  "held_stream = open_stream\<lparr>sm_event_buffer := [event_no 3 ''held'']\<rparr>"

theorem snapshot_replaces_events_witness:
  "map ev_sequence (pending_events held_stream) = [3]
   \<and> map ev_sequence (pending_events
        (on_message (\<lambda>_. Snapshot snapshot_example) (example_frame ''snapshot'' 0) 5 held_stream)) = [7]"
proof -
  have "pending_events (on_message (\<lambda>_. Snapshot snapshot_example) (example_frame ''snapshot'' 0) 5 held_stream)
      = merge_events MAX_EVENTS [] (sn_events snapshot_example)"
    by (rule snapshot_replaces_events [of "\<lambda>_. Snapshot snapshot_example" "example_frame ''snapshot'' 0" 5
          snapshot_example held_stream, THEN conjunct1])
       (auto simp: delivers_def held_stream_def intro!: stream_step.frame_arrives)
  then show ?thesis
    by (simp add: merge_events_def snapshot_example_def MAX_EVENTS_def held_stream_def pending_events_def event_no_def)
qed

text \<open>
  C27. A pending reconnect can always succeed: when the timeout fires and the socket opens, the
  stream is live again with its backoff reset and no error, and no pending event is lost.
\<close>

theorem reconnect_recovers:
  assumes "reachable_stream as_message anything s" "sm_timer s \<noteq> None"
  shows "\<exists>t. stream_steps as_message s [Timer_fires True, Socket_opens now] t
    \<and> lv_status (sm_store t) = CS_live \<and> sm_attempt t = 0 \<and> lv_error (sm_store t) = None
    \<and> sm_socket t = Some Open \<and> pending_events t = pending_events s"
proof -
  have s: "\<not> sm_disposed s" using reachable_stream_inv [OF assms(1)] assms(2) by (auto simp: stream_inv_def)
  define u where "u = connect True (s\<lparr>sm_timer := None\<rparr>)"
  define t where "t = on_open now (u\<lparr>sm_socket := Some Open\<rparr>)"
  have "stream_step as_message s (Timer_fires True) u"
    unfolding u_def using s assms(2) by (rule stream_step.timer_fires)
  moreover have "stream_step as_message u (Socket_opens now) t"
    unfolding t_def using s by (intro stream_step.socket_opens) (simp_all add: u_def connect_def)
  ultimately have steps: "stream_steps as_message s [Timer_fires True, Socket_opens now] t"
    by (intro stream_steps.cons [OF _ stream_steps.cons [OF _ stream_steps.nil]])
  have "lv_status (sm_store t) = CS_live \<and> sm_attempt t = 0 \<and> lv_error (sm_store t) = None
      \<and> sm_socket t = Some Open"
    by (simp add: t_def on_open_def set_status_def set_error_def touch_def)
  moreover have "pending_events t = pending_events s" by (simp add: t_def u_def)
  ultimately show ?thesis using steps by blast
qed

theorem reconnect_recovers_witness:
  "\<exists>t. stream_steps example_message dropped_stream [Timer_fires True, Socket_opens 800] t
    \<and> lv_status (sm_store t) = CS_live"
  using reconnect_recovers [OF dropped_stream_reachable [of example_message], of 800] dropped_stream_timer by auto

definition is_data :: "(jsval \<Rightarrow> stream_message) \<Rightarrow> stream_event \<Rightarrow> bool" where
  "is_data as_message e =
     (case e of
        Flush_tick _ \<Rightarrow> True
      | Stale_tick _ \<Rightarrow> True
      | Frame_arrives data _ \<Rightarrow>
          (case parse_message as_message data of
             Some (Event _) \<Rightarrow> True | Some (Telemetry _) \<Rightarrow> True | Some (Lifecycle _) \<Rightarrow> True | _ \<Rightarrow> False)
      | _ \<Rightarrow> False)"

lemma stale_step:
  assumes "stream_step as_message s e t" "is_data as_message e" "lv_status (sm_store s) = CS_stale"
  shows "lv_status (sm_store t) = CS_stale"
  using assms(1)
proof cases
  case (frame_arrives data now)
  have h: "lv_status (sm_store (handle m now s)) = CS_stale"
    if "case m of Event _ \<Rightarrow> True | Telemetry _ \<Rightarrow> True | Lifecycle _ \<Rightarrow> True | _ \<Rightarrow> False" for m
    using that assms(3) by (cases m) (simp_all add: touch_def apply_lifecycle_def)
  show ?thesis
    using frame_arrives assms(2,3) h
    by (auto simp: on_message_def is_data_def split: option.splits)
qed (use assms in \<open>auto simp: is_data_def\<close>)


definition stale_stream :: stream where
  "stale_stream = stale_check 40000 open_stream"


text \<open>The only steps of a stream without a socket and without a pending timeout.\<close>

definition given_up :: "stream \<Rightarrow> bool" where
  "given_up s \<longleftrightarrow> sm_timer s = None \<and> \<not> live_socket s"

lemma given_up_step:
  assumes "given_up s" "stream_step as_message s e t"
  shows "given_up t \<and> sm_completed t = sm_completed s \<and> lv_run (sm_store t) = lv_run (sm_store s)"
  using assms(2,1)
  by cases (auto simp: given_up_def live_socket_def stale_check_def flush_def ingest_def dispose_def
      set_status_def Let_def split: option.splits)

lemma given_up_steps:
  "stream_steps as_message s es t \<Longrightarrow> given_up s \<Longrightarrow>
     given_up t \<and> sm_completed t = sm_completed s \<and> lv_run (sm_store t) = lv_run (sm_store s)"
  by (induction rule: stream_steps.induct) (auto dest: given_up_step)



end
