(* ===== verification/JSNumOrder.thy ===== *)
theory JSNumOrder
  imports JSNumText JSPrelude
begin

text \<open>
  The order of JavaScript numbers, and why a comparator that subtracts doubles orders by value:
  the difference of two distinct doubles never rounds to zero.
\<close>

section \<open>Differences of doubles\<close>

lemma fl_multiple: "\<exists>n. fl x = of_int n * pow2 (-1074)"
proof (cases "x = 0")
  case True
  then show ?thesis by (intro exI [of _ 0]) simp
next
  case False
  define j where "j = nat (max (binexp \<bar>x\<bar>) (-1022) + 1022)"
  have "max (binexp \<bar>x\<bar>) (-1022) - 52 = int j + (-1074)" by (simp add: j_def max_def)
  then have "ulp (binexp \<bar>x\<bar>) = 2 ^ j * pow2 (-1074)"
    by (simp only: ulp_def pow2_add pow2_nat)
  then have "fl x = of_int (round_half_even (x / ulp (binexp \<bar>x\<bar>)) * 2 ^ j) * pow2 (-1074)"
    using False by (simp add: fl_def Let_def)
  then show ?thesis by blast
qed

text \<open>The difference of two doubles is not rounded to zero.\<close>

lemma fl_diff_pos: "fl a < fl b \<Longrightarrow> 0 < fl (fl b - fl a)"
proof -
  assume less: "fl a < fl b"
  obtain m n where mn: "fl a = of_int m * pow2 (-1074)" "fl b = of_int n * pow2 (-1074)"
    using fl_multiple by blast
  then have diff: "fl b - fl a = of_int (n - m) * pow2 (-1074)" by (simp add: algebra_simps)
  have "m < n" using less mn by simp
  then have "1 * pow2 (-1074) \<le> of_int (n - m) * pow2 (-1074)"
    by (intro mult_right_mono) simp_all
  then have "fl (pow2 (-1074)) \<le> fl (fl b - fl a)"
    unfolding diff by (intro fl_mono) simp
  moreover have "fl (pow2 (-1074)) = pow2 (-1074)"
    using fl_exact [of 1 "-1074"] by simp
  ultimately show ?thesis by (metis less_le_trans pow2_pos)
qed

lemma fl_diff_neg: "fl b < fl a \<Longrightarrow> fl (fl b - fl a) < 0"
  using fl_diff_pos [of b a] fl_minus [of "fl a - fl b"] by simp

text \<open>Rounding is idempotent.\<close>

lemma fl_idem_pos:
  assumes "0 < x"
  shows "fl (fl x) = fl x"
proof -
  define e where "e = max (binexp x) (-1022)"
  define r where "r = round_half_even (x / ulp (binexp x))"
  have u: "ulp (binexp x) = pow2 (e - 52)" by (simp add: ulp_def e_def)
  have x: "fl x = of_int r * pow2 (e - 52)"
    using assms by (simp add: fl_def Let_def r_def u)
  have "fl x \<le> pow2 (e + 1)" using assms by (intro fl_upper) (simp_all add: e_def)
  also have "pow2 (e + 1) = pow2 53 * pow2 (e - 52)"
    by (simp add: add.commute flip: pow2_add)
  also have "pow2 53 = of_int (2 ^ 53)" by (simp add: pow2_def)
  finally have "r \<le> 2 ^ 53" unfolding x by (simp only: mult_le_cancel_right_pos pow2_pos of_int_le_iff)
  moreover have "0 \<le> r"
    using fl_nonneg [of x] assms pow2_pos [of "e - 52"] unfolding x
    by (auto simp: zero_le_mult_iff not_le [symmetric])
  ultimately have "fl (of_int r * pow2 (e - 52)) = of_int r * pow2 (e - 52)"
    by (intro fl_exact) (simp_all add: e_def max_def)
  then show ?thesis by (simp only: x)
qed

lemma fl_idem [simp]: "fl (fl x) = fl x"
proof -
  consider "0 < x" | "x = 0" | "0 < - x" by linarith
  then show ?thesis
  proof cases
    case 3
    then have "fl (fl (- x)) = fl (- x)" by (rule fl_idem_pos)
    then show ?thesis by (simp add: fl_minus)
  qed (simp_all add: fl_idem_pos)
qed

section \<open>The order of numbers\<close>

fun num_rank :: "jsnum \<Rightarrow> int" where
  "num_rank NaN = 0"
| "num_rank NegInf = 1"
| "num_rank (Fin x) = 2"
| "num_rank PosInf = 3"

text \<open>Numbers by value, with NaN below all others.\<close>

fun num_le :: "jsnum \<Rightarrow> jsnum \<Rightarrow> bool" where
  "num_le (Fin x) (Fin y) = (x \<le> y)"
| "num_le x y = (num_rank x \<le> num_rank y)"

instantiation jsnum :: linorder
begin

definition less_eq_jsnum :: "jsnum \<Rightarrow> jsnum \<Rightarrow> bool" where
  "less_eq_jsnum = num_le"

definition less_jsnum :: "jsnum \<Rightarrow> jsnum \<Rightarrow> bool" where
  "less_jsnum x y = (num_le x y \<and> \<not> num_le y x)"

instance
proof
  fix x y z :: jsnum
  show "x < y \<longleftrightarrow> x \<le> y \<and> \<not> y \<le> x" by (simp add: less_eq_jsnum_def less_jsnum_def)
  show "x \<le> x" by (cases x) (simp_all add: less_eq_jsnum_def)
  show "x \<le> z" if "x \<le> y" "y \<le> z"
    using that by (cases x; cases y; cases z) (simp_all add: less_eq_jsnum_def)
  show "x = y" if "x \<le> y" "y \<le> x"
    using that by (cases x; cases y) (simp_all add: less_eq_jsnum_def)
  show "x \<le> y \<or> y \<le> x"
    by (cases x; cases y) (auto simp: less_eq_jsnum_def)
qed

end

lemma less_jsnum_simps [simp]:
  "Fin x < Fin y \<longleftrightarrow> x < y" "Fin x < PosInf" "\<not> PosInf < a" "Fin x \<le> Fin y \<longleftrightarrow> x \<le> y"
  "Fin x \<le> PosInf" "\<not> PosInf \<le> Fin x"
  by (auto simp: less_jsnum_def less_eq_jsnum_def) (cases a; simp)+

text \<open>The times of the model: doubles, possibly infinite.\<close>

definition is_double :: "jsnum \<Rightarrow> bool" where
  "is_double n \<longleftrightarrow> n = PosInf \<or> (\<exists>z. n = Fin (fl z))"

lemma num_sgn_to_num: "num_sgn (to_num x) = (if 0 < fl x then 1 else if fl x < 0 then - 1 else 0)"
  by (auto simp: to_num_def Let_def)

lemma num_sgn_sub:
  assumes "is_double a" "is_double b"
  shows "num_sgn (num_sub a b) = (if a < b then - 1 else if b < a then 1 else 0)"
proof -
  have "num_sgn (num_sub (Fin (fl x)) (Fin (fl y))) = (if fl x < fl y then - 1 else if fl y < fl x then 1 else 0)"
    for x y
    using fl_diff_pos [of y x] fl_diff_neg [of x y]
    by (cases "fl x = fl y") (auto simp: num_sub_def num_sgn_to_num num_eval)
  then show ?thesis
    using assms by (auto simp: is_double_def num_sub_def num_eval num_sgn_to_num)
qed

section \<open>Doubles are closed under the operations\<close>

lemma is_double_to_num: "0 \<le> x \<Longrightarrow> is_double (to_num x)"
  using fl_nonneg [of x] by (auto simp: to_num_def is_double_def Let_def)

text \<open>Doubles that are not negative.\<close>

definition is_amount :: "jsnum \<Rightarrow> bool" where
  "is_amount n \<longleftrightarrow> n = PosInf \<or> (\<exists>z \<ge> 0. n = Fin (fl z))"

lemma is_amount_double: "is_amount n \<Longrightarrow> is_double n"
  by (auto simp: is_amount_def is_double_def)

lemma is_amount_cases: "is_amount n \<Longrightarrow> n = PosInf \<or> (\<exists>x \<ge> 0. n = Fin x)"
  using fl_nonneg by (auto simp: is_amount_def)

lemma is_amount_to_num: "0 \<le> x \<Longrightarrow> is_amount (to_num x)"
  using fl_nonneg [of x] by (auto simp: to_num_def is_amount_def Let_def)

lemma is_amount_0: "is_amount (Fin 0)"
  using is_amount_def fl_0 by (metis order_refl)

lemma is_amount_add: "is_amount a \<Longrightarrow> is_amount b \<Longrightarrow> is_amount (num_add a b)"
  using is_amount_cases [of a] is_amount_cases [of b]
  by (auto simp: is_amount_to_num num_eval)

lemma is_amount_mul: "is_amount a \<Longrightarrow> 0 < c \<Longrightarrow> is_amount (num_mul a (Fin c))"
  using is_amount_cases [of a]
  by (auto simp: is_amount_to_num num_eval)

lemma is_amount_div: "is_amount a \<Longrightarrow> 0 < c \<Longrightarrow> is_amount (num_div a c)"
  using is_amount_cases [of a]
  by (auto simp: is_amount_to_num num_eval)

section \<open>Comparators on a set\<close>

lemma sort_insert_cong:
  fixes c1 :: "'a \<Rightarrow> 'a \<Rightarrow> 'm::linordered_idom" and c2 :: "'a \<Rightarrow> 'a \<Rightarrow> 'n::linordered_idom"
  assumes "\<And>y. y \<in> set ys \<Longrightarrow> c1 x y \<le> 0 \<longleftrightarrow> c2 x y \<le> 0"
  shows "sort_insert c1 x ys = sort_insert c2 x ys"
  using assms by (induction ys) auto

lemma js_sort_cong:
  fixes c1 :: "'a \<Rightarrow> 'a \<Rightarrow> 'm::linordered_idom" and c2 :: "'a \<Rightarrow> 'a \<Rightarrow> 'n::linordered_idom"
  assumes "\<And>x y. x \<in> set xs \<Longrightarrow> y \<in> set xs \<Longrightarrow> c1 x y \<le> 0 \<longleftrightarrow> c2 x y \<le> 0"
  shows "js_sort c1 xs = js_sort c2 xs"
  using assms
proof (induction xs)
  case Nil
  show ?case by simp
next
  case (Cons x xs)
  then have "js_sort c1 xs = js_sort c2 xs" by simp
  then show ?case using Cons.prems by (auto intro: sort_insert_cong)
qed

text \<open>Ordering by a key of any linear order, ties broken by a second comparator.\<close>

definition cmp_by :: "('a \<Rightarrow> 'k::linorder) \<Rightarrow> ('a \<Rightarrow> 'a \<Rightarrow> int) \<Rightarrow> 'a \<Rightarrow> 'a \<Rightarrow> int" where
  "cmp_by key g a b = (if key a < key b then - 1 else if key b < key a then 1 else g a b)"

lemma cmp_by_le: "cmp_by key g a b \<le> 0 \<longleftrightarrow> key a < key b \<or> key a = key b \<and> g a b \<le> 0"
  by (auto simp: cmp_by_def)

lemma comparator_cmp_by:
  assumes "comparator g"
  shows "comparator (cmp_by key g)"
proof
  show "cmp_by key g a b \<le> 0 \<or> cmp_by key g b a \<le> 0" for a b
    using comparator.cmp_total [OF assms, of a b] by (auto simp: cmp_by_le)
  show "cmp_by key g a c \<le> 0" if "cmp_by key g a b \<le> 0" "cmp_by key g b c \<le> 0" for a b c
    using that comparator.cmp_trans [OF assms, of a b c] by (auto simp: cmp_by_le)
qed

text \<open>Rounding of numbers of moderate size.\<close>

lemma fl_close:
  assumes "\<bar>x\<bar> \<le> 1048576"
  shows "\<bar>fl x - x\<bar> \<le> 1 / 1000"
proof -
  let ?m = "\<lfloor>x * 1024\<rfloor>"
  have m: "of_int ?m \<le> x * 1024" "x * 1024 \<le> of_int ?m + 1" by linarith+
  have x: "- 1048576 \<le> x" "x \<le> 1048576" using assms by linarith+
  have "of_int (- 1073741824) \<le> x * 1024" "of_int ?m \<le> (of_int 1073741824 :: rat)"
    using m(1) x by simp_all
  then have "- 1073741824 \<le> ?m" "?m \<le> 1073741824" by (simp_all only: le_floor_iff of_int_le_iff)
  moreover have "(1073741825 :: int) \<le> 2 ^ 53" by simp
  ultimately have "\<bar>?m\<bar> \<le> 2 ^ 53" "\<bar>?m + 1\<bar> \<le> 2 ^ 53" by linarith+
  then have ex: "fl (of_int ?m * pow2 (- 10)) = of_int ?m * pow2 (- 10)"
    "fl (of_int (?m + 1) * pow2 (- 10)) = of_int (?m + 1) * pow2 (- 10)"
    by (simp_all del: of_int_add add: fl_exact)
  have p: "pow2 (- 10) = 1 / 1024" by (simp add: pow2_def)
  have lo: "of_int ?m * pow2 (- 10) \<le> x" and hi: "x \<le> of_int (?m + 1) * pow2 (- 10)"
    using m by (simp_all add: p)
  have "of_int ?m * pow2 (- 10) \<le> fl x" "fl x \<le> of_int (?m + 1) * pow2 (- 10)"
    using fl_mono [OF lo] fl_mono [OF hi] by (simp_all only: ex)
  then have "\<bar>fl x - x\<bar> \<le> 1 / 1024"
    using lo hi unfolding p of_int_add of_int_1 distrib_right by linarith
  then show ?thesis by simp
qed

end
