(* ===== verification/ScenarioDocument.thy ===== *)
theory ScenarioDocument
  imports Duration ApiTypes JSNumOrder
begin

text \<open>
  apps/web/src/lib/scenario-document.ts: the draft the Scenario Studio edits, its conversion
  from and to the scenario document, and the schedule of its injections. The js-yaml functions
  are the parameters \<open>load\<close> (\<open>Inl\<close> what it throws: the message of an \<open>Error\<close>, \<open>None\<close> for
  anything else) and \<open>dump\<close>; documents are values built from null, booleans, numbers, strings,
  arrays and objects.
\<close>

section \<open>Drafts\<close>

definition SCENARIO_API_VERSION :: string where
  "SCENARIO_API_VERSION = ''resilient-uas.dev/v1alpha1''"

definition SCENARIO_KIND :: string where
  "SCENARIO_KIND = ''ResilienceScenario''"

datatype adapter_name = Mock | Px4_gazebo | Replay_adapter
datatype mission_type = Waypoint | Hover | Survey
datatype parameter_kind = PK_number | PK_integer | PK_duration | PK_ratio
datatype gnss_loss = G_dead_reckoning | G_hold | G_land
datatype datalink_loss = D_continue | D_hold | D_rtl
datatype compute_loss = C_hold | C_land | C_rtl

fun adapter_name_str :: "adapter_name \<Rightarrow> string" where
  "adapter_name_str Mock = ''mock''"
| "adapter_name_str Px4_gazebo = ''px4-gazebo''"
| "adapter_name_str Replay_adapter = ''replay''"

fun mission_type_str :: "mission_type \<Rightarrow> string" where
  "mission_type_str Waypoint = ''waypoint''"
| "mission_type_str Hover = ''hover''"
| "mission_type_str Survey = ''survey''"

fun gnss_loss_str :: "gnss_loss \<Rightarrow> string" where
  "gnss_loss_str G_dead_reckoning = ''dead_reckoning''"
| "gnss_loss_str G_hold = ''hold''"
| "gnss_loss_str G_land = ''land''"

fun datalink_loss_str :: "datalink_loss \<Rightarrow> string" where
  "datalink_loss_str D_continue = ''continue''"
| "datalink_loss_str D_hold = ''hold''"
| "datalink_loss_str D_rtl = ''rtl''"

fun compute_loss_str :: "compute_loss \<Rightarrow> string" where
  "compute_loss_str C_hold = ''hold''"
| "compute_loss_str C_land = ''land''"
| "compute_loss_str C_rtl = ''rtl''"

record parameter_draft =
  pd_name :: string
  pd_value :: string
  pd_kind :: parameter_kind

record expectation_draft =
  xd_subsystem :: string
  xd_state :: component_state
  xd_within :: string
  xd_description :: string

record event_draft =
  ed_id :: string
  ed_at :: string
  ed_subsystem :: string
  ed_effect :: effect
  ed_duration :: string
  ed_parameters :: "parameter_draft list"
  ed_expect :: "expectation_draft list"
  ed_description :: string

record assertion_draft =
  ad_expression :: string
  ad_severity :: severity
  ad_description :: string

record recovery_draft =
  rc_gnss_loss :: gnss_loss
  rc_datalink_loss :: datalink_loss
  rc_compute_loss :: compute_loss
  rc_hold_timeout :: string
  rc_max_dead_reckoning :: string

record preserved =
  pv_labels :: "jsval obj option"
  pv_configuration :: "jsval obj option"
  pv_waypoints :: "jsval list option"
  pv_profile :: "jsval obj option"
  pv_scoring :: "jsval obj option"

record scenario_draft =
  sd_name :: string
  sd_description :: string
  sd_version :: string
  sd_tags :: "string list"
  sd_adapter :: adapter_name
  sd_vehicle :: string
  sd_mission_type :: mission_type
  sd_timeout :: string
  sd_altitude :: jsnum
  sd_cruise_speed :: jsnum
  sd_recovery :: recovery_draft
  sd_seed :: jsnum
  sd_speed :: jsnum
  sd_telemetry_rate_hz :: jsnum
  sd_events :: "event_draft list"
  sd_assertions :: "assertion_draft list"
  sd_preserved :: preserved

definition RECOVERY_DEFAULTS :: recovery_draft where
  "RECOVERY_DEFAULTS =
     \<lparr>rc_gnss_loss = G_dead_reckoning, rc_datalink_loss = D_continue, rc_compute_loss = C_hold,
      rc_hold_timeout = ''60s'', rc_max_dead_reckoning = ''90s''\<rparr>"

definition nothing_preserved :: preserved where
  "nothing_preserved =
     \<lparr>pv_labels = None, pv_configuration = None, pv_waypoints = None, pv_profile = None,
      pv_scoring = None\<rparr>"

definition empty_draft :: scenario_draft where
  "empty_draft =
     \<lparr>sd_name = [], sd_description = [], sd_version = ''1'', sd_tags = [], sd_adapter = Mock,
      sd_vehicle = ''x500'', sd_mission_type = Waypoint, sd_timeout = ''180s'',
      sd_altitude = Fin 30, sd_cruise_speed = Fin 6, sd_recovery = RECOVERY_DEFAULTS,
      sd_seed = Fin 42, sd_speed = Fin 1, sd_telemetry_rate_hz = Fin 10, sd_events = [],
      sd_assertions = [], sd_preserved = nothing_preserved\<rparr>"

section \<open>Narrowing\<close>

fun is_record :: "jsval \<Rightarrow> bool" where
  "is_record (Obj _) = True"
| "is_record _ = False"

text \<open>The properties of a record, \<open>{}\<close> for another value.\<close>

fun record_of :: "jsval \<Rightarrow> jsval obj" where
  "record_of (Obj ob) = ob"
| "record_of _ = []"

definition as_string :: "jsval \<Rightarrow> string \<Rightarrow> string" where
  "as_string v fallback = (case v of Str s \<Rightarrow> s | Num n \<Rightarrow> num_str n | _ \<Rightarrow> fallback)"

definition as_number :: "jsval \<Rightarrow> jsnum \<Rightarrow> jsnum" where
  "as_number v fallback =
     (case v of
        Num n \<Rightarrow> if is_finite n then n else fallback
      | Str s \<Rightarrow> (let parsed = parse_number s in if is_finite parsed then parsed else fallback)
      | _ \<Rightarrow> fallback)"

fun str_item :: "jsval \<Rightarrow> string option" where
  "str_item (Str s) = Some s"
| "str_item _ = None"

definition as_string_array :: "jsval \<Rightarrow> string list" where
  "as_string_array v = (case v of Arr xs \<Rightarrow> List.map_filter str_item xs | _ \<Rightarrow> [])"

definition as_one_of :: "('a \<Rightarrow> string) \<Rightarrow> jsval \<Rightarrow> 'a list \<Rightarrow> 'a \<Rightarrow> 'a" where
  "as_one_of text v allowed fallback =
     (case v of
        Str s \<Rightarrow> (case find (\<lambda>x. text x = s) allowed of None \<Rightarrow> fallback | Some x \<Rightarrow> x)
      | _ \<Rightarrow> fallback)"

definition COMPONENT_STATES :: "component_state list" where
  "COMPONENT_STATES =
     [NOMINAL, OPERATIONAL, DEGRADED, UNAVAILABLE, FAILED, RECOVERING, RECOVERED, UNKNOWN]"

definition SEVERITIES :: "severity list" where
  "SEVERITIES = [Sev_info, Sev_low, Sev_medium, Sev_high, Sev_critical]"

definition EFFECTS :: "effect list" where
  "EFFECTS =
     [Eff_unavailable, Eff_intermittent, Eff_degraded, Eff_erroneous, Eff_stuck, Eff_restart,
      Eff_crash, Eff_latency, Eff_packet_loss, Eff_resource_pressure, Eff_temporary_disconnect]"

text \<open>\<open>value.filter(isRecord)\<close>, with an empty result for a value that is no array.\<close>

fun record_item :: "jsval \<Rightarrow> jsval obj option" where
  "record_item (Obj ob) = Some ob"
| "record_item _ = None"

definition records_of :: "jsval \<Rightarrow> jsval obj list" where
  "records_of v = (case v of Arr xs \<Rightarrow> List.map_filter record_item xs | _ \<Rightarrow> [])"

definition parameter_drafts :: "jsval \<Rightarrow> parameter_draft list" where
  "parameter_drafts v =
     (case v of
        Obj ob \<Rightarrow> map (\<lambda>(name, raw).
           \<lparr>pd_name = name, pd_value = as_string raw [],
            pd_kind = (case raw of Str _ \<Rightarrow> PK_duration | _ \<Rightarrow> PK_number)\<rparr>) ob
      | _ \<Rightarrow> [])"

definition expectation_draft_of :: "jsval obj \<Rightarrow> expectation_draft" where
  "expectation_draft_of entry =
     \<lparr>xd_subsystem = as_string (obj_get entry ''subsystem'') [],
      xd_state = as_one_of component_state_str (obj_get entry ''state'') COMPONENT_STATES NOMINAL,
      xd_within = as_string (obj_get entry ''within'') ''5s'',
      xd_description = as_string (obj_get entry ''description'') []\<rparr>"

definition expectation_drafts :: "jsval \<Rightarrow> expectation_draft list" where
  "expectation_drafts v = map expectation_draft_of (records_of v)"

definition event_draft_of :: "nat \<Rightarrow> jsval obj \<Rightarrow> event_draft" where
  "event_draft_of index entry =
     (let inject = record_of (obj_get entry ''inject'')
      in \<lparr>ed_id = as_string (obj_get entry ''id'') (''event-'' @ dec (int index + 1)),
          ed_at = as_string (obj_get entry ''at'') ''30s'',
          ed_subsystem = as_string (obj_get inject ''subsystem'') [],
          ed_effect = as_one_of effect_str (obj_get inject ''effect'') EFFECTS Eff_unavailable,
          ed_duration = (case obj_get inject ''duration'' of Str s \<Rightarrow> s | _ \<Rightarrow> []),
          ed_parameters = parameter_drafts (obj_get inject ''parameters''),
          ed_expect = expectation_drafts (obj_get entry ''expect''),
          ed_description = as_string (obj_get entry ''description'') []\<rparr>)"

text \<open>\<open>xs.map((x, index) => f(index, x))\<close>\<close>

definition map_index :: "(nat \<Rightarrow> 'a \<Rightarrow> 'b) \<Rightarrow> 'a list \<Rightarrow> 'b list" where
  "map_index f xs = map (\<lambda>(i, x). f i x) (zip [0..<length xs] xs)"

definition event_drafts :: "jsval \<Rightarrow> event_draft list" where
  "event_drafts v = map_index event_draft_of (records_of v)"

definition assertion_draft_of :: "jsval obj \<Rightarrow> assertion_draft" where
  "assertion_draft_of entry =
     \<lparr>ad_expression = as_string (obj_get entry ''expression'') [],
      ad_severity = as_one_of severity_str (obj_get entry ''severity'') SEVERITIES Sev_medium,
      ad_description = as_string (obj_get entry ''description'') []\<rparr>"

definition assertion_drafts :: "jsval \<Rightarrow> assertion_draft list" where
  "assertion_drafts v = map assertion_draft_of (records_of v)"

section \<open>Parsing\<close>

text \<open>\<open>isRecord(v) && Object.keys(v).length > 0 ? v : absent\<close>, and the same for arrays.\<close>

fun nonempty_record :: "jsval \<Rightarrow> jsval obj option" where
  "nonempty_record (Obj ob) = (if ob \<noteq> [] then Some ob else None)"
| "nonempty_record _ = None"

fun nonempty_array :: "jsval \<Rightarrow> jsval list option" where
  "nonempty_array (Arr xs) = (if xs \<noteq> [] then Some xs else None)"
| "nonempty_array _ = None"

definition recovery_draft_of :: "jsval obj \<Rightarrow> recovery_draft" where
  "recovery_draft_of recovery =
     \<lparr>rc_gnss_loss = as_one_of gnss_loss_str (obj_get recovery ''gnss_loss'')
        [G_dead_reckoning, G_hold, G_land] (rc_gnss_loss RECOVERY_DEFAULTS),
      rc_datalink_loss = as_one_of datalink_loss_str (obj_get recovery ''datalink_loss'')
        [D_continue, D_hold, D_rtl] (rc_datalink_loss RECOVERY_DEFAULTS),
      rc_compute_loss = as_one_of compute_loss_str (obj_get recovery ''compute_loss'')
        [C_hold, C_land, C_rtl] (rc_compute_loss RECOVERY_DEFAULTS),
      rc_hold_timeout = as_string (obj_get recovery ''hold_timeout'')
        (rc_hold_timeout RECOVERY_DEFAULTS),
      rc_max_dead_reckoning = as_string (obj_get recovery ''max_dead_reckoning'')
        (rc_max_dead_reckoning RECOVERY_DEFAULTS)\<rparr>"

definition draft_of_document :: "jsval obj \<Rightarrow> scenario_draft" where
  "draft_of_document parsed =
     (let metadata = record_of (obj_get parsed ''metadata'');
          target = record_of (obj_get parsed ''target'');
          mission = record_of (obj_get parsed ''mission'');
          recovery = record_of (obj_get parsed ''recovery'');
          simulation = record_of (obj_get parsed ''simulation'');
          base = empty_draft
      in \<lparr>sd_name = as_string (obj_get metadata ''name'') [],
          sd_description = as_string (obj_get metadata ''description'') [],
          sd_version = as_string (obj_get metadata ''version'') ''1'',
          sd_tags = as_string_array (obj_get metadata ''tags''),
          sd_adapter = as_one_of adapter_name_str (obj_get target ''adapter'')
            [Mock, Px4_gazebo, Replay_adapter] Mock,
          sd_vehicle = as_string (obj_get target ''vehicle'') ''x500'',
          sd_mission_type = as_one_of mission_type_str (obj_get mission ''type'')
            [Waypoint, Hover, Survey] Waypoint,
          sd_timeout = as_string (obj_get mission ''timeout'') (sd_timeout base),
          sd_altitude = as_number (obj_get mission ''altitude'') (sd_altitude base),
          sd_cruise_speed = as_number (obj_get mission ''cruise_speed'') (sd_cruise_speed base),
          sd_recovery = recovery_draft_of recovery,
          sd_seed = as_number (obj_get simulation ''seed'') (sd_seed base),
          sd_speed = as_number (obj_get simulation ''speed'') (sd_speed base),
          sd_telemetry_rate_hz = as_number (obj_get simulation ''telemetry_rate_hz'')
            (sd_telemetry_rate_hz base),
          sd_events = event_drafts (obj_get parsed ''events''),
          sd_assertions = assertion_drafts (obj_get parsed ''assertions''),
          sd_preserved =
            \<lparr>pv_labels = nonempty_record (obj_get metadata ''labels''),
             pv_configuration = nonempty_record (obj_get target ''configuration''),
             pv_waypoints = nonempty_array (obj_get mission ''waypoints''),
             pv_profile = record_item (obj_get parsed ''profile''),
             pv_scoring = record_item (obj_get parsed ''scoring'')\<rparr>\<rparr>)"

text \<open>\<open>message.split("\n")[0]\<close>\<close>

definition first_line :: "string \<Rightarrow> string" where
  "first_line s = takeWhile (\<lambda>c. c \<noteq> CHR 0x0A) s"

definition parse_scenario_document ::
  "(string \<Rightarrow> string option + jsval) \<Rightarrow> string \<Rightarrow> string + scenario_draft" where
  "parse_scenario_document load text =
     (case load text of
        Inl error \<Rightarrow> Inl (first_line (case error of Some m \<Rightarrow> m | None \<Rightarrow> ''invalid YAML''))
      | Inr (Obj parsed) \<Rightarrow> Inr (draft_of_document parsed)
      | Inr _ \<Rightarrow> Inl ''the document must be a YAML mapping'')"

definition safe_parse_scenario_document ::
  "(string \<Rightarrow> string option + jsval) \<Rightarrow> string option \<Rightarrow> scenario_draft option" where
  "safe_parse_scenario_document load text =
     (case text of
        None \<Rightarrow> None
      | Some t \<Rightarrow> if t = [] then None
                  else (case parse_scenario_document load t of Inl _ \<Rightarrow> None | Inr d \<Rightarrow> Some d))"

section \<open>Generation\<close>

definition parameter_value :: "parameter_draft \<Rightarrow> jsval option" where
  "parameter_value p =
     (let raw = trim (pd_value p)
      in if raw = [] then None
         else if pd_kind p = PK_duration then Some (Str raw)
         else let numeric = parse_number raw in if is_finite numeric then Some (Num numeric) else None)"

text \<open>\<open>if (s) o.k = s\<close> on a fresh key, and the same for an optional value.\<close>

definition text_field :: "string \<Rightarrow> string \<Rightarrow> jsval obj" where
  "text_field k s = (if s = [] then [] else [(k, Str s)])"

fun value_field :: "('a \<Rightarrow> jsval) \<Rightarrow> string \<Rightarrow> 'a option \<Rightarrow> jsval obj" where
  "value_field f k None = []"
| "value_field f k (Some v) = [(k, f v)]"

definition list_field :: "string \<Rightarrow> jsval list \<Rightarrow> jsval obj" where
  "list_field k vs = (if vs = [] then [] else [(k, Arr vs)])"

definition add_parameter :: "jsval obj \<Rightarrow> parameter_draft \<Rightarrow> jsval obj" where
  "add_parameter ob p =
     (case parameter_value p of
        Some v \<Rightarrow> if pd_name p \<noteq> [] then obj_set (pd_name p) v ob else ob
      | None \<Rightarrow> ob)"

definition parameters_object :: "parameter_draft list \<Rightarrow> jsval obj" where
  "parameters_object ps = foldl add_parameter [] ps"

definition injection_block :: "event_draft \<Rightarrow> jsval obj" where
  "injection_block e =
     [(''subsystem'', Str (ed_subsystem e)), (''effect'', Str (effect_str (ed_effect e)))]
     @ text_field ''duration'' (trim (ed_duration e))
     @ (let parameters = parameters_object (ed_parameters e)
        in if parameters = [] then [] else [(''parameters'', Obj parameters)])"

definition expectation_object :: "expectation_draft \<Rightarrow> jsval obj" where
  "expectation_object x =
     [(''subsystem'', Str (xd_subsystem x)), (''state'', Str (component_state_str (xd_state x))),
      (''within'', Str (xd_within x))]
     @ text_field ''description'' (trim (xd_description x))"

definition event_object :: "event_draft \<Rightarrow> jsval obj" where
  "event_object e =
     [(''id'', Str (ed_id e)), (''at'', Str (ed_at e))]
     @ text_field ''description'' (trim (ed_description e))
     @ [(''inject'', Obj (injection_block e))]
     @ list_field ''expect'' (map (\<lambda>x. Obj (expectation_object x)) (ed_expect e))"

definition assertion_object :: "assertion_draft \<Rightarrow> jsval obj" where
  "assertion_object a =
     [(''expression'', Str (ad_expression a)), (''severity'', Str (severity_str (ad_severity a)))]
     @ text_field ''description'' (trim (ad_description a))"

definition metadata_object :: "scenario_draft \<Rightarrow> jsval obj" where
  "metadata_object d =
     [(''name'', Str (sd_name d))]
     @ text_field ''description'' (trim (sd_description d))
     @ [(''version'', Str (if sd_version d = [] then ''1'' else sd_version d))]
     @ value_field Obj ''labels'' (pv_labels (sd_preserved d))
     @ list_field ''tags'' (map Str (sd_tags d))"

definition target_object :: "scenario_draft \<Rightarrow> jsval obj" where
  "target_object d =
     [(''adapter'', Str (adapter_name_str (sd_adapter d))), (''vehicle'', Str (sd_vehicle d))]
     @ value_field Obj ''configuration'' (pv_configuration (sd_preserved d))"

definition mission_object :: "scenario_draft \<Rightarrow> jsval obj" where
  "mission_object d =
     [(''type'', Str (mission_type_str (sd_mission_type d))), (''timeout'', Str (sd_timeout d)),
      (''altitude'', Num (sd_altitude d)), (''cruise_speed'', Num (sd_cruise_speed d))]
     @ value_field Arr ''waypoints'' (pv_waypoints (sd_preserved d))"

definition recovery_object :: "recovery_draft \<Rightarrow> jsval obj" where
  "recovery_object r =
     [(''gnss_loss'', Str (gnss_loss_str (rc_gnss_loss r))),
      (''datalink_loss'', Str (datalink_loss_str (rc_datalink_loss r))),
      (''compute_loss'', Str (compute_loss_str (rc_compute_loss r))),
      (''hold_timeout'', Str (rc_hold_timeout r)),
      (''max_dead_reckoning'', Str (rc_max_dead_reckoning r))]"

definition draft_to_document :: "scenario_draft \<Rightarrow> jsval obj" where
  "draft_to_document d =
     [(''apiVersion'', Str SCENARIO_API_VERSION), (''kind'', Str SCENARIO_KIND),
      (''metadata'', Obj (metadata_object d)), (''target'', Obj (target_object d)),
      (''mission'', Obj (mission_object d)), (''recovery'', Obj (recovery_object (sd_recovery d))),
      (''simulation'', Obj [(''seed'', Num (sd_seed d)), (''speed'', Num (sd_speed d)),
                            (''telemetry_rate_hz'', Num (sd_telemetry_rate_hz d))])]
     @ value_field Obj ''profile'' (pv_profile (sd_preserved d))
     @ list_field ''events'' (map (\<lambda>e. Obj (event_object e)) (sd_events d))
     @ list_field ''assertions'' (map (\<lambda>a. Obj (assertion_object a)) (sd_assertions d))
     @ value_field Obj ''scoring'' (pv_scoring (sd_preserved d))"

definition draft_to_yaml :: "(jsval \<Rightarrow> string) \<Rightarrow> scenario_draft \<Rightarrow> string" where
  "draft_to_yaml dump d = dump (Obj (draft_to_document d))"

section \<open>The schedule\<close>

record scheduled_injection =
  si_id :: string
  si_at :: jsnum
  si_subsystem :: string
  si_effect :: string
  si_duration :: "string option"
  si_description :: string
  si_from_profile :: bool

definition TRANSIENT_EFFECTS :: "string list" where
  "TRANSIENT_EFFECTS = [''restart'', ''crash'']"

text \<open>\<open>s || null\<close>\<close>

definition or_null :: "string \<Rightarrow> string option" where
  "or_null s = (if s = [] then None else Some s)"

definition event_injection :: "event_draft \<Rightarrow> scheduled_injection" where
  "event_injection e =
     \<lparr>si_id = ed_id e, si_at = nullish (parse_duration (ed_at e)) (Fin 0),
      si_subsystem = ed_subsystem e, si_effect = effect_str (ed_effect e),
      si_duration = or_null (ed_duration e), si_description = ed_description e,
      si_from_profile = False\<rparr>"

text \<open>\<open>subsystem.replace(/[._]/g, "-")\<close>\<close>

definition dashed :: "string \<Rightarrow> string" where
  "dashed s = map (\<lambda>c. if c = CHR ''.'' \<or> c = CHR ''_'' then CHR ''-'' else c) s"

definition profile_injection :: "jsval obj \<Rightarrow> string \<times> jsval \<Rightarrow> scheduled_injection option" where
  "profile_injection profile = (\<lambda>(subsystem, behaviour).
     let at_time = nullish (parse_duration (as_string (obj_get profile ''at'') ''0s'')) (Fin 0);
         duration = as_string (obj_get profile ''duration'') [];
         profileName = as_string (obj_get profile ''name'') ''profile''
     in case behaviour of
          Str b \<Rightarrow> if b = ''operational'' then None
            else Some \<lparr>si_id = profileName @ ''-'' @ dashed subsystem,
              si_at = at_time, si_subsystem = subsystem, si_effect = b,
              si_duration = (if b \<in> set TRANSIENT_EFFECTS then None else or_null duration),
              si_description = ''Consequence profile '' @ [CHR 0x27] @ profileName @ [CHR 0x27],
              si_from_profile = True\<rparr>
        | _ \<Rightarrow> None)"

definition profile_schedule :: "jsval obj option \<Rightarrow> scheduled_injection list" where
  "profile_schedule profile =
     (case profile of
        None \<Rightarrow> []
      | Some p \<Rightarrow> (case obj_get p ''effects'' of
            Obj effects \<Rightarrow> List.map_filter (profile_injection p) effects
          | _ \<Rightarrow> []))"

text \<open>\<open>a.at - b.at || a.id.localeCompare(b.id)\<close>: 0 and NaN are falsy, and only the sign counts.\<close>

definition schedule_cmp ::
  "(string \<Rightarrow> string \<Rightarrow> int) \<Rightarrow> scheduled_injection \<Rightarrow> scheduled_injection \<Rightarrow> int" where
  "schedule_cmp collate a b =
     (let delta = num_sgn (num_sub (si_at a) (si_at b))
      in if delta \<noteq> 0 then delta else collate (si_id a) (si_id b))"

definition scenario_schedule ::
  "(string \<Rightarrow> string \<Rightarrow> int) \<Rightarrow> scenario_draft \<Rightarrow> scheduled_injection list" where
  "scenario_schedule collate d =
     js_sort (schedule_cmp collate)
       (map event_injection (sd_events d) @ profile_schedule (pv_profile (sd_preserved d)))"

section \<open>Generating and parsing again\<close>

lemma as_one_of_adapter [simp]:
  "as_one_of adapter_name_str (Str (adapter_name_str x)) [Mock, Px4_gazebo, Replay_adapter] fb = x"
  by (cases x) (simp_all add: as_one_of_def)

lemma as_one_of_mission [simp]:
  "as_one_of mission_type_str (Str (mission_type_str x)) [Waypoint, Hover, Survey] fb = x"
  by (cases x) (simp_all add: as_one_of_def)

lemma as_one_of_gnss [simp]:
  "as_one_of gnss_loss_str (Str (gnss_loss_str x)) [G_dead_reckoning, G_hold, G_land] fb = x"
  by (cases x) (simp_all add: as_one_of_def)

lemma as_one_of_datalink [simp]:
  "as_one_of datalink_loss_str (Str (datalink_loss_str x)) [D_continue, D_hold, D_rtl] fb = x"
  by (cases x) (simp_all add: as_one_of_def)

lemma as_one_of_compute [simp]:
  "as_one_of compute_loss_str (Str (compute_loss_str x)) [C_hold, C_land, C_rtl] fb = x"
  by (cases x) (simp_all add: as_one_of_def)

lemma as_one_of_state [simp]:
  "as_one_of component_state_str (Str (component_state_str x)) COMPONENT_STATES fb = x"
  by (cases x) (simp_all add: as_one_of_def COMPONENT_STATES_def)

lemma as_one_of_severity [simp]:
  "as_one_of severity_str (Str (severity_str x)) SEVERITIES fb = x"
  by (cases x) (simp_all add: as_one_of_def SEVERITIES_def)

lemma as_one_of_effect [simp]:
  "as_one_of effect_str (Str (effect_str x)) EFFECTS fb = x"
  by (cases x) (simp_all add: as_one_of_def EFFECTS_def)

lemma as_string_Str [simp]: "as_string (Str s) fb = s"
  by (simp add: as_string_def)

lemma as_string_Undefined [simp]: "as_string Undefined fb = fb"
  by (simp add: as_string_def)

lemma obj_get_Nil [simp]: "obj_get [] k = Undefined"
  by (simp add: obj_get_def)

lemma obj_get_Cons [simp]: "obj_get ((k', v) # ob) k = (if k = k' then v else obj_get ob k)"
  by (simp add: obj_get_def)

lemma obj_get_text_field [simp]:
  "obj_get (text_field k' s @ ob) k = (if k = k' \<and> s \<noteq> [] then Str s else obj_get ob k)"
  "obj_get (text_field k' s) k = (if k = k' \<and> s \<noteq> [] then Str s else Undefined)"
  by (simp_all add: text_field_def)

lemma obj_get_value_field [simp]:
  "obj_get (value_field f k' v @ ob) k
     = (case v of Some x \<Rightarrow> if k = k' then f x else obj_get ob k | None \<Rightarrow> obj_get ob k)"
  "obj_get (value_field f k' v) k
     = (case v of Some x \<Rightarrow> if k = k' then f x else Undefined | None \<Rightarrow> Undefined)"
  by (cases v; simp)+

lemma obj_get_list_field [simp]:
  "obj_get (list_field k' vs @ ob) k = (if k = k' \<and> vs \<noteq> [] then Arr vs else obj_get ob k)"
  "obj_get (list_field k' vs) k = (if k = k' \<and> vs \<noteq> [] then Arr vs else Undefined)"
  by (simp_all add: list_field_def)

lemma records_of_objects [simp]:
  "records_of (Arr (map (\<lambda>x. Obj (f x)) xs)) = map f xs"
  by (induction xs) (simp_all add: records_of_def List.map_filter_def)

lemma records_of_Undefined [simp]: "records_of Undefined = []"
  by (simp add: records_of_def)

lemma string_array_strings [simp]: "as_string_array (Arr (map Str xs)) = xs"
  by (induction xs) (simp_all add: as_string_array_def List.map_filter_def)

lemma map_index_map: "map_index f (map g xs) = map_index (\<lambda>i x. f i (g x)) xs"
  by (simp add: map_index_def zip_map2 case_prod_unfold)

lemma map_index_const [simp]: "map_index (\<lambda>i. f) xs = map f xs"
proof -
  have "map_index (\<lambda>i. f) xs = map f (map snd (zip [0..<length xs] xs))"
    by (simp add: map_index_def case_prod_unfold del: map_snd_zip)
  then show ?thesis by simp
qed

text \<open>What saving and loading makes of a draft.\<close>

definition saved_parameters :: "parameter_draft list \<Rightarrow> parameter_draft list" where
  "saved_parameters ps = parameter_drafts (Obj (parameters_object ps))"

definition saved_expectation :: "expectation_draft \<Rightarrow> expectation_draft" where
  "saved_expectation x = x\<lparr>xd_description := trim (xd_description x)\<rparr>"

definition saved_event :: "event_draft \<Rightarrow> event_draft" where
  "saved_event e =
     e\<lparr>ed_duration := trim (ed_duration e), ed_description := trim (ed_description e),
       ed_parameters := saved_parameters (ed_parameters e),
       ed_expect := map saved_expectation (ed_expect e)\<rparr>"

definition saved_assertion :: "assertion_draft \<Rightarrow> assertion_draft" where
  "saved_assertion a = a\<lparr>ad_description := trim (ad_description a)\<rparr>"

definition finite_or :: "jsnum \<Rightarrow> jsnum \<Rightarrow> jsnum" where
  "finite_or fb n = (if is_finite n then n else fb)"

definition drop_empty :: "'a list option \<Rightarrow> 'a list option" where
  "drop_empty v = (if v = Some [] then None else v)"

definition saved_draft :: "scenario_draft \<Rightarrow> scenario_draft" where
  "saved_draft d =
     d\<lparr>sd_description := trim (sd_description d),
       sd_version := (if sd_version d = [] then ''1'' else sd_version d),
       sd_altitude := finite_or (Fin 30) (sd_altitude d),
       sd_cruise_speed := finite_or (Fin 6) (sd_cruise_speed d),
       sd_seed := finite_or (Fin 42) (sd_seed d),
       sd_speed := finite_or (Fin 1) (sd_speed d),
       sd_telemetry_rate_hz := finite_or (Fin 10) (sd_telemetry_rate_hz d),
       sd_events := map saved_event (sd_events d),
       sd_assertions := map saved_assertion (sd_assertions d),
       sd_preserved := (sd_preserved d)
         \<lparr>pv_labels := drop_empty (pv_labels (sd_preserved d)),
          pv_configuration := drop_empty (pv_configuration (sd_preserved d)),
          pv_waypoints := drop_empty (pv_waypoints (sd_preserved d))\<rparr>\<rparr>"

lemma as_number_Num [simp]: "as_number (Num n) fb = finite_or fb n"
  by (simp add: as_number_def finite_or_def)

lemma expectation_object_inverse: "expectation_draft_of (expectation_object x) = saved_expectation x"
  by (simp add: expectation_draft_of_def expectation_object_def saved_expectation_def)

lemma expectations_inverse:
  "expectation_drafts (obj_get (list_field ''expect'' (map (\<lambda>x. Obj (expectation_object x)) xs)) ''expect'')
     = map saved_expectation xs"
  by (auto simp: expectation_drafts_def expectation_object_inverse)

lemma parameter_drafts_inject:
  "parameter_drafts (obj_get (let p = ob in if p = [] then [] else [(''parameters'', Obj p)]) ''parameters'')
     = parameter_drafts (Obj ob)"
  by (simp add: parameter_drafts_def)

lemma event_object_inverse: "event_draft_of i (event_object e) = saved_event e"
  by (simp add: event_draft_of_def event_object_def saved_event_def injection_block_def
      saved_parameters_def parameter_drafts_inject [unfolded Let_def] expectations_inverse [simplified]
      expectation_drafts_def expectation_object_inverse Let_def)

lemma assertion_object_inverse: "assertion_draft_of (assertion_object a) = saved_assertion a"
  by (simp add: assertion_draft_of_def assertion_object_def saved_assertion_def)

lemma nonempty_drop_empty:
  "nonempty_record (case v of None \<Rightarrow> Undefined | Some ob \<Rightarrow> Obj ob) = drop_empty v"
  "nonempty_array (case w of None \<Rightarrow> Undefined | Some xs \<Rightarrow> Arr xs) = drop_empty w"
  "record_item (case v of None \<Rightarrow> Undefined | Some ob \<Rightarrow> Obj ob) = v"
  by (auto simp: drop_empty_def split: option.split)

lemma saved_recovery: "recovery_draft_of (recovery_object r) = r"
  by (simp add: recovery_draft_of_def recovery_object_def)

lemma field_inverse:
  "as_string_array (if xs \<noteq> [] then Arr (map Str xs) else Undefined) = xs"
  "records_of (if ys \<noteq> [] then Arr (map (\<lambda>x. Obj (f x)) ys) else Undefined) = map f ys"
  by (auto simp: as_string_array_def [of Undefined])

lemma draft_to_document_fields:
  "obj_get (draft_to_document d) ''metadata'' = Obj (metadata_object d)"
  "obj_get (draft_to_document d) ''target'' = Obj (target_object d)"
  "obj_get (draft_to_document d) ''mission'' = Obj (mission_object d)"
  "obj_get (draft_to_document d) ''recovery'' = Obj (recovery_object (sd_recovery d))"
  "obj_get (draft_to_document d) ''profile''
     = (case pv_profile (sd_preserved d) of None \<Rightarrow> Undefined | Some ob \<Rightarrow> Obj ob)"
  "obj_get (draft_to_document d) ''scoring''
     = (case pv_scoring (sd_preserved d) of None \<Rightarrow> Undefined | Some ob \<Rightarrow> Obj ob)"
  "obj_get (draft_to_document d) ''events''
     = (if sd_events d \<noteq> [] then Arr (map (\<lambda>e. Obj (event_object e)) (sd_events d)) else Undefined)"
  "obj_get (draft_to_document d) ''assertions''
     = (if sd_assertions d \<noteq> [] then Arr (map (\<lambda>a. Obj (assertion_object a)) (sd_assertions d)) else Undefined)"
  "obj_get (draft_to_document d) ''simulation''
     = Obj [(''seed'', Num (sd_seed d)), (''speed'', Num (sd_speed d)),
            (''telemetry_rate_hz'', Num (sd_telemetry_rate_hz d))]"
  by (simp_all add: draft_to_document_def split: option.split)

lemma metadata_fields:
  "obj_get (metadata_object d) ''name'' = Str (sd_name d)"
  "obj_get (metadata_object d) ''description''
     = (if trim (sd_description d) \<noteq> [] then Str (trim (sd_description d)) else Undefined)"
  "obj_get (metadata_object d) ''version'' = Str (if sd_version d = [] then ''1'' else sd_version d)"
  "obj_get (metadata_object d) ''labels''
     = (case pv_labels (sd_preserved d) of None \<Rightarrow> Undefined | Some ob \<Rightarrow> Obj ob)"
  "obj_get (metadata_object d) ''tags'' = (if sd_tags d \<noteq> [] then Arr (map Str (sd_tags d)) else Undefined)"
  by (simp_all add: metadata_object_def split: option.split)

lemma target_fields:
  "obj_get (target_object d) ''adapter'' = Str (adapter_name_str (sd_adapter d))"
  "obj_get (target_object d) ''vehicle'' = Str (sd_vehicle d)"
  "obj_get (target_object d) ''configuration''
     = (case pv_configuration (sd_preserved d) of None \<Rightarrow> Undefined | Some ob \<Rightarrow> Obj ob)"
  by (simp_all add: target_object_def split: option.split)

lemma mission_fields:
  "obj_get (mission_object d) ''type'' = Str (mission_type_str (sd_mission_type d))"
  "obj_get (mission_object d) ''timeout'' = Str (sd_timeout d)"
  "obj_get (mission_object d) ''altitude'' = Num (sd_altitude d)"
  "obj_get (mission_object d) ''cruise_speed'' = Num (sd_cruise_speed d)"
  "obj_get (mission_object d) ''waypoints''
     = (case pv_waypoints (sd_preserved d) of None \<Rightarrow> Undefined | Some xs \<Rightarrow> Arr xs)"
  by (simp_all add: mission_object_def split: option.split)

lemmas document_fields = draft_to_document_fields metadata_fields target_fields mission_fields

lemma description_inverse: "as_string (if s \<noteq> [] then Str s else Undefined) [] = s"
  by simp

lemma document_inverse: "draft_of_document (draft_to_document d) = saved_draft d"
  unfolding draft_of_document_def Let_def
  by (simp add: document_fields saved_draft_def saved_recovery nonempty_drop_empty event_drafts_def
      assertion_drafts_def empty_draft_def map_index_map event_object_inverse
      assertion_object_inverse field_inverse)

text \<open>A draft in the form a saved document loads as.\<close>

definition tidy_parameter :: "parameter_draft \<Rightarrow> bool" where
  "tidy_parameter p \<longleftrightarrow>
     pd_name p \<noteq> [] \<and> \<not> is_index_key (pd_name p) \<and> pd_value p \<noteq> [] \<and> trim (pd_value p) = pd_value p
     \<and> (pd_kind p = PK_duration
        \<or> pd_kind p = PK_number \<and> is_finite (parse_number (pd_value p))
          \<and> num_str (parse_number (pd_value p)) = pd_value p)"

definition tidy_event :: "event_draft \<Rightarrow> bool" where
  "tidy_event e \<longleftrightarrow>
     trim (ed_duration e) = ed_duration e \<and> trim (ed_description e) = ed_description e
     \<and> list_all tidy_parameter (ed_parameters e) \<and> distinct (map pd_name (ed_parameters e))
     \<and> list_all (\<lambda>x. trim (xd_description x) = xd_description x) (ed_expect e)"

definition tidy_draft :: "scenario_draft \<Rightarrow> bool" where
  "tidy_draft d \<longleftrightarrow>
     trim (sd_description d) = sd_description d \<and> sd_version d \<noteq> []
     \<and> list_all is_finite [sd_altitude d, sd_cruise_speed d, sd_seed d, sd_speed d, sd_telemetry_rate_hz d]
     \<and> list_all tidy_event (sd_events d)
     \<and> list_all (\<lambda>a. trim (ad_description a) = ad_description a) (sd_assertions d)
     \<and> pv_labels (sd_preserved d) \<noteq> Some [] \<and> pv_configuration (sd_preserved d) \<noteq> Some []
     \<and> pv_waypoints (sd_preserved d) \<noteq> Some []"

lemma tidy_parameter_value:
  assumes "tidy_parameter p"
  shows "parameter_value p = Some (if pd_kind p = PK_duration then Str (pd_value p)
                                   else Num (parse_number (pd_value p)))"
  using assms by (auto simp: tidy_parameter_def parameter_value_def Let_def)

lemma parameters_object_tidy:
  "list_all tidy_parameter ps \<Longrightarrow> distinct (map pd_name ps) \<Longrightarrow>
     parameters_object ps = map (\<lambda>p. (pd_name p, the (parameter_value p))) ps"
proof (induction ps rule: rev_induct)
  case Nil
  show ?case by (simp add: parameters_object_def)
next
  case (snoc p ps)
  then have p: "tidy_parameter p" and ps: "parameters_object ps = map (\<lambda>p. (pd_name p, the (parameter_value p))) ps"
    by simp_all
  have "parameters_object (ps @ [p]) = add_parameter (parameters_object ps) p"
    by (simp add: parameters_object_def)
  also have "\<dots> = obj_set (pd_name p) (the (parameter_value p)) (parameters_object ps)"
    using p by (simp add: add_parameter_def tidy_parameter_value) (simp add: tidy_parameter_def)
  also have "\<dots> = parameters_object ps @ [(pd_name p, the (parameter_value p))]"
    using p snoc.prems(2) by (intro obj_set_new) (auto simp: ps tidy_parameter_def)
  finally show ?case by (simp add: ps)
qed

lemma saved_parameters_tidy:
  assumes "list_all tidy_parameter ps" "distinct (map pd_name ps)"
  shows "saved_parameters ps = ps"
proof -
  have "saved_parameters ps = map (\<lambda>p. \<lparr>pd_name = pd_name p, pd_value = as_string (the (parameter_value p)) [],
      pd_kind = (case the (parameter_value p) of Str _ \<Rightarrow> PK_duration | _ \<Rightarrow> PK_number)\<rparr>) ps"
    by (simp add: saved_parameters_def parameters_object_tidy [OF assms] parameter_drafts_def)
  also have "\<dots> = map id ps"
  proof (rule map_cong [OF refl])
    fix p assume "p \<in> set ps"
    then have p: "tidy_parameter p" using assms(1) by (simp add: list_all_iff)
    show "\<lparr>pd_name = pd_name p, pd_value = as_string (the (parameter_value p)) [],
      pd_kind = (case the (parameter_value p) of Str _ \<Rightarrow> PK_duration | _ \<Rightarrow> PK_number)\<rparr> = id p"
      using p by (auto simp: tidy_parameter_value as_string_def) (auto simp: tidy_parameter_def)
  qed
  finally show ?thesis by simp
qed

lemma saved_event_tidy: "tidy_event e \<Longrightarrow> saved_event e = e"
  by (simp add: saved_event_def tidy_event_def saved_parameters_tidy list_all_iff
      saved_expectation_def map_idI)

lemma saved_draft_tidy: "tidy_draft d \<Longrightarrow> saved_draft d = d"
  by (simp add: saved_draft_def tidy_draft_def finite_or_def drop_empty_def list_all_iff
      saved_event_tidy saved_assertion_def map_idI)


definition draft_example :: scenario_draft where
  "draft_example =
     empty_draft\<lparr>sd_name := ''gnss-loss'',
       sd_events := [\<lparr>ed_id = ''gnss'', ed_at = ''30s'', ed_subsystem = ''navigation.gnss'',
                      ed_effect = Eff_degraded, ed_duration = ''20s'',
                      ed_parameters = [\<lparr>pd_name = ''noise'', pd_value = ''3'', pd_kind = PK_number\<rparr>],
                      ed_expect = [], ed_description = []\<rparr>],
       sd_preserved := nothing_preserved\<lparr>pv_waypoints := Some [Num (Fin 1)]\<rparr>\<rparr>"

lemma tidy_draft_example: "tidy_draft draft_example"
  by code_simp


text \<open>
  C13. The parts of a document the form does not show survive an edit: the regenerated document
  has the labels, the adapter configuration, the waypoints, the consequence profile and the
  scoring of the parsed one, whatever the user changes in the other fields.
\<close>

theorem hidden_parts_survive:
  assumes "sd_preserved d = sd_preserved (draft_of_document doc)"
  shows "(is_record (obj_get doc ''profile'') \<longrightarrow>
            obj_get (draft_to_document d) ''profile'' = obj_get doc ''profile'')
    \<and> (is_record (obj_get doc ''scoring'') \<longrightarrow>
            obj_get (draft_to_document d) ''scoring'' = obj_get doc ''scoring'')
    \<and> (\<forall>m ob. obj_get doc ''metadata'' = Obj m \<and> obj_get m ''labels'' = Obj ob \<and> ob \<noteq> [] \<longrightarrow>
            obj_get (record_of (obj_get (draft_to_document d) ''metadata'')) ''labels'' = Obj ob)
    \<and> (\<forall>m ob. obj_get doc ''target'' = Obj m \<and> obj_get m ''configuration'' = Obj ob \<and> ob \<noteq> [] \<longrightarrow>
            obj_get (record_of (obj_get (draft_to_document d) ''target'')) ''configuration'' = Obj ob)
    \<and> (\<forall>m xs. obj_get doc ''mission'' = Obj m \<and> obj_get m ''waypoints'' = Arr xs \<and> xs \<noteq> [] \<longrightarrow>
            obj_get (record_of (obj_get (draft_to_document d) ''mission'')) ''waypoints'' = Arr xs)"
  by (intro conjI impI allI)
     (auto simp: document_fields assms draft_of_document_def Let_def elim: is_record.elims)

theorem hidden_parts_survive_witness:
  "obj_get (draft_to_document ((draft_of_document [(''scoring'', Obj [(''profile'', Str ''strict'')])])
      \<lparr>sd_name := ''renamed''\<rparr>)) ''scoring'' = Obj [(''profile'', Str ''strict'')]"
  using hidden_parts_survive [of "(draft_of_document [(''scoring'', Obj [(''profile'', Str ''strict'')])])
      \<lparr>sd_name := ''renamed''\<rparr>" "[(''scoring'', Obj [(''profile'', Str ''strict'')])]"]
  by simp

section \<open>The schedule is ordered\<close>

lemma undec_nonneg: "list_all is_digit ds \<Longrightarrow> 0 \<le> undec ds"
proof (induction ds rule: rev_induct)
  case (snoc c ds)
  have "is_digit c \<Longrightarrow> 0 \<le> digit_val c" by (auto simp: is_digit_def digit_val_def)
  with snoc show ?case by simp
qed simp

lemma is_amount_decimal:
  assumes "decimal d"
  shows "is_amount (parse_number d)"
proof -
  consider "digits d" | a b where "d = a @ ''.'' @ b" "digits a" "digits b"
    using assms by (auto simp: decimal_def dest: decimal_split)
  then show ?thesis
  proof cases
    case 1
    then have "parse_number d = to_num (of_int (undec d))"
      by (auto simp: digits_def intro: parse_number_digits(1))
    moreover have "0 \<le> undec d" using 1 by (intro undec_nonneg) (simp add: digits_def)
    ultimately show ?thesis by (simp add: is_amount_to_num)
  next
    case 2
    then have "parse_number d = to_num (of_int (undec (a @ b)) / 10 ^ length b)"
      using parse_number_digits(2) [of a b] by (simp add: digits_def)
    moreover have "0 \<le> undec (a @ b)" using 2 by (intro undec_nonneg) (simp add: digits_def)
    ultimately show ?thesis by (simp add: is_amount_to_num)
  qed
qed

lemma is_amount_part: "opt_decimal d \<Longrightarrow> is_amount (case d of None \<Rightarrow> Fin 0 | Some s \<Rightarrow> parse_number s)"
  by (cases d) (simp_all add: is_amount_0 is_amount_decimal)

lemma is_amount_parse_duration:
  assumes "parse_duration s = Some v"
  shows "is_amount v"
proof -
  obtain m where m: "re_exec DURATION_RE (trim s) = Some m" "v = duration_value m"
    using assms by (auto simp: parse_duration_def Let_def split: option.splits if_splits)
  from re_exec_sound [OF m(1)] obtain h mi sc ms where
    parts: "opt_digits h" "opt_digits mi" "opt_decimal sc" "opt_digits ms" "m = captures_of h mi sc ms"
    by blast
  show ?thesis
    unfolding m(2) duration_value_def parts(5) capture_number_captures
    using parts(3) opt_digits_decimal [OF parts(1)] opt_digits_decimal [OF parts(2)]
      opt_digits_decimal [OF parts(4)]
    by (intro is_amount_add is_amount_mul is_amount_div is_amount_part) simp_all
qed

lemma is_amount_time: "is_amount (nullish (parse_duration s) (Fin 0))"
  by (cases "parse_duration s") (simp_all add: is_amount_0 is_amount_parse_duration)

definition schedule_items :: "scenario_draft \<Rightarrow> scheduled_injection list" where
  "schedule_items d = map event_injection (sd_events d) @ profile_schedule (pv_profile (sd_preserved d))"

lemma profile_schedule_items:
  assumes "i \<in> set (profile_schedule profile)"
  obtains p subsystem behaviour where "profile_injection p (subsystem, behaviour) = Some i"
  using assms by (auto simp: profile_schedule_def List.map_filter_def split: option.splits jsval.splits)

lemma is_amount_schedule: "i \<in> set (schedule_items d) \<Longrightarrow> is_amount (si_at i)"
  by (auto simp: schedule_items_def event_injection_def is_amount_time profile_injection_def Let_def
      elim!: profile_schedule_items split: jsval.splits if_splits)

lemma schedule_cmp_le:
  assumes "is_amount (si_at a)" "is_amount (si_at b)"
  shows "schedule_cmp collate a b \<le> 0
    \<longleftrightarrow> cmp_by si_at (\<lambda>a b. collate (si_id a) (si_id b)) a b \<le> 0"
  using num_sgn_sub [OF is_amount_double is_amount_double, OF assms]
  by (simp add: schedule_cmp_def cmp_by_def Let_def)

text \<open>
  C14. The schedule has one entry per event of the draft and one per effect of the consequence
  profile other than "operational"; it is ordered by time, then by identifier.
\<close>

theorem schedule_sorted_complete:
  assumes "collation collate"
  shows "sorted_wrt (\<lambda>a b. si_at a < si_at b \<or> si_at a = si_at b \<and> collate (si_id a) (si_id b) \<le> 0)
            (scenario_schedule collate d)
    \<and> mset (scenario_schedule collate d)
        = mset (map event_injection (sd_events d)) + mset (profile_schedule (pv_profile (sd_preserved d)))
    \<and> (\<forall>p effects. pv_profile (sd_preserved d) = Some p \<and> obj_get p ''effects'' = Obj effects \<longrightarrow>
         map (\<lambda>i. (si_subsystem i, Str (si_effect i))) (profile_schedule (pv_profile (sd_preserved d)))
           = filter (\<lambda>(s, v). (\<exists>b. v = Str b) \<and> v \<noteq> Str ''operational'') effects)"
proof -
  let ?c = "cmp_by si_at (\<lambda>a b. collate (si_id a) (si_id b))"
  have eq: "scenario_schedule collate d = js_sort ?c (schedule_items d)"
    unfolding scenario_schedule_def schedule_items_def [symmetric]
    by (intro js_sort_cong schedule_cmp_le is_amount_schedule)
  have "comparator ?c"
    using assms by (intro comparator_cmp_by) (auto simp: collation_def comparator_def)
  from comparator.sorted_js_sort [OF this, of "schedule_items d"]
  have "sorted_wrt (\<lambda>a b. ?c a b \<le> 0) (scenario_schedule collate d)"
    by (simp only: eq)
  moreover have "map (\<lambda>i. (si_subsystem i, Str (si_effect i))) (List.map_filter (profile_injection p) effects)
      = filter (\<lambda>(s, v). (\<exists>b. v = Str b) \<and> v \<noteq> Str ''operational'') effects" for p effects
  proof (induction effects)
    case Nil
    show ?case by (simp add: List.map_filter_def)
  next
    case (Cons x xs)
    then show ?case
      by (cases x; cases "snd x") (auto simp: List.map_filter_def profile_injection_def Let_def)
  qed
  ultimately show ?thesis
    by (simp add: cmp_by_le scenario_schedule_def profile_schedule_def)
qed

theorem schedule_sorted_complete_witness:
  "map si_id (scenario_schedule code_unit_cmp draft_example) = [''gnss'']"
proof -
  have "mset (scenario_schedule code_unit_cmp draft_example) = mset (map event_injection (sd_events draft_example))"
    using schedule_sorted_complete [OF code_units.collation_axioms, of draft_example]
    by (simp add: draft_example_def nothing_preserved_def profile_schedule_def)
  then have "mset (map si_id (scenario_schedule code_unit_cmp draft_example))
      = image_mset si_id (mset (map event_injection (sd_events draft_example)))" by simp
  also have "\<dots> = {#''gnss''#}" by (simp add: draft_example_def event_injection_def)
  finally show ?thesis by (simp only: mset_single_iff)
qed

end
