(* ===== verification/ApiClient.thy ===== *)
theory ApiClient
  imports States
begin

text \<open>
  packages/client/src/index.ts, apps/web/src/lib/api.ts and the query hooks use-runs.ts,
  use-scenarios.ts and use-system.ts: stream URLs, terminal states, error messages, and what
  each query asks for and how often. The HTTP client and the query cache are libraries; a query
  is what the hook passes to them.
\<close>

section \<open>URLs and terminal states\<close>

text \<open>\<open>base.replace(/^http/, "ws")\<close> and \<open>.replace(/\/$/, "")\<close>\<close>

definition ws_scheme :: "string \<Rightarrow> string" where
  "ws_scheme base = (if starts_with ''http'' base then ''ws'' @ drop 4 base else base)"

definition drop_slash :: "string \<Rightarrow> string" where
  "drop_slash s = (if s \<noteq> [] \<and> last s = CHR ''/'' then butlast s else s)"

record location =
  loc_protocol :: string
  loc_host :: string

text \<open>\<open>window.location\<close> is \<open>None\<close> outside a browser.\<close>

definition run_stream_url :: "location option \<Rightarrow> string \<Rightarrow> string \<Rightarrow> string" where
  "run_stream_url window runId base =
     (let path = ''/api/v1/runs/'' @ runId @ ''/stream''
      in if base \<noteq> [] then drop_slash (ws_scheme base) @ path
         else case window of
                Some l \<Rightarrow> (if loc_protocol l = ''https:'' then ''wss:'' else ''ws:'')
                            @ ''//'' @ loc_host l @ path
              | None \<Rightarrow> path)"

definition TERMINAL_RUN_STATES :: "run_state list" where
  "TERMINAL_RUN_STATES = [RS_COMPLETED, RS_FAILED, RS_CANCELLED]"

definition is_terminal_run_state :: "run_state \<Rightarrow> bool" where
  "is_terminal_run_state st = (st \<in> set TERMINAL_RUN_STATES)"

text \<open>\<open>API_BASE\<close> is \<open>process.env.NEXT_PUBLIC_API_BASE ?? ""\<close>.\<close>

definition API_BASE :: "string option \<Rightarrow> string" where
  "API_BASE env = nullish env []"

definition stream_url :: "string option \<Rightarrow> location option \<Rightarrow> string \<Rightarrow> string" where
  "stream_url env window runId = run_stream_url window runId (API_BASE env)"

definition api_url :: "string option \<Rightarrow> string \<Rightarrow> string" where
  "api_url env path = API_BASE env @ path"

section \<open>Errors\<close>

text \<open>\<open>`${v}`\<close>: an array joins its elements with commas, null and undefined elements empty.\<close>

fun js_text :: "jsval \<Rightarrow> string" where
  "js_text Undefined = ''undefined''"
| "js_text Null = ''null''"
| "js_text (Bool b) = (if b then ''true'' else ''false'')"
| "js_text (Num n) = num_str n"
| "js_text (Str s) = s"
| "js_text (Arr vs) =
     join_with '','' (map (\<lambda>v. case v of Undefined \<Rightarrow> [] | Null \<Rightarrow> [] | w \<Rightarrow> js_text v) vs)"
| "js_text (Obj ob) = ''[object Object]''"

text \<open>\<open>v.k\<close> for the keys the code reads, which no primitive has; null and undefined throw.\<close>

definition js_get :: "jsval \<Rightarrow> string \<Rightarrow> jsval option" where
  "js_get v k =
     (case v of Undefined \<Rightarrow> None | Null \<Rightarrow> None | Obj ob \<Rightarrow> Some (obj_get ob k) | _ \<Rightarrow> Some Undefined)"

text \<open>\<open>item.k ?? fallback\<close> in a template.\<close>

definition text_or :: "jsval \<Rightarrow> string \<Rightarrow> string" where
  "text_or v fallback = (case v of Undefined \<Rightarrow> fallback | Null \<Rightarrow> fallback | _ \<Rightarrow> js_text v)"

definition issue_text :: "jsval \<Rightarrow> string option" where
  "issue_text issue =
     (case (js_get issue ''path'', js_get issue ''message'') of
        (Some p, Some m) \<Rightarrow> Some (text_or p ''$'' @ '': '' @ text_or m ''invalid'')
      | _ \<Rightarrow> None)"

fun all_some :: "'a option list \<Rightarrow> 'a list option" where
  "all_some [] = Some []"
| "all_some (None # xs) = None"
| "all_some (Some x # xs) = map_option ((#) x) (all_some xs)"

text \<open>What can be thrown at the client: a payload, or an \<open>Error\<close> object with its own properties.\<close>

datatype js_error = Payload jsval | Error_object string "jsval obj"

definition error_record :: "js_error \<Rightarrow> jsval obj option" where
  "error_record e =
     (case e of
        Payload (Obj ob) \<Rightarrow> Some ob
      | Payload (Arr _) \<Rightarrow> Some []
      | Payload _ \<Rightarrow> None
      | Error_object m ob \<Rightarrow> Some ob)"

definition fallback_message :: "js_error \<Rightarrow> int option \<Rightarrow> string" where
  "fallback_message e status =
     (case e of
        Error_object m ob \<Rightarrow> m
      | Payload _ \<Rightarrow>
          (case status of
             Some n \<Rightarrow> if n \<noteq> 0 then ''request failed ('' @ dec n @ '')'' else ''request failed''
           | None \<Rightarrow> ''request failed''))"

text \<open>\<open>None\<close> is the \<open>TypeError\<close> of reading a property of null or undefined.\<close>

definition describe_error :: "js_error \<Rightarrow> int option \<Rightarrow> string option" where
  "describe_error e status =
     (case error_record e of
        None \<Rightarrow> Some (fallback_message e status)
      | Some r \<Rightarrow>
          (let rest = (case obj_get r ''error'' of
                         Str s \<Rightarrow> Some s | _ \<Rightarrow> Some (fallback_message e status))
           in case obj_get r ''detail'' of
                Str s \<Rightarrow> Some s
              | Obj detail \<Rightarrow>
                  (case obj_get detail ''issues'' of
                     Arr issues \<Rightarrow> map_option (join_with ''; '') (all_some (map issue_text issues))
                   | _ \<Rightarrow> (case obj_get detail ''error'' of Str s \<Rightarrow> Some s | _ \<Rightarrow> rest))
              | _ \<Rightarrow> rest))"

record api_error =
  ae_message :: string
  ae_status :: int
  ae_detail :: js_error

record 'a fetch_result =
  fr_data :: "'a option"
  fr_error :: js_error
  fr_status :: int

text \<open>\<open>unwrap\<close> of a settled promise: it throws the \<open>ApiError\<close>, or the \<open>TypeError\<close> of \<open>describeError\<close> (\<open>None\<close>).\<close>

definition unwrap_result :: "'a fetch_result \<Rightarrow> api_error option + 'a" where
  "unwrap_result r =
     (case fr_data r of
        Some d \<Rightarrow> Inr d
      | None \<Rightarrow> Inl (map_option
          (\<lambda>m. \<lparr>ae_message = m, ae_status = fr_status r, ae_detail = fr_error r\<rparr>)
          (describe_error (fr_error r) (Some (fr_status r)))))"

section \<open>Queries\<close>

text \<open>
  The type of \<open>state\<close> is \<open>RunState\<close>, but the run list passes whatever the address of the page
  holds.
\<close>

record run_filters =
  rf_state :: "string option"
  rf_scenario :: "string option"
  rf_adapter :: "string option"
  rf_result :: "string option"
  rf_limit :: "int option"
  rf_offset :: "int option"

fun run_state_str :: "run_state \<Rightarrow> string" where
  "run_state_str RS_CREATED = ''CREATED''"
| "run_state_str RS_VALIDATING = ''VALIDATING''"
| "run_state_str RS_QUEUED = ''QUEUED''"
| "run_state_str RS_PREPARING = ''PREPARING''"
| "run_state_str RS_RUNNING = ''RUNNING''"
| "run_state_str RS_RECOVERING = ''RECOVERING''"
| "run_state_str RS_COLLECTING = ''COLLECTING''"
| "run_state_str RS_ANALYZING = ''ANALYZING''"
| "run_state_str RS_COMPLETED = ''COMPLETED''"
| "run_state_str RS_FAILED = ''FAILED''"
| "run_state_str RS_CANCELLED = ''CANCELLED''"

text \<open>\<open>...(s ? { k: s } : {})\<close>\<close>

definition filter_field :: "string \<Rightarrow> string option \<Rightarrow> jsval obj" where
  "filter_field k s = (if truthy s then [(k, Str (nullish s []))] else [])"

definition run_query :: "run_filters \<Rightarrow> jsval obj" where
  "run_query f =
     [(''limit'', Num (Fin (of_int (nullish (rf_limit f) 25)))),
      (''offset'', Num (Fin (of_int (nullish (rf_offset f) 0))))]
     @ filter_field ''state'' (rf_state f)
     @ filter_field ''scenario'' (rf_scenario f)
     @ filter_field ''adapter'' (rf_adapter f)
     @ filter_field ''result'' (rf_result f)"

definition has_active :: "run_summary list \<Rightarrow> bool" where
  "has_active runs =
     list_ex (\<lambda>r. rs_state r \<in> set ACTIVE_RUN_STATES \<or> rs_state r = RS_CREATED
                 \<or> rs_state r = RS_VALIDATING) runs"

text \<open>The poll interval in milliseconds; \<open>None\<close> while there is no data.\<close>

definition runs_refetch_interval :: "run_summary list option \<Rightarrow> int" where
  "runs_refetch_interval runs =
     (case runs of Some rs \<Rightarrow> if has_active rs then 3000 else 20000 | None \<Rightarrow> 20000)"

text \<open>A query: its cache key, whether it is enabled, its path and parameters, and its poll interval.\<close>

record query =
  qy_key :: "jsval list"
  qy_enabled :: bool
  qy_path :: string
  qy_params :: "jsval obj"
  qy_interval :: "int option"
  qy_stale_time :: int
  qy_retry :: "int option"

definition simple_query :: "jsval list \<Rightarrow> bool \<Rightarrow> string \<Rightarrow> jsval obj \<Rightarrow> query" where
  "simple_query key enabled path params =
     \<lparr>qy_key = key, qy_enabled = enabled, qy_path = path, qy_params = params,
      qy_interval = None, qy_stale_time = 0, qy_retry = None\<rparr>"

definition id_value :: "string option \<Rightarrow> jsval" where
  "id_value runId = (case runId of None \<Rightarrow> Null | Some s \<Rightarrow> Str s)"

definition use_runs :: "run_filters \<Rightarrow> run_summary list option \<Rightarrow> query" where
  "use_runs f runs =
     (simple_query [Str ''runs'', Obj (run_query f)] True ''/api/v1/runs'' (run_query f))
       \<lparr>qy_interval := Some (runs_refetch_interval runs)\<rparr>"

definition use_run :: "string option \<Rightarrow> bool \<Rightarrow> query" where
  "use_run runId poll =
     (simple_query [Str ''run'', id_value runId] (truthy runId) ''/api/v1/runs/{run_id}''
        [(''run_id'', Str (nullish runId []))])
       \<lparr>qy_interval := (if poll then Some 4000 else None)\<rparr>"

definition use_run_events :: "string option \<Rightarrow> bool \<Rightarrow> int \<Rightarrow> query" where
  "use_run_events runId enabled limit =
     (simple_query [Str ''run-events'', id_value runId, Num (Fin (of_int limit))]
        (truthy runId \<and> enabled) ''/api/v1/runs/{run_id}/events''
        [(''run_id'', Str (nullish runId [])), (''limit'', Num (Fin (of_int limit)))])
       \<lparr>qy_stale_time := 30000\<rparr>"

definition use_run_telemetry :: "string option \<Rightarrow> bool \<Rightarrow> int \<Rightarrow> query" where
  "use_run_telemetry runId enabled limit =
     (simple_query [Str ''run-telemetry'', id_value runId, Num (Fin (of_int limit))]
        (truthy runId \<and> enabled) ''/api/v1/runs/{run_id}/telemetry''
        [(''run_id'', Str (nullish runId [])), (''limit'', Num (Fin (of_int limit)))])
       \<lparr>qy_stale_time := 30000\<rparr>"

definition use_run_metrics :: "string option \<Rightarrow> bool \<Rightarrow> query" where
  "use_run_metrics runId enabled =
     (simple_query [Str ''run-metrics'', id_value runId] (truthy runId \<and> enabled)
        ''/api/v1/runs/{run_id}/metrics'' [(''run_id'', Str (nullish runId []))])
       \<lparr>qy_stale_time := 60000, qy_retry := Some 0\<rparr>"

definition use_scenarios :: query where
  "use_scenarios =
     (simple_query [Str ''scenarios''] True ''/api/v1/scenarios'' [])\<lparr>qy_stale_time := 10000\<rparr>"

definition use_scenario :: "string option \<Rightarrow> query" where
  "use_scenario name =
     simple_query [Str ''scenario'', id_value name] (truthy name) ''/api/v1/scenarios/{name}''
       [(''name'', Str (nullish name []))]"

definition use_scenario_validation :: "string \<Rightarrow> bool \<Rightarrow> query" where
  "use_scenario_validation document enabled =
     (simple_query [Str ''scenario-validate'', Str document] (enabled \<and> trim document \<noteq> [])
        ''/api/v1/scenarios/validate'' [(''document'', Str document)])
       \<lparr>qy_stale_time := 300000, qy_retry := Some 0\<rparr>"

definition use_system_info :: query where
  "use_system_info =
     (simple_query [Str ''system''] True ''/api/v1/system'' [])
       \<lparr>qy_interval := Some 15000, qy_stale_time := 10000\<rparr>"

text \<open>The cache keys each mutation invalidates when it succeeds.\<close>

definition create_run_invalidates :: "jsval list list" where
  "create_run_invalidates = [[Str ''runs''], [Str ''scenarios'']]"

definition cancel_run_invalidates :: "string \<Rightarrow> jsval list list" where
  "cancel_run_invalidates runId = [[Str ''runs''], [Str ''run'', Str runId]]"

definition save_scenario_invalidates :: "jsval list list" where
  "save_scenario_invalidates = [[Str ''scenarios'']]"

text \<open>The cache invalidates every query whose key starts with the given one.\<close>

definition invalidated :: "jsval list list \<Rightarrow> query \<Rightarrow> bool" where
  "invalidated keys q = list_ex (\<lambda>k. take (length k) (qy_key q) = k) keys"

section \<open>Properties\<close>

lemma active_or_terminal:
  "st \<in> set ACTIVE_RUN_STATES \<or> st = RS_CREATED \<or> st = RS_VALIDATING \<longleftrightarrow> \<not> is_terminal_run_state st"
  by (cases st) (simp_all add: ACTIVE_RUN_STATES_def is_terminal_run_state_def TERMINAL_RUN_STATES_def)

text \<open>
  The list of runs is polled every three seconds exactly while it shows a run that is not
  in a terminal state, and every twenty seconds otherwise.
\<close>

theorem runs_polled_while_active:
  "qy_interval (use_runs f (Some runs)) =
     Some (if \<exists>r \<in> set runs. \<not> is_terminal_run_state (rs_state r) then 3000 else 20000)"
  by (auto simp: use_runs_def runs_refetch_interval_def has_active_def list_ex_iff
      simp flip: active_or_terminal)

text \<open>
  A cancelled run is fetched again both in every list of runs and on its own page, and on
  no other run's page.
\<close>

theorem cancel_refetches:
  "invalidated (cancel_run_invalidates runId) (use_runs f runs)
   \<and> (invalidated (cancel_run_invalidates runId) (use_run other poll) \<longleftrightarrow> other = Some runId)
   \<and> \<not> invalidated (cancel_run_invalidates runId) (use_run_events other e n)"
  by (auto simp: invalidated_def cancel_run_invalidates_def use_runs_def use_run_def
      use_run_events_def simple_query_def id_value_def split: option.splits)

text \<open>
  An API error always carries the message of the payload it came from: a text detail, the
  issues of a rejected document one after the other, or an error text, in this order; the
  status is used only when the payload has none of them.
\<close>

theorem describe_error_cases:
  "describe_error (Payload (Obj [(''detail'', Str s)])) st = Some s
   \<and> describe_error (Payload (Obj [(''detail'', Obj [(''issues'', Arr (map (\<lambda>(p, m).
        Obj [(''path'', Str p), (''message'', Str m)]) issues))])])) st
      = Some (join_with ''; '' (map (\<lambda>(p, m). p @ '': '' @ m) issues))
   \<and> describe_error (Payload (Obj [(''detail'', Obj [(''error'', Str s)])])) st = Some s
   \<and> describe_error (Payload (Obj [(''error'', Str s)])) st = Some s
   \<and> describe_error (Payload Undefined) (Some 404) = Some ''request failed (404)''
   \<and> describe_error (Payload Undefined) None = Some ''request failed''"
proof -
  have "all_some (map issue_text (map (\<lambda>(p, m). Obj [(''path'', Str p), (''message'', Str m)]) issues))
      = Some (map (\<lambda>(p, m). p @ '': '' @ m) issues)"
    by (induction issues) (auto simp: issue_text_def js_get_def obj_get_def text_or_def)
  moreover have "dec 404 = ''404''" by code_simp
  ultimately show ?thesis
    by (simp add: describe_error_def error_record_def obj_get_def fallback_message_def)
qed

end
