(* ===== verification/ClientState.thy ===== *)
theory ClientState
  imports LiveStore
begin

text \<open>
  apps/web/src/stores/settings.ts, hooks/use-live-view.ts and hooks/use-debounced.ts: the user's
  settings, the throttled view of the live store and the debounced value. Persistence of the
  settings and the React renderer are libraries. A timeout is the time it is due.
\<close>

section \<open>Settings\<close>

datatype camera_mode = Cam_chase | Cam_orbit | Cam_top | Cam_fpv

text \<open>\<open>TelemetryRate = 5 | 10 | 20\<close>, \<open>DemoSpeed = 1 | 2 | 5 | 10\<close>.\<close>

datatype telemetry_rate = Rate_5 | Rate_10 | Rate_20
datatype demo_speed = Speed_1 | Speed_2 | Speed_5 | Speed_10

fun telemetry_hz :: "telemetry_rate \<Rightarrow> int" where
  "telemetry_hz Rate_5 = 5"
| "telemetry_hz Rate_10 = 10"
| "telemetry_hz Rate_20 = 20"

fun demo_factor :: "demo_speed \<Rightarrow> int" where
  "demo_factor Speed_1 = 1"
| "demo_factor Speed_2 = 2"
| "demo_factor Speed_5 = 5"
| "demo_factor Speed_10 = 10"

definition DEMO_SPEEDS :: "demo_speed list" where
  "DEMO_SPEEDS = [Speed_1, Speed_2, Speed_5, Speed_10]"

record settings =
  sg_demo_speed :: demo_speed
  sg_telemetry_rate :: telemetry_rate
  sg_camera_mode :: camera_mode
  sg_show_log_events :: bool
  sg_reduced_motion :: bool

definition DEFAULTS :: settings where
  "DEFAULTS =
     \<lparr>sg_demo_speed = Speed_1, sg_telemetry_rate = Rate_10, sg_camera_mode = Cam_chase,
      sg_show_log_events = False, sg_reduced_motion = False\<rparr>"

datatype settings_action =
    Set_demo_speed demo_speed
  | Set_telemetry_rate telemetry_rate
  | Set_camera_mode camera_mode
  | Set_show_log_events bool
  | Set_reduced_motion bool
  | Reset_settings

fun settings_step :: "settings_action \<Rightarrow> settings \<Rightarrow> settings" where
  "settings_step (Set_demo_speed x) s = s\<lparr>sg_demo_speed := x\<rparr>"
| "settings_step (Set_telemetry_rate x) s = s\<lparr>sg_telemetry_rate := x\<rparr>"
| "settings_step (Set_camera_mode x) s = s\<lparr>sg_camera_mode := x\<rparr>"
| "settings_step (Set_show_log_events x) s = s\<lparr>sg_show_log_events := x\<rparr>"
| "settings_step (Set_reduced_motion x) s = s\<lparr>sg_reduced_motion := x\<rparr>"
| "settings_step Reset_settings s = DEFAULTS"

text \<open>The flush interval of the stream: \<open>Math.round(1000 / telemetryRate)\<close> milliseconds.\<close>

definition flush_interval :: "settings \<Rightarrow> int" where
  "flush_interval s = math_round (fl (1000 / of_int (telemetry_hz (sg_telemetry_rate s))))"

section \<open>The throttled view\<close>

text \<open>
  \<open>th_last\<close> is the time of the last render, \<open>th_timer\<close> the time the pending timeout is due,
  \<open>th_value\<close> what the component shows; \<open>shown\<close> is the selected part of the store.
\<close>

record 'v throttle =
  th_last :: int
  th_timer :: "int option"
  th_value :: 'v

definition th_apply :: "int \<Rightarrow> 'v \<Rightarrow> 'v throttle \<Rightarrow> 'v throttle" where
  "th_apply now shown s = s\<lparr>th_last := now, th_value := shown\<rparr>"

definition th_mount :: "int \<Rightarrow> 'v \<Rightarrow> 'v throttle" where
  "th_mount now shown = th_apply now shown \<lparr>th_last = 0, th_timer = None, th_value = shown\<rparr>"

definition th_changed :: "int \<Rightarrow> int \<Rightarrow> 'v \<Rightarrow> 'v throttle \<Rightarrow> 'v throttle" where
  "th_changed ms now shown s =
     (let elapsed = now - th_last s
      in if elapsed \<ge> ms then th_apply now shown s
         else if th_timer s = None then s\<lparr>th_timer := Some (now + (ms - elapsed))\<rparr> else s)"

definition th_fires :: "int \<Rightarrow> 'v \<Rightarrow> 'v throttle \<Rightarrow> 'v throttle" where
  "th_fires now shown s = th_apply now shown (s\<lparr>th_timer := None\<rparr>)"

text \<open>
  Runs of the view: the store changes, or the timeout fires when it is due. The pair holds the
  view and the selected part of the store; \<open>prompt\<close> asks that a timeout fires before anything
  later happens.
\<close>

inductive throttle_run ::
  "bool \<Rightarrow> int \<Rightarrow> int \<Rightarrow> 'v throttle \<Rightarrow> 'v \<Rightarrow> int list \<Rightarrow> bool" for prompt ms where
  mount: "throttle_run prompt ms now (th_mount now shown) shown [now]"
| changed: "throttle_run prompt ms now s shown renders \<Longrightarrow> now \<le> now'
    \<Longrightarrow> (prompt \<Longrightarrow> case th_timer s of None \<Rightarrow> True | Some due \<Rightarrow> now' < due)
    \<Longrightarrow> throttle_run prompt ms now' (th_changed ms now' shown' s) shown'
          (if now' - th_last s \<ge> ms then now' # renders else renders)"
| fires: "throttle_run prompt ms now s shown renders \<Longrightarrow> now \<le> now' \<Longrightarrow> th_timer s = Some due
    \<Longrightarrow> due \<le> now'
    \<Longrightarrow> throttle_run prompt ms now' (th_fires now' shown s) shown (now' # renders)"

text \<open>Renders are listed newest first.\<close>

fun spaced :: "int \<Rightarrow> int list \<Rightarrow> bool" where
  "spaced ms (a # b # xs) = (a - b \<ge> ms \<and> spaced ms (b # xs))"
| "spaced ms _ = True"

lemma spaced_Cons: "spaced ms (x # xs) \<longleftrightarrow> (case xs of [] \<Rightarrow> True | y # _ \<Rightarrow> x - y \<ge> ms) \<and> spaced ms xs"
  by (cases xs) auto

lemma throttle_inv:
  "throttle_run prompt ms now s shown renders \<Longrightarrow>
     (th_timer s = None \<longrightarrow> th_value s = shown)
     \<and> (\<exists>rest. renders = th_last s # rest) \<and> th_last s \<le> now
     \<and> (\<forall>due. th_timer s = Some due \<longrightarrow> due \<le> th_last s + ms \<and> (prompt \<longrightarrow> due = th_last s + ms))
     \<and> (prompt \<longrightarrow> spaced ms renders)"
proof (induction rule: throttle_run.induct)
  case (mount now shown)
  show ?case by (simp add: th_mount_def th_apply_def)
next
  case (changed now s shown renders now' shown')
  then show ?case
    by (cases "th_timer s") (auto simp: th_changed_def th_apply_def Let_def)
next
  case (fires now s shown renders now' due)
  then show ?case
    by (auto simp: th_fires_def th_apply_def)
qed

text \<open>
  C36. A throttled view never shows an outdated value without a timeout pending that will
  refresh it, at most \<open>ms\<close> after the last render; and as long as timeouts fire on time, any two
  renders are at least \<open>ms\<close> apart.
\<close>

theorem throttle_fresh_and_spaced:
  assumes "throttle_run prompt ms now s shown renders"
  shows "(th_value s = shown \<or> (\<exists>due. th_timer s = Some due \<and> due \<le> th_last s + ms))
    \<and> (prompt \<longrightarrow> spaced ms renders)"
  using throttle_inv [OF assms] by (cases "th_timer s") auto

theorem throttle_fresh_and_spaced_witness:
  "spaced 400 [400, 0]
   \<and> th_value (th_fires 400 ''b'' (th_changed 400 10 ''b'' (th_mount 0 ''a''))) = ''b''"
proof -
  have "throttle_run True 400 10 (th_changed 400 10 ''b'' (th_mount 0 ''a'')) ''b'' [0]"
    using throttle_run.changed [OF throttle_run.mount [where prompt = True and ms = 400 and now = 0
        and shown = "''a''"], of 10 "''b''"]
    by (simp add: th_mount_def th_apply_def)
  then have "throttle_run True 400 400 (th_fires 400 ''b'' (th_changed 400 10 ''b'' (th_mount 0 ''a'')))
      ''b'' [400, 0]"
    by (rule throttle_run.fires [where due = 400]) (simp_all add: th_mount_def th_apply_def th_changed_def)
  from throttle_fresh_and_spaced [OF this] show ?thesis
    by (simp add: th_fires_def th_apply_def)
qed

text \<open>
  A late timeout breaks the rate: when a change arrives after the timeout was due but
  before it fired, the view renders for the change and again for the timeout, as soon as it runs.
\<close>

theorem throttle_late_timer:
  "\<exists>s. throttle_run False 400 (505::int) s ''c'' [505, 500, 0] \<and> \<not> spaced 400 [505, 500, 0]"
proof -
  have a: "throttle_run False 400 0 (th_mount 0 ''a'') ''a'' [0]" by (rule throttle_run.mount)
  have b: "throttle_run False 400 10 (th_changed 400 10 ''b'' (th_mount 0 ''a'')) ''b'' [0]"
    using throttle_run.changed [OF a, of 10 "''b''"] by (simp add: th_mount_def th_apply_def)
  let ?s = "th_changed 400 500 ''c'' (th_changed 400 10 ''b'' (th_mount 0 ''a''))"
  have c: "throttle_run False 400 500 ?s ''c'' [500, 0]"
    using throttle_run.changed [OF b, of 500 "''c''"] by (simp add: th_mount_def th_apply_def th_changed_def)
  have "th_timer ?s = Some 400"
    by (simp add: th_mount_def th_apply_def th_changed_def)
  from throttle_run.fires [OF c _ this, of 505]
  have "throttle_run False 400 505 (th_fires 505 ''c'' ?s) ''c'' [505, 500, 0]" by simp
  then show ?thesis by auto
qed

section \<open>The debounced value\<close>

record 'v debounce =
  db_value :: 'v
  db_pending :: "('v \<times> int) option"

definition db_mount :: "int \<Rightarrow> int \<Rightarrow> 'v \<Rightarrow> 'v debounce" where
  "db_mount ms now v = \<lparr>db_value = v, db_pending = Some (v, now + ms)\<rparr>"

text \<open>The effect runs again when the value changed: its clean-up drops the old timeout.\<close>

definition db_changed :: "int \<Rightarrow> int \<Rightarrow> 'v \<Rightarrow> 'v debounce \<Rightarrow> 'v debounce" where
  "db_changed ms now v s = s\<lparr>db_pending := Some (v, now + ms)\<rparr>"

definition db_fires :: "'v debounce \<Rightarrow> 'v debounce" where
  "db_fires s =
     (case db_pending s of
        None \<Rightarrow> s
      | Some (v, _) \<Rightarrow> s\<lparr>db_value := v, db_pending := None\<rparr>)"

text \<open>Runs of the hook with the current value and the time it was set.\<close>

inductive debounce_run :: "int \<Rightarrow> int \<Rightarrow> 'v debounce \<Rightarrow> 'v \<Rightarrow> int \<Rightarrow> bool" for ms where
  mount: "debounce_run ms now (db_mount ms now v) v now"
| changed: "debounce_run ms now s v t \<Longrightarrow> now \<le> now' \<Longrightarrow> v' \<noteq> v
    \<Longrightarrow> debounce_run ms now' (db_changed ms now' v' s) v' now'"
| fires: "debounce_run ms now s v t \<Longrightarrow> now \<le> now' \<Longrightarrow> db_pending s = Some (w, due) \<Longrightarrow> due \<le> now'
    \<Longrightarrow> debounce_run ms now' (db_fires s) v t"

lemma debounce_inv:
  "debounce_run ms now s v t \<Longrightarrow>
     t \<le> now \<and> (case db_pending s of Some (w, due) \<Rightarrow> w = v \<and> due = t + ms
               | None \<Rightarrow> db_value s = v \<and> t + ms \<le> now)"
proof (induction rule: debounce_run.induct)
  case (mount now v)
  show ?case by (simp add: db_mount_def)
next
  case (changed now s v t now' v')
  then show ?case by (simp add: db_changed_def)
next
  case (fires now s v t now' w due)
  then show ?case by (simp add: db_fires_def)
qed

text \<open>
  A debounced value takes a new value only after that value was stable for \<open>ms\<close>, and when
  no timeout is pending it is the current value.
\<close>

theorem debounce_stable:
  assumes "debounce_run ms now s v t"
  shows "(db_pending s = None \<longrightarrow> db_value s = v \<and> t + ms \<le> now)
    \<and> (\<forall>w due. db_pending s = Some (w, due) \<and> due \<le> now' \<longrightarrow> db_value (db_fires s) = v \<and> t + ms \<le> now')"
  using debounce_inv [OF assms] by (auto simp: db_fires_def)

theorem debounce_stable_witness:
  "db_value (db_fires (db_changed 300 100 ''new'' (db_mount 300 0 ''old''))) = ''new''"
proof -
  have "debounce_run 300 100 (db_changed 300 100 ''new'' (db_mount 300 0 ''old'')) ''new'' 100"
    by (rule debounce_run.changed [OF debounce_run.mount]) simp_all
  from debounce_stable [OF this, of 400] show ?thesis
    by (simp add: db_changed_def db_mount_def)
qed

end
