(* ===== verification/MetricPaths.thy ===== *)
theory MetricPaths
  imports Duration
begin

text \<open>
  apps/web/src/lib/metric-paths.ts: the metric paths an assertion can reference, in groups, and
  the comparison suggested for each kind.
\<close>

datatype metric_path_kind = MK_bool | MK_ratio | MK_seconds | MK_count

record metric_path =
  mp_path :: string
  mp_kind :: metric_path_kind
  mp_description :: string

abbreviation metric :: "string \<Rightarrow> metric_path_kind \<Rightarrow> string \<Rightarrow> metric_path" where
  "metric p k d \<equiv> \<lparr>mp_path = p, mp_kind = k, mp_description = d\<rparr>"

definition METRIC_PATH_GROUPS :: "(string \<times> metric_path list) list" where
  "METRIC_PATH_GROUPS =
     [(''Safety'',
       [metric ''flight_control.available'' MK_bool
          ''The flight core never left a healthy state'',
        metric ''flight_control.availability'' MK_ratio
          ''Fraction of the run with a healthy flight core'',
        metric ''control.availability'' MK_ratio
          ''Same value as flight_control.availability'',
        metric ''safety.loss_of_control'' MK_bool
          ''Control authority was lost at least once'',
        metric ''safety.preserved'' MK_bool
          ''No loss of control and the flight core stayed available'',
        metric ''safety.safe_state_reached'' MK_bool
          ''A safe-state response (failsafe hold, return to launch) was observed'']),
      (''Recovery'',
       [metric ''recovery.mttr'' MK_seconds
          ''Mean time to recovery'',
        metric ''recovery.max'' MK_seconds
          ''Slowest recovery'',
        metric ''recovery.success_rate'' MK_ratio
          ''Recovered over required'',
        metric ''recovery.count'' MK_count
          ''Number of faults recovered'',
        metric ''recovery.required'' MK_count
          ''Faults that had to recover'',
        metric ''recovery.time_to_safe_state'' MK_seconds
          ''Delay from the triggering fault to the first safe-state response'',
        metric ''recovery.<subsystem>'' MK_seconds
          ''Maximum recovery time of one subsystem, with dots replaced by underscores, for example recovery.mission_compute'']),
      (''Containment'',
       [metric ''containment.flight_domain_affected'' MK_bool
          ''A fault reached flight control or actuation'',
        metric ''containment.critical_domain_reached'' MK_bool
          ''Same as containment.flight_domain_affected'',
        metric ''containment.contained'' MK_bool
          ''No flight-critical domain hit'',
        metric ''containment.boundary_crossed'' MK_bool
          ''A dependency crossing a trust boundary had both ends affected'',
        metric ''containment.affected_domains'' MK_count
          ''Number of domains with at least one affected component'',
        metric ''containment.affected_components'' MK_count
          ''Components observed leaving a healthy state'',
        metric ''containment.propagated_components'' MK_count
          ''Affected components that were not injection targets'',
        metric ''containment.propagation_depth'' MK_count
          ''Longest dependency distance from an injection target'']),
      (''Mission'',
       [metric ''mission.completion'' MK_ratio
          ''Highest mission progress reached'',
        metric ''mission.continuity'' MK_ratio
          ''1 minus the fraction of the run spent holding or diverted'',
        metric ''mission.completed'' MK_bool
          ''Mission reached the COMPLETE phase'',
        metric ''mission.duration'' MK_seconds
          ''Simulation duration of the run'']),
      (''Availability'',
       [metric ''navigation.integrity'' MK_ratio
          ''Weighted navigation estimator availability'',
        metric ''navigation.availability'' MK_ratio
          ''Fraction of the run with a healthy navigation estimator'',
        metric ''communications.availability'' MK_ratio
          ''Fraction of the run with healthy communications'',
        metric ''compute.availability'' MK_ratio
          ''Fraction of the run with healthy mission compute'',
        metric ''power.availability'' MK_ratio
          ''Fraction of the run with healthy power'']),
      (''Time and events'',
       [metric ''time.nominal'' MK_seconds
          ''Time with every component healthy'',
        metric ''time.degraded'' MK_seconds
          ''Time in a degraded system mode'',
        metric ''time.failed'' MK_seconds
          ''Time in a failed system mode'',
        metric ''time.total'' MK_seconds
          ''Observed run duration'',
        metric ''events.injected'' MK_count
          ''Injection requests'',
        metric ''events.applied'' MK_count
          ''Injections confirmed by the adapter'',
        metric ''events.rejected'' MK_count
          ''Injections the adapter refused'',
        metric ''events.observed_effects'' MK_count
          ''Component state changes observed'',
        metric ''events.recoveries'' MK_count
          ''Recovery events'',
        metric ''events.expectations_failed'' MK_count
          ''Declared expectations that were not met''])]"

definition ALL_METRIC_PATHS :: "metric_path list" where
  "ALL_METRIC_PATHS = concat (map snd METRIC_PATH_GROUPS)"

definition suggested_operator :: "metric_path_kind \<Rightarrow> string" where
  "suggested_operator k =
     (case k of MK_bool \<Rightarrow> '' == true'' | MK_ratio \<Rightarrow> '' >= 0.90'' | MK_seconds \<Rightarrow> '' < 10s''
      | MK_count \<Rightarrow> '' <= 1'')"

definition suggested_expression :: "metric_path \<Rightarrow> string" where
  "suggested_expression path = mp_path path @ suggested_operator (mp_kind path)"

end
