(* ===== verification/BlastRadius.thy ===== *)
theory BlastRadius
  imports Topology RunView
begin

text \<open>
  apps/web/src/components/ui/badge.tsx and components/mission/blast-radius.tsx. A view is the
  record of what it displays: texts, tones, tooltips and which parts are shown; CSS classes that
  only depend on these are left out. A \<open>Set\<close> property is the list of its elements, a \<open>Map\<close> an
  association list.
\<close>

section \<open>Badges\<close>

record badge =
  bd_text :: string
  bd_tone :: tone
  bd_title :: string

definition style_badge :: "('a state_style_scheme) \<Rightarrow> badge" where
  "style_badge s = \<lparr>bd_text = st_label s, bd_tone = st_tone s, bd_title = st_description s\<rparr>"

definition component_state_badge :: "component_state option \<Rightarrow> badge" where
  "component_state_badge st =
     style_badge (COMPONENT_STATE (case st of Some s \<Rightarrow> s | None \<Rightarrow> UNKNOWN))"

definition run_state_badge :: "run_state \<Rightarrow> badge" where
  "run_state_badge st = style_badge (RUN_STATE st)"

definition result_badge :: "benchmark_result option \<Rightarrow> badge" where
  "result_badge r =
     (case r of
        None \<Rightarrow> \<lparr>bd_text = ''NOT ANALYZED'', bd_tone = Dim, bd_title = ''Run not analyzed''\<rparr>
      | Some b \<Rightarrow> style_badge (BENCHMARK_RESULT b))"

definition severity_badge :: "severity \<Rightarrow> badge" where
  "severity_badge s = style_badge (SEVERITY s)"

definition event_kind_badge :: "event_kind \<Rightarrow> badge" where
  "event_kind_badge k =
     \<lparr>bd_text = st_short (EVENT_KIND k), bd_tone = st_tone (EVENT_KIND k),
      bd_title = st_label (EVENT_KIND k) @ '': '' @ st_description (EVENT_KIND k)\<rparr>"

definition flight_mode_badge :: "flight_mode \<Rightarrow> badge" where
  "flight_mode_badge m = style_badge (FLIGHT_MODE m)"

section \<open>The blast radius\<close>

datatype role = R_injected | R_propagated | R_protected | R_unaffected

fun ROLE_LABEL :: "role \<Rightarrow> string" where
  "ROLE_LABEL R_injected = ''INJECTED''"
| "ROLE_LABEL R_propagated = ''PROPAGATED''"
| "ROLE_LABEL R_protected = ''PROTECTED''"
| "ROLE_LABEL R_unaffected = ''NOMINAL''"

definition CHAIN_DOMAINS :: "domain list" where
  "CHAIN_DOMAINS = [External, Communications, Mission_compute, Flight_control, Actuation]"

fun CHAIN_LABEL :: "domain \<Rightarrow> string option" where
  "CHAIN_LABEL External = Some ''EXTERNAL''"
| "CHAIN_LABEL Communications = Some ''COMMS''"
| "CHAIN_LABEL Mission_compute = Some ''MISSION''"
| "CHAIN_LABEL Flight_control = Some ''FLIGHT''"
| "CHAIN_LABEL Actuation = Some ''ACTUATION''"
| "CHAIN_LABEL _ = None"

record chain_row =
  cr_domain :: domain
  cr_role :: role
  cr_detail :: string
  cr_title :: string
  cr_enforcement :: bool

record blast_props =
  bp_components :: component_lookup
  bp_injected :: "string list"
  bp_affected :: "string list"
  bp_health :: "(string \<times> component_state) list"
  bp_boundary :: "trust_boundary option"
  bp_affected_domains :: "domain list"
  bp_flight_domain_affected :: bool

definition component_name :: "component_lookup \<Rightarrow> string \<Rightarrow> string" where
  "component_name components i = nullish (map_option co_name (map_of components i)) i"

text \<open>The components of a domain on the command path.\<close>

definition chain_ids :: "blast_props \<Rightarrow> domain \<Rightarrow> string list" where
  "chain_ids p d =
     filter (\<lambda>i. map_option co_domain (map_of (bp_components p) i) = Some d) PROPAGATION_CHAIN"

definition chain_role :: "blast_props \<Rightarrow> string list \<Rightarrow> role" where
  "chain_role p ids =
     (let anyFault = (bp_affected p \<noteq> []);
          flightCritical = list_ex (\<lambda>i. map_option co_trust_zone (map_of (bp_components p) i)
                                        = Some TZ_flight_critical) ids;
          allHealthy = list_all (\<lambda>i. is_healthy (map_of (bp_health p) i)) ids
      in if filter (\<lambda>i. i \<in> set (bp_injected p)) ids \<noteq> [] then R_injected
         else if filter (\<lambda>i. i \<in> set (bp_affected p)) ids \<noteq> [] then R_propagated
         else if anyFault \<and> flightCritical \<and> allHealthy then R_protected
         else R_unaffected)"

definition newline :: string where
  "newline = [CHR 0x0A]"

definition chain_row_of :: "blast_props \<Rightarrow> domain \<Rightarrow> string list \<Rightarrow> chain_row" where
  "chain_row_of p d ids =
     (let affectedIds = filter (\<lambda>i. i \<in> set (bp_affected p)) ids;
          shown = (if affectedIds \<noteq> [] then affectedIds else ids);
          names = map (component_name (bp_components p)) shown;
          head = join_with '', '' (take 2 names)
      in \<lparr>cr_domain = d,
          cr_role = chain_role p ids,
          cr_detail = (if length names > 2 then head @ '' +'' @ dec (int (length names) - 2) else head),
          cr_title = join_with newline
            (map (\<lambda>i. component_name (bp_components p) i @ '' ('' @ i @ ''): ''
                      @ component_state_str (nullish (map_of (bp_health p) i) UNKNOWN)) ids),
          cr_enforcement = (case bp_boundary p of
             None \<Rightarrow> False
           | Some b \<Rightarrow> (case tb_enforcement_point b of None \<Rightarrow> False | Some e \<Rightarrow> e \<in> set ids))\<rparr>)"

definition chain_rows :: "blast_props \<Rightarrow> chain_row list" where
  "chain_rows p =
     List.map_filter (\<lambda>d. if chain_ids p d = [] then None else Some (chain_row_of p d (chain_ids p d)))
       CHAIN_DOMAINS"

definition is_hit :: "chain_row \<Rightarrow> bool" where
  "is_hit r = (cr_role r = R_injected \<or> cr_role r = R_propagated)"

text \<open>\<open>rows.reduce((last, row, index) => hit ? index : last, -1)\<close>\<close>

definition last_hit_index :: "chain_row list \<Rightarrow> int" where
  "last_hit_index rows =
     foldl (\<lambda>l (i, r). if is_hit r then int i else l) (- 1) (zip [0..<length rows] rows)"

definition stopped_row :: "chain_row list \<Rightarrow> chain_row option" where
  "stopped_row rows =
     (let i = last_hit_index rows
      in if 0 \<le> i \<and> i < int (length rows) then Some (rows ! nat i) else None)"

record blast_view =
  bv_verdict :: string
  bv_verdict_tone :: tone
  bv_domain_count :: string
  bv_subtitle :: string
  bv_subtitle_title :: string
  bv_rows :: "chain_row list"
  bv_row_labels :: "(string \<times> string) list"
  bv_boundary_title :: "string option"
  bv_boundary_before :: "bool list"
  bv_arrows :: "(bool \<times> bool) list"

text \<open>
  The element of the page: \<open>bv_row_labels\<close> are the domain and role labels of the rows,
  \<open>bv_boundary_before\<close> the rows under the trust boundary, \<open>bv_arrows\<close> for every row whether an arrow
  follows and whether it is drawn as propagating.
\<close>

definition blast_radius :: "blast_props \<Rightarrow> blast_view" where
  "blast_radius p =
     (let anyFault = (bp_affected p \<noteq> []);
          rows = chain_rows p;
          lastHit = last_hit_index rows;
          flight = bp_flight_domain_affected p;
          subtitle = (if flight then ''A fault reached the flight-critical domain.''
            else case stopped_row rows of
                   Some r \<Rightarrow> ''Stopped at '' @ DOMAIN_LABEL (cr_domain r) @ ''.''
                 | None \<Rightarrow> if anyFault then ''No fault on the command path.''
                           else ''No fault has been observed yet.'');
          affectedNames = join_with '', '' (map DOMAIN_LABEL (bp_affected_domains p));
          boundary = bp_boundary p
      in \<lparr>bv_verdict = (if flight then ''BLAST RADIUS: PROPAGATED TO FLIGHT DOMAIN''
            else if anyFault then ''BLAST RADIUS: CONTAINED'' else ''BLAST RADIUS: NO FAULT OBSERVED''),
          bv_verdict_tone = (if flight then Bad else if anyFault then Ok else Dim),
          bv_domain_count = dec (int (length (bp_affected_domains p))) @ '' / ''
            @ dec (int (length DOMAIN_ORDER)) @ '' domains'',
          bv_subtitle = subtitle
            @ (if affectedNames \<noteq> [] then '' Affected: '' @ affectedNames @ ''.'' else []),
          bv_subtitle_title = (if affectedNames \<noteq> [] then ''Affected domains: '' @ affectedNames
            else subtitle),
          bv_rows = rows,
          bv_row_labels = map (\<lambda>r. (nullish (CHAIN_LABEL (cr_domain r)) (DOMAIN_LABEL (cr_domain r)),
            ROLE_LABEL (cr_role r))) rows,
          bv_boundary_title = map_option (\<lambda>b. tb_name b @ ''. '' @ tb_description b) boundary,
          bv_boundary_before = map (\<lambda>r. boundary \<noteq> None \<and> cr_domain r = Flight_control) rows,
          bv_arrows = map (\<lambda>i.
            (i + 1 < length rows
               \<and> \<not> (boundary \<noteq> None \<and> cr_domain (rows ! (i + 1)) = Flight_control),
             int i < lastHit)) [0..<length rows]\<rparr>)"

section \<open>Properties\<close>

lemma last_hit_index_snoc:
  "last_hit_index (rows @ [r]) = (if is_hit r then int (length rows) else last_hit_index rows)"
  by (simp add: last_hit_index_def)

lemma last_hit_index_spec:
  "- 1 \<le> last_hit_index rows \<and> last_hit_index rows < int (length rows)
   \<and> (\<forall>i < length rows. is_hit (rows ! i) \<longrightarrow> int i \<le> last_hit_index rows)
   \<and> (0 \<le> last_hit_index rows \<longrightarrow> is_hit (rows ! nat (last_hit_index rows)))"
proof (induction rows rule: rev_induct)
  case Nil
  show ?case by (simp add: last_hit_index_def)
next
  case (snoc r rows)
  then show ?case
    by (auto simp: last_hit_index_snoc nth_append less_Suc_eq)
qed

lemma chain_rows_member:
  assumes "r \<in> set (chain_rows p)"
  obtains d where "d \<in> set CHAIN_DOMAINS" "chain_ids p d \<noteq> []" "r = chain_row_of p d (chain_ids p d)"
  using assms by (auto simp: chain_rows_def List.map_filter_def split: if_splits)

text \<open>
  C16. A domain is shown as protected only when a fault was observed, the domain has a
  flight-critical component on the command path, and every one of its components on the path is
  healthy, none injected and none affected. The view says the fault stopped at the last domain
  it hit: no later domain of the path is injected or affected. It says "contained" exactly when
  a component is affected and the flight domain is not.
\<close>

theorem blast_radius_sound:
  "(\<forall>r \<in> set (bv_rows (blast_radius p)). cr_role r = R_protected \<longrightarrow>
      bp_affected p \<noteq> []
      \<and> (\<exists>i \<in> set (chain_ids p (cr_domain r)).
            map_option co_trust_zone (map_of (bp_components p) i) = Some TZ_flight_critical)
      \<and> (\<forall>i \<in> set (chain_ids p (cr_domain r)). is_healthy (map_of (bp_health p) i)
            \<and> i \<notin> set (bp_injected p) \<and> i \<notin> set (bp_affected p)))
   \<and> (\<forall>r. stopped_row (bv_rows (blast_radius p)) = Some r \<longrightarrow>
        (\<exists>i < length (bv_rows (blast_radius p)). bv_rows (blast_radius p) ! i = r \<and> is_hit r
          \<and> (\<forall>j < length (bv_rows (blast_radius p)). i < j \<longrightarrow> \<not> is_hit (bv_rows (blast_radius p) ! j))))
   \<and> (bv_verdict (blast_radius p) = ''BLAST RADIUS: CONTAINED''
        \<longleftrightarrow> bp_affected p \<noteq> [] \<and> \<not> bp_flight_domain_affected p)"
proof -
  have rows: "bv_rows (blast_radius p) = chain_rows p" by (simp add: blast_radius_def Let_def)
  have protected: "bp_affected p \<noteq> []
      \<and> (\<exists>i \<in> set (chain_ids p (cr_domain r)).
            map_option co_trust_zone (map_of (bp_components p) i) = Some TZ_flight_critical)
      \<and> (\<forall>i \<in> set (chain_ids p (cr_domain r)). is_healthy (map_of (bp_health p) i)
            \<and> i \<notin> set (bp_injected p) \<and> i \<notin> set (bp_affected p))"
    if m: "r \<in> set (chain_rows p)" and role: "cr_role r = R_protected" for r
  proof -
    obtain d where r: "r = chain_row_of p d (chain_ids p d)" using m by (blast elim: chain_rows_member)
    then have d: "cr_domain r = d" by (simp add: chain_row_of_def Let_def)
    have "chain_role p (chain_ids p d) = R_protected"
      using role by (simp add: r chain_row_of_def Let_def)
    then show ?thesis
      by (auto simp: d chain_role_def Let_def list_ex_iff list_all_iff filter_empty_conv split: if_splits)
  qed
  have stopped: "\<exists>i < length (chain_rows p). chain_rows p ! i = r \<and> is_hit r
      \<and> (\<forall>j < length (chain_rows p). i < j \<longrightarrow> \<not> is_hit (chain_rows p ! j))"
    if "stopped_row (chain_rows p) = Some r" for r
  proof -
    let ?l = "last_hit_index (chain_rows p)"
    have l: "0 \<le> ?l" "?l < int (length (chain_rows p))" "r = chain_rows p ! nat ?l"
      using that by (auto simp: stopped_row_def Let_def split: if_splits)
    then have "nat ?l < length (chain_rows p)" by simp
    moreover have "\<not> is_hit (chain_rows p ! j)" if "j < length (chain_rows p)" "nat ?l < j" for j
      using last_hit_index_spec [of "chain_rows p"] that l(1) by force
    ultimately show ?thesis
      using last_hit_index_spec [of "chain_rows p"] l by blast
  qed
  have verdict: "bv_verdict (blast_radius p) = ''BLAST RADIUS: CONTAINED''
        \<longleftrightarrow> bp_affected p \<noteq> [] \<and> \<not> bp_flight_domain_affected p"
    by (simp add: blast_radius_def Let_def)
  show ?thesis unfolding rows using protected stopped verdict by blast
qed

definition blast_example :: blast_props where
  "blast_example =
     \<lparr>bp_components = [(''flight_control.core'', flight_core)], bp_injected = [],
      bp_affected = [''navigation.gnss''], bp_health = [(''flight_control.core'', OPERATIONAL)],
      bp_boundary = None, bp_affected_domains = [Navigation], bp_flight_domain_affected = False\<rparr>"

theorem blast_radius_sound_witness:
  "bv_verdict (blast_radius blast_example) = ''BLAST RADIUS: CONTAINED''
   \<and> map cr_role (bv_rows (blast_radius blast_example)) = [R_protected]"
proof -
  have "map cr_role (bv_rows (blast_radius blast_example)) = [R_protected]"
    by (simp add: blast_radius_def Let_def chain_rows_def CHAIN_DOMAINS_def chain_ids_def
        PROPAGATION_CHAIN_def blast_example_def flight_core_def List.map_filter_def chain_row_of_def
        chain_role_def is_healthy_Some)
  then show ?thesis
    using blast_radius_sound [of blast_example] by (simp add: blast_example_def)
qed

end
