(* ===== verification/MissionPanels.thy ===== *)
theory MissionPanels
  imports BlastRadius Format RunStream ScenarioDocument ApiClient
begin

text \<open>
  apps/web/src/components/mission/: kpi-row.tsx, status-bar.tsx, system-panel.tsx,
  event-feed.tsx and upcoming-injections.tsx, each as the record of what it displays.
\<close>

abbreviation num :: "rat \<Rightarrow> jsnum option" where
  "num x \<equiv> Some (Fin x)"

text \<open>Integers of the interface are counters, printed by their digits.\<close>

definition int_text :: "int \<Rightarrow> string" where
  "int_text n = (if n < 0 then ''-'' @ dec (- n) else dec n)"

section \<open>Figures: kpi-row.tsx\<close>

record kpi_value =
  kv_text :: string
  kv_tone :: "tone option"

record kpi_item =
  ki_label :: string
  ki_value :: string
  ki_tone :: "tone option"

record kpi_panel =
  kp_title :: string
  kp_source :: badge
  kp_value :: kpi_value
  kp_items :: "kpi_item list"
  kp_badges :: "(string \<times> badge) list"

abbreviation plain_badge :: "string \<Rightarrow> tone \<Rightarrow> badge" where
  "plain_badge s t \<equiv> \<lparr>bd_text = s, bd_tone = t, bd_title = []\<rparr>"

abbreviation item :: "string \<Rightarrow> string \<Rightarrow> tone option \<Rightarrow> kpi_item" where
  "item l v t \<equiv> \<lparr>ki_label = l, ki_value = v, ki_tone = t\<rparr>"

definition source_badge :: "bool \<Rightarrow> badge" where
  "source_badge analyzed =
     (if analyzed then plain_badge ''ANALYZED'' Info else plain_badge ''LIVE ESTIMATE'' Dim)"

text \<open>\<open>FLIGHT_MODE[name]\<close> for a name that may not be one of its keys.\<close>

definition flight_modes :: "flight_mode list" where
  "flight_modes = [FM_IDLE, FM_TAKEOFF, FM_MISSION, FM_HOLD, FM_RTL, FM_LAND, FM_LANDED, FM_UNKNOWN]"

definition flight_mode_style :: "string \<Rightarrow> state_style option" where
  "flight_mode_style name = map_option FLIGHT_MODE (find (\<lambda>m. flight_mode_str m = name) flight_modes)"

definition mission_kpi :: "mission_kpis \<Rightarrow> metrics_response option \<Rightarrow> kpi_panel" where
  "mission_kpi live metrics =
     (let analyzed = (metrics \<noteq> None);
          completion = (case metrics of Some m \<Rightarrow> mm_completion (mr_mission (mx_metrics m))
                        | None \<Rightarrow> lm_progress live);
          preserved = (case metrics of Some m \<Rightarrow> sm_preserved (mr_safety (mx_metrics m))
                       | None \<Rightarrow> lm_safety_preserved live);
          mode = flight_mode_style (lm_flight_mode live)
      in \<lparr>kp_title = ''Mission'', kp_source = source_badge analyzed,
          kp_value = \<lparr>kv_text = format_percent (num completion) 0, kv_tone = None\<rparr>,
          kp_items =
            [item ''Phase'' (lm_phase live) None,
             item ''Flight mode'' (nullish (map_option st_label mode) (lm_flight_mode live))
               (map_option st_tone mode),
             item ''Autonomy'' (lm_autonomy live) None],
          kp_badges =
            [(''Safety state'',
              if \<not> analyzed \<and> \<not> lm_observed live
              then \<lparr>bd_text = ''NO OBSERVATION'', bd_tone = Dim,
                    bd_title = ''Nothing was observed for this run''\<rparr>
              else if preserved then plain_badge ''PRESERVED'' Ok else plain_badge ''VIOLATED'' Bad)]\<rparr>)"

definition recovery_kpi :: "recovery_kpis \<Rightarrow> metrics_response option \<Rightarrow> kpi_panel" where
  "recovery_kpi live metrics =
     (let rec_m = map_option (\<lambda>m. mr_recovery (mx_metrics m)) metrics;
          recovered = (case rec_m of Some r \<Rightarrow> rm_faults_recovered r | None \<Rightarrow> lr_recovered live);
          required = (case rec_m of Some r \<Rightarrow> rm_faults_requiring_recovery r
                      | None \<Rightarrow> lr_faults_observed live);
          mttr = (case rec_m of Some r \<Rightarrow> rm_mean_time_to_recovery r
                  | None \<Rightarrow> lr_mean_time_to_recovery live);
          safeState = (case rec_m of Some r \<Rightarrow> rm_time_to_safe_state r
                       | None \<Rightarrow> lr_time_to_safe_state live);
          entered = (case rec_m of Some r \<Rightarrow> rm_safe_state_entered r
                     | None \<Rightarrow> lr_safe_state_entered live)
      in \<lparr>kp_title = ''Recovery'', kp_source = source_badge (metrics \<noteq> None),
          kp_value = \<lparr>kv_text = int_text recovered @ '' / '' @ int_text required,
            kv_tone = Some (if required = 0 then Dim else if recovered = required then Ok else Warn)\<rparr>,
          kp_items =
            [item ''Recovered / observed faults'' (int_text recovered @ '' of '' @ int_text required) None,
             item ''Mean time to recovery''
               (case mttr of Some x \<Rightarrow> format_duration (num x) | None \<Rightarrow> ''n/a'') None,
             item ''Time to safe state''
               (case (entered, safeState) of
                  (True, Some x) \<Rightarrow> format_duration (num x)
                | (True, None) \<Rightarrow> ''entered''
                | (False, _) \<Rightarrow> ''not entered'')
               (Some (if entered then Warn else Dim))],
          kp_badges = []\<rparr>)"

definition containment_kpi :: "containment_kpis \<Rightarrow> metrics_response option \<Rightarrow> kpi_panel" where
  "containment_kpi live metrics =
     (let propagation = map_option (\<lambda>m. mr_propagation (mx_metrics m)) metrics;
          contained = (case propagation of Some p \<Rightarrow> pm_contained p | None \<Rightarrow> lc_contained live);
          flight = (case propagation of Some p \<Rightarrow> pm_flight_domain_affected p
                    | None \<Rightarrow> lc_flight_domain_affected live);
          affectedDomains = (case propagation of Some p \<Rightarrow> length (pm_affected_domains p)
                             | None \<Rightarrow> length (lc_affected_domains live));
          propagated = (case propagation of Some p \<Rightarrow> length (pm_propagated_components p)
                        | None \<Rightarrow> length (lc_propagated live))
      in \<lparr>kp_title = ''Containment'', kp_source = source_badge (metrics \<noteq> None),
          kp_value =
            (if metrics = None \<and> lc_affected live = []
             then \<lparr>kv_text = ''NO FAULT'', kv_tone = Some Dim\<rparr>
             else if contained then \<lparr>kv_text = ''CONTAINED'', kv_tone = Some Ok\<rparr>
             else \<lparr>kv_text = ''PROPAGATED'', kv_tone = Some Bad\<rparr>),
          kp_items =
            [item ''Affected domains''
               (dec (int affectedDomains) @ '' / '' @ dec (int (length DOMAIN_ORDER))) None,
             item ''Propagated components'' (dec (int propagated)) None],
          kp_badges =
            [(''Flight domain'',
              if flight then plain_badge ''AFFECTED'' Bad else plain_badge ''UNTOUCHED'' Ok)]\<rparr>)"

record score_view =
  sv_score :: string
  sv_result :: badge
  sv_items :: "kpi_item list"
  sv_links :: "(string \<times> string) list"

definition score_kpi :: "metrics_response \<Rightarrow> string \<Rightarrow> bool \<Rightarrow> score_view" where
  "score_kpi metrics runId reportAvailable =
     (let score = mx_score metrics;
          gatesPassed = list_all hg_passed (sr_hard_gates score)
      in \<lparr>sv_score = format_score (num (sr_total score)),
          sv_result = result_badge (Some (sr_result score)),
          sv_items =
            [item ''Hard gates'' (if gatesPassed then ''all passed'' else ''violated'')
               (Some (if gatesPassed then Ok else Bad)),
             item ''Profile'' (pf_name (sr_profile score)) None],
          sv_links = [(''Run analysis'', ''/runs/'' @ runId)]
            @ (if reportAvailable then [(''Report'', ''/reports?run='' @ runId)] else [])\<rparr>)"

section \<open>The status bar: status-bar.tsx\<close>

record status_props =
  sp_run :: run_detail
  sp_adapter :: "adapter_info option"
  sp_connection :: connection_status
  sp_simulation_time :: rat
  sp_progress :: rat
  sp_speed :: rat
  sp_cancel_pending :: bool
  sp_can_cancel :: bool
  sp_report_available :: bool

record status_view =
  sb_adapter :: string
  sb_data_origin :: string
  sb_origin_badge :: badge
  sb_scenario :: "string \<times> string"
  sb_version :: string
  sb_run :: "string \<times> string"
  sb_run_state :: badge
  sb_result :: "badge option"
  sb_score :: "string option"
  sb_time :: string
  sb_speed :: string
  sb_progress :: string
  sb_progress_now :: int
  sb_bar_percent :: rat
  sb_connection :: "string \<times> tone \<times> bool"
  sb_cancel :: "(string \<times> bool) option"
  sb_report :: "string option"

text \<open>
  The width of the bar is \<open>Math.min(100, Math.max(0, progress * 100))\<close>; the third part of
  \<open>sb_connection\<close> is the pulse; a button is its text and whether it is disabled.
\<close>

definition status_bar :: "string option \<Rightarrow> status_props \<Rightarrow> status_view" where
  "status_bar env p =
     (let run = sp_run p;
          origin = nullish (map_option ai_data_origin (sp_adapter p)) ''unknown'';
          connection = sp_connection p
      in \<lparr>sb_adapter = nullish (map_option ai_display_name (sp_adapter p)) (rs_adapter run),
          sb_data_origin = ''Data origin: '' @ origin,
          sb_origin_badge = \<lparr>bd_text = nullish (map_option ai_data_origin (sp_adapter p)) (rs_adapter run),
            bd_tone = Info, bd_title = ''Data origin: '' @ origin\<rparr>,
          sb_scenario = (rs_scenario_name run, ''/scenarios/'' @ rs_scenario_name run),
          sb_version = ''v'' @ rs_scenario_version run,
          sb_run = (short_id (rs_id run), ''/runs/'' @ rs_id run),
          sb_run_state = run_state_badge (rs_state run),
          sb_result = map_option (\<lambda>r. result_badge (Some r)) (rs_result run),
          sb_score = map_option (\<lambda>s. format_score (num s)) (rs_resilience_score run),
          sb_time = format_mission_time (num (sp_simulation_time p)),
          sb_speed = rat_str (sp_speed p) @ ''x'',
          sb_progress = format_percent (num (sp_progress p)) 0,
          sb_progress_now = math_round (fl (sp_progress p * 100)),
          sb_bar_percent = min 100 (max 0 (fl (sp_progress p * 100))),
          sb_connection = (connection_label connection, connection_tone connection,
            connection = CS_connecting \<or> connection = CS_reconnecting),
          sb_cancel = (if sp_can_cancel p
            then Some (if sp_cancel_pending p then ''Cancelling'' else ''Cancel'', sp_cancel_pending p)
            else None),
          sb_report = (if sp_report_available p
            then Some (api_url env (''/api/v1/runs/'' @ rs_id run @ ''/report.html'')) else None)\<rparr>)"

section \<open>The system panel: system-panel.tsx\<close>

record system_row =
  sw_id :: string
  sw_name :: string
  sw_description :: "string option"
  sw_critical :: bool
  sw_highlighted :: bool
  sw_badge :: badge

definition system_row_of :: "(string \<times> component_state) list \<Rightarrow> component \<Rightarrow> system_row" where
  "system_row_of health c =
     (let st = map_of health (co_id c)
      in \<lparr>sw_id = co_id c, sw_name = co_name c,
          sw_description = (if co_description c = [] then None else Some (co_description c)),
          sw_critical = co_critical c,
          sw_highlighted = (st \<noteq> None \<and> \<not> is_healthy st),
          sw_badge = component_state_badge st\<rparr>)"

datatype system_panel_view =
    No_topology
  | System_groups "(string \<times> system_row list) list"

definition system_panel :: "domain_group list \<Rightarrow> (string \<times> component_state) list \<Rightarrow> system_panel_view" where
  "system_panel groups health =
     (if groups = [] then No_topology
      else System_groups (map (\<lambda>g. (DOMAIN_LABEL (dg_domain g),
             map (system_row_of health) (dg_components g))) groups))"

section \<open>Alerts and events: event-feed.tsx\<close>

datatype alerts_view = All_nominal | Alert_rows "(string \<times> string \<times> tone) list"

definition active_alerts_view :: "active_alert list \<Rightarrow> alerts_view" where
  "active_alerts_view alerts =
     (if alerts = [] then All_nominal
      else Alert_rows (map (\<lambda>a. (al_label a, al_detail a, al_tone a)) alerts))"

record event_row =
  er_time :: string
  er_kind :: badge
  er_severity :: "string \<times> tone"
  er_rail :: string
  er_message :: string
  er_tone :: tone
  er_subsystem :: "string option"

definition event_row_of :: "run_event \<Rightarrow> event_row" where
  "event_row_of e =
     \<lparr>er_time = format_mission_time (num (ev_simulation_time e)),
      er_kind = event_kind_badge (ev_kind e),
      er_severity = (st_label (SEVERITY (ev_severity e)), st_tone (SEVERITY (ev_severity e))),
      er_rail = ec_rail (EVENT_CLASS (event_class e)),
      er_message = ev_message e,
      er_tone = event_tone e,
      er_subsystem = (if truthy (ev_subsystem e) then ev_subsystem e else None)\<rparr>"

datatype feed_view = Empty_feed string | Feed_rows "event_row list"

definition event_feed :: "run_event list \<Rightarrow> string \<Rightarrow> feed_view" where
  "event_feed events emptyLabel =
     (if events = [] then Empty_feed emptyLabel else Feed_rows (map event_row_of events))"

definition EVENT_LEGEND :: "(string \<times> string) list" where
  "EVENT_LEGEND =
     map (\<lambda>k. (ec_label (EVENT_CLASS k), ec_description (EVENT_CLASS k)))
       [C_injection, C_observed, C_response, C_verification]"

section \<open>Upcoming injections: upcoming-injections.tsx\<close>

datatype injection_status = Applied | In_time string | Due

record upcoming_row =
  ur_time :: string
  ur_id :: string
  ur_from_profile :: bool
  ur_what :: string
  ur_faded :: bool
  ur_status :: injection_status

definition upcoming_row_of ::
  "rat \<Rightarrow> string list \<Rightarrow> (string \<times> string) list \<Rightarrow> scheduled_injection \<Rightarrow> upcoming_row" where
  "upcoming_row_of now appliedIds names i =
     (let remaining = num_sub (si_at i) (Fin now);
          pending = num_less (Fin 0) remaining
      in \<lparr>ur_time = format_mission_time (Some (si_at i)),
          ur_id = si_id i,
          ur_from_profile = si_from_profile i,
          ur_what = si_effect i @ '' on '' @ nullish (map_of names (si_subsystem i)) (si_subsystem i)
            @ (if truthy (si_duration i) then '' for '' @ nullish (si_duration i) [] else []),
          ur_faded = (\<not> pending),
          ur_status = (if si_id i \<in> set appliedIds then Applied
                       else if pending then In_time (format_duration (Some remaining)) else Due)\<rparr>)"

datatype upcoming_view = No_injection | Upcoming_rows "upcoming_row list"

definition upcoming_injections ::
  "scheduled_injection list \<Rightarrow> rat \<Rightarrow> string list \<Rightarrow> (string \<times> string) list \<Rightarrow> upcoming_view" where
  "upcoming_injections schedule now appliedIds names =
     (if schedule = [] then No_injection
      else Upcoming_rows (map (upcoming_row_of now appliedIds names) schedule))"

section \<open>Properties\<close>

text \<open>
  The mission panel claims that safety is preserved or violated only on evidence: from the
  analysis when there is one, and otherwise only after something was observed; without either it
  says that nothing was observed.
\<close>

theorem safety_claim_needs_evidence:
  "(let b = snd (hd (kp_badges (mission_kpi live metrics)))
    in (bd_text b = ''NO OBSERVATION'' \<longleftrightarrow> metrics = None \<and> \<not> lm_observed live)
       \<and> (bd_text b = ''PRESERVED'' \<longleftrightarrow>
            (case metrics of Some m \<Rightarrow> sm_preserved (mr_safety (mx_metrics m))
             | None \<Rightarrow> lm_observed live \<and> lm_safety_preserved live)))"
  by (simp add: mission_kpi_def Let_def split: option.split)

text \<open>
  A component of the system panel is highlighted exactly when a state is reported for it
  that is not shown as healthy; the badge has the healthy tone exactly for the healthy states,
  so a component without an observation is never shown as healthy.
\<close>

theorem system_row_honest:
  "(sw_highlighted (system_row_of health c) \<longleftrightarrow>
      (\<exists>st. map_of health (co_id c) = Some st \<and> bd_tone (sw_badge (system_row_of health c)) \<noteq> Ok))
   \<and> (bd_tone (sw_badge (system_row_of health c)) = Ok \<longleftrightarrow> is_healthy (map_of health (co_id c)))"
proof (cases "map_of health (co_id c)")
  case None
  then show ?thesis
    by (simp add: system_row_of_def component_state_badge_def style_badge_def)
next
  case (Some st)
  then show ?thesis
    by (cases st) (simp_all add: system_row_of_def component_state_badge_def style_badge_def is_healthy_Some)
qed

text \<open>
  An injection of the schedule is shown as applied only when the observed feed confirmed it;
  one that is due but not confirmed is shown as due, however late it is.
\<close>

theorem upcoming_never_assumes_applied:
  "(ur_status (upcoming_row_of now appliedIds names i) = Applied \<longleftrightarrow> si_id i \<in> set appliedIds)
   \<and> (ur_status (upcoming_row_of now appliedIds names i) = Due
        \<longleftrightarrow> si_id i \<notin> set appliedIds \<and> \<not> num_less (Fin 0) (num_sub (si_at i) (Fin now)))"
  by (simp add: upcoming_row_of_def Let_def)

text \<open>
  The progress bar stays between empty and full, and grows with the progress.
\<close>

theorem progress_bar_bounds:
  "0 \<le> sb_bar_percent (status_bar env p) \<and> sb_bar_percent (status_bar env p) \<le> 100
   \<and> (sp_progress p \<le> sp_progress q \<longrightarrow>
        sb_bar_percent (status_bar env p) \<le> sb_bar_percent (status_bar env q))"
proof -
  have "sp_progress p \<le> sp_progress q \<Longrightarrow> fl (sp_progress p * 100) \<le> fl (sp_progress q * 100)"
    by (intro fl_mono mult_right_mono) simp_all
  then show ?thesis by (auto simp: status_bar_def Let_def)
qed

definition status_example :: "rat \<Rightarrow> status_props" where
  "status_example progress =
     \<lparr>sp_run = run_example, sp_adapter = None, sp_connection = CS_live, sp_simulation_time = 12,
      sp_progress = progress, sp_speed = 1, sp_cancel_pending = False, sp_can_cancel = True,
      sp_report_available = False\<rparr>"

theorem progress_bar_bounds_witness:
  "sb_bar_percent (status_bar None (status_example (1 / 4)))
     \<le> sb_bar_percent (status_bar None (status_example (1 / 2)))"
  using progress_bar_bounds [of None "status_example (1 / 4)" "status_example (1 / 2)"]
  by (simp add: status_example_def)

end
