(* ===== verification/TimelineView.thy ===== *)
theory TimelineView
  imports RunView Format JSNumOrder
begin

text \<open>
  apps/web/src/components/mission/state-timeline.tsx and hooks/use-element-size.ts: the drawing
  of the state timeline, as the rectangles, lines and texts of its SVG with their coordinates.
  Coordinates are doubles.
\<close>

definition LABEL_WIDTH :: rat where "LABEL_WIDTH = 176"
definition ROW_HEIGHT :: rat where "ROW_HEIGHT = 16"
definition ROW_GAP :: rat where "ROW_GAP = 3"
definition AXIS_HEIGHT :: rat where "AXIS_HEIGHT = 16"
definition RIGHT_PAD :: rat where "RIGHT_PAD = 12"

definition segment_fill :: "component_state \<Rightarrow> string \<times> rat" where
  "segment_fill st =
     (let tone = st_tone (COMPONENT_STATE st);
          quiet = (tone = Ok \<or> tone = Dim)
      in (TONE_HEX tone, if quiet then 26 / 100 else 8 / 10))"

definition TICK_CANDIDATES :: "int list" where
  "TICK_CANDIDATES = [5, 10, 15, 30, 60, 120, 300, 600]"

definition tick_step :: "rat \<Rightarrow> int" where
  "tick_step duration =
     (case find (\<lambda>step. fl (duration / of_int step) \<le> 12) TICK_CANDIDATES of
        Some step \<Rightarrow> step
      | None \<Rightarrow> 900)"

text \<open>
  The layout of one drawing. \<open>width\<close> is the observed width of the container, 0 before the first
  observation.
\<close>

definition plot_width :: "rat \<Rightarrow> rat" where
  "plot_width width = max 80 (fl (fl (width - LABEL_WIDTH) - RIGHT_PAD))"

definition span_of :: "rat \<Rightarrow> rat" where
  "span_of duration = max duration 1"

definition chart_height :: "subsystem_track list \<Rightarrow> rat" where
  "chart_height tracks = of_nat (length tracks) * (ROW_HEIGHT + ROW_GAP) + AXIS_HEIGHT"

definition time_scale :: "rat \<Rightarrow> rat \<Rightarrow> rat \<Rightarrow> rat" where
  "time_scale width extent seconds =
     fl (LABEL_WIDTH + fl (fl (min (max seconds 0) extent / extent) * plot_width width))"

text \<open>
  \<open>for (let t = 0; t <= extent + 0.001; t += step)\<close>. The ticks are integers far below 2^53, so
  their sums are exact.
\<close>

function ticks_from :: "rat \<Rightarrow> int \<Rightarrow> int \<Rightarrow> int list" where
  "ticks_from limit step t =
     (if of_int t \<le> limit \<and> 0 < step then t # ticks_from limit step (t + step) else [])"
  by pat_completeness auto
termination
proof (relation "measure (\<lambda>(limit, step, t). nat (\<lfloor>limit\<rfloor> + 1 - t))")
  show "wf (measure (\<lambda>(limit, step, t). nat (\<lfloor>limit :: rat\<rfloor> + 1 - t)))" by simp
  fix limit :: rat and step t :: int
  assume "of_int t \<le> limit \<and> 0 < step"
  then have "t \<le> \<lfloor>limit\<rfloor>" "0 < step" by (simp_all add: le_floor_iff)
  then show "((limit, step, t + step), (limit, step, t)) \<in> measure (\<lambda>(limit, step, t). nat (\<lfloor>limit\<rfloor> + 1 - t))"
    by simp
qed

declare ticks_from.simps [simp del]

definition timeline_ticks :: "rat \<Rightarrow> int list" where
  "timeline_ticks extent = ticks_from (fl (extent + fl (1 / 1000))) (tick_step extent) 0"

record segment_rect =
  sr_x :: rat
  sr_width :: rat
  sr_fill :: string
  sr_opacity :: rat
  sr_tip :: string
  sr_label :: "string option"

text \<open>A label is drawn where it fits: \<open>segmentWidth > label.length * 6.2 + 10\<close>.\<close>

definition segment_rect_of :: "rat \<Rightarrow> rat \<Rightarrow> string \<Rightarrow> state_segment \<Rightarrow> segment_rect" where
  "segment_rect_of width extent name seg =
     (let x = time_scale width extent (sg_from seg);
          segmentWidth = max (fl (12 / 10)) (fl (time_scale width extent (sg_to seg) - x));
          label = st_label (COMPONENT_STATE (sg_state seg))
      in \<lparr>sr_x = x, sr_width = segmentWidth,
          sr_fill = fst (segment_fill (sg_state seg)), sr_opacity = snd (segment_fill (sg_state seg)),
          sr_tip = name @ '': '' @ label @ '' from '' @ format_mission_time (Some (Fin (sg_from seg)))
            @ '' to '' @ format_mission_time (Some (Fin (sg_to seg))),
          sr_label = (if segmentWidth > fl (fl (of_nat (length label) * fl (62 / 10)) + 10)
                      then Some label else None)\<rparr>)"

record track_row =
  tw_y :: rat
  tw_name :: string
  tw_critical :: bool
  tw_segments :: "segment_rect list"

definition track_row_of :: "rat \<Rightarrow> rat \<Rightarrow> nat \<Rightarrow> subsystem_track \<Rightarrow> track_row" where
  "track_row_of width extent index track =
     \<lparr>tw_y = of_nat index * (ROW_HEIGHT + ROW_GAP),
      tw_name = (if length (tr_name track) > 24 then take 23 (tr_name track) @ ''.'' else tr_name track),
      tw_critical = tr_critical track,
      tw_segments = map (segment_rect_of width extent (tr_name track)) (tr_segments track)\<rparr>"

record marker_view =
  mv_x :: rat
  mv_tip :: string

definition marker_view_of :: "rat \<Rightarrow> rat \<Rightarrow> injection_marker \<Rightarrow> marker_view" where
  "marker_view_of width extent m =
     \<lparr>mv_x = time_scale width extent (im_t m),
      mv_tip = ''Injection '' @ im_label m @ '' applied at '' @ format_mission_time (Some (Fin (im_t m)))\<rparr>"

datatype text_anchor = Anchor_start | Anchor_middle | Anchor_end

record tick_view =
  tv_x :: rat
  tv_text :: string
  tv_anchor :: text_anchor

definition tick_view_of :: "rat \<Rightarrow> rat \<Rightarrow> int \<Rightarrow> tick_view" where
  "tick_view_of width extent tick =
     \<lparr>tv_x = time_scale width extent (of_int tick),
      tv_text = format_mission_time (Some (Fin (of_int tick))),
      tv_anchor = (if tick = 0 then Anchor_start
                   else if of_int (tick + tick_step extent) > extent then Anchor_end else Anchor_middle)\<rparr>"

record timeline_view =
  tl_height :: rat
  tl_grid :: "rat list"
  tl_rows :: "track_row list"
  tl_markers :: "marker_view list"
  tl_now :: rat
  tl_ticks :: "tick_view list"

text \<open>\<open>None\<close> is the placeholder shown while the width is not known.\<close>

definition state_timeline ::
  "rat \<Rightarrow> subsystem_track list \<Rightarrow> injection_marker list \<Rightarrow> rat \<Rightarrow> rat \<Rightarrow> timeline_view option" where
  "state_timeline width tracks markers now duration =
     (if width > 0 then
        (let extent = span_of duration;
             ticks = timeline_ticks extent
         in Some \<lparr>tl_height = chart_height tracks,
              tl_grid = map (\<lambda>t. time_scale width extent (of_int t)) ticks,
              tl_rows = map (\<lambda>(i, t). track_row_of width extent i t) (zip [0..<length tracks] tracks),
              tl_markers = map (marker_view_of width extent) markers,
              tl_now = time_scale width extent now,
              tl_ticks = map (tick_view_of width extent) ticks\<rparr>)
      else None)"

section \<open>Properties\<close>

lemma span_pos: "0 < span_of d"
  by (simp add: span_of_def)

lemma plot_width_pos: "0 < plot_width w"
  by (simp add: plot_width_def less_le_trans [of 0 80])

lemma plot_width_double: "fl (plot_width w) = plot_width w"
  by (simp add: plot_width_def max_def fl_simps)

lemma time_scale_mono:
  assumes "0 < extent" "a \<le> b"
  shows "time_scale w extent a \<le> time_scale w extent b"
proof -
  have "min (max a 0) extent / extent \<le> min (max b 0) extent / extent"
    using assms by (intro divide_right_mono) auto
  then have "fl (min (max a 0) extent / extent) * plot_width w \<le> fl (min (max b 0) extent / extent) * plot_width w"
    using plot_width_pos [of w] by (intro mult_right_mono fl_mono) simp_all
  then show ?thesis
    unfolding time_scale_def by (intro fl_mono add_left_mono)
qed

lemma time_scale_ends:
  assumes "0 < extent" "fl (LABEL_WIDTH + plot_width w) = LABEL_WIDTH + plot_width w"
  shows "time_scale w extent 0 = LABEL_WIDTH" "time_scale w extent extent = LABEL_WIDTH + plot_width w"
proof -
  have "fl 176 = 176" by (simp add: fl_simps)
  then show "time_scale w extent 0 = LABEL_WIDTH"
    using assms(1) by (simp add: time_scale_def LABEL_WIDTH_def)
  show "time_scale w extent extent = LABEL_WIDTH + plot_width w"
    using assms by (simp add: time_scale_def plot_width_double)
qed

text \<open>
  The drawing keeps the order of time: a later time is never drawn to the left of an
  earlier one, and everything is drawn between the left edge and the right edge of the plot;
  times before the start or after the end are drawn on the edges. The width of the plot and its
  right edge are assumed to be exact, as pixel widths are.
\<close>

theorem time_scale_faithful:
  assumes "0 < extent" "fl (LABEL_WIDTH + plot_width w) = LABEL_WIDTH + plot_width w"
  shows "(a \<le> b \<longrightarrow> time_scale w extent a \<le> time_scale w extent b)
    \<and> LABEL_WIDTH \<le> time_scale w extent a \<and> time_scale w extent a \<le> LABEL_WIDTH + plot_width w
    \<and> (a \<le> 0 \<longrightarrow> time_scale w extent a = LABEL_WIDTH)
    \<and> (extent \<le> a \<longrightarrow> time_scale w extent a = LABEL_WIDTH + plot_width w)"
proof -
  let ?c = "min (max a 0) extent"
  have clamp: "time_scale w extent a = time_scale w extent ?c"
    using assms(1) by (simp add: time_scale_def)
  have c: "0 \<le> ?c" "?c \<le> extent" using assms(1) by auto
  have "LABEL_WIDTH \<le> time_scale w extent a" "time_scale w extent a \<le> LABEL_WIDTH + plot_width w"
    using time_scale_mono [OF assms(1) c(1), of w] time_scale_mono [OF assms(1) c(2), of w]
      time_scale_ends [OF assms]
    by (simp_all only: clamp)
  moreover have "a \<le> 0 \<Longrightarrow> time_scale w extent a = LABEL_WIDTH"
    using time_scale_ends(1) [OF assms] assms(1) by (simp add: clamp)
  moreover have "extent \<le> a \<Longrightarrow> time_scale w extent a = LABEL_WIDTH + plot_width w"
    using time_scale_ends(2) [OF assms] assms(1) by (simp add: clamp min_def max_def)
  ultimately show ?thesis using time_scale_mono [OF assms(1)] by blast
qed

theorem time_scale_faithful_witness:
  "time_scale 800 60 75 = LABEL_WIDTH + plot_width 800 \<and> time_scale 800 60 30 \<le> time_scale 800 60 75"
proof -
  have "plot_width 800 = 612" by (simp add: plot_width_def LABEL_WIDTH_def RIGHT_PAD_def fl_simps)
  then have "fl (LABEL_WIDTH + plot_width 800) = LABEL_WIDTH + plot_width 800"
    by (simp add: LABEL_WIDTH_def fl_simps)
  from time_scale_faithful [OF _ this, of 60 30 75] time_scale_faithful [OF _ this, of 60 75 75]
  show ?thesis by simp
qed

lemma ticks_from_eq:
  assumes "0 < step"
  shows "ticks_from limit step t = map (\<lambda>k. t + int k * step) [0..<length (ticks_from limit step t)]
    \<and> (\<forall>x \<in> set (ticks_from limit step t). of_int x \<le> limit)
    \<and> limit < of_int (t + int (length (ticks_from limit step t)) * step)"
  using assms
proof (induction limit step t rule: ticks_from.induct)
  case (1 limit step t)
  show ?case
  proof (cases "of_int t \<le> limit")
    case False
    then show ?thesis by (simp add: ticks_from.simps [of limit step t])
  next
    case True
    let ?r = "ticks_from limit step (t + step)"
    have step: "ticks_from limit step t = t # ?r"
      using True 1(2) by (simp add: ticks_from.simps [of limit step t])
    have IH: "?r = map (\<lambda>k. t + step + int k * step) [0..<length ?r]"
      "\<forall>x \<in> set ?r. of_int x \<le> limit" "limit < of_int (t + step + int (length ?r) * step)"
      using 1 True by blast+
    have "map (\<lambda>k. t + int k * step) [0..<Suc (length ?r)]
        = t # map (\<lambda>k. t + int (Suc k) * step) [0..<length ?r]"
      by (simp add: upt_conv_Cons map_Suc_upt [symmetric] del: upt_Suc map_Suc_upt)
    also have "map (\<lambda>k. t + int (Suc k) * step) [0..<length ?r] = ?r"
      by (subst (2) IH(1)) (simp add: algebra_simps)
    finally show ?thesis
      unfolding step using IH(2,3) True by (simp add: algebra_simps)
  qed
qed

end
