(* ===== verification/MissionControl.thy ===== *)
theory MissionControl
  imports MissionPanels TimelineView ClientState
begin

text \<open>
  apps/web/src/app/mission-control/mission-control-view.tsx: which run the page follows, what it
  derives from the store and the queries, and what it shows. The inputs are the results of the
  hooks; the parts of the page are the views of MissionPanels, BlastRadius and TimelineView.
\<close>

definition DEMO_SCENARIO :: string where
  "DEMO_SCENARIO = ''compound-degradation''"

definition FEED_LIMIT :: nat where
  "FEED_LIMIT = 150"

definition SPEED_OPTIONS :: "(string \<times> string \<times> string) list" where
  "SPEED_OPTIONS =
     map (\<lambda>s. let n = dec (demo_factor s)
              in (n, n @ ''x'', ''Run the demo at '' @ n @ '' times real time'')) DEMO_SPEEDS"

section \<open>Which run\<close>

definition pick_run :: "run_summary list \<Rightarrow> run_summary option" where
  "pick_run runs =
     (case find (\<lambda>r. rs_state r \<in> set ACTIVE_RUN_STATES) runs of
        Some r \<Rightarrow> Some r
      | None \<Rightarrow>
          (case find (\<lambda>r. rs_state r = RS_COMPLETED) runs of
             Some r \<Rightarrow> Some r
           | None \<Rightarrow> (case runs of [] \<Rightarrow> None | r # _ \<Rightarrow> Some r)))"

record system_data =
  sy_topology :: topology
  sy_adapters :: "adapter_info list"
  sy_runners :: "runner_info list"

text \<open>
  \<open>mi_latest\<close> and \<open>mi_time\<close> are the throttled latest sample and simulation time of the store;
  absent data is \<open>None\<close>.
\<close>

record mission_inputs =
  mi_run_param :: "string option"
  mi_system :: "system_data option"
  mi_system_error :: bool
  mi_system_loading :: bool
  mi_scenarios :: "string list option"
  mi_runs :: "run_summary list option"
  mi_runs_loading :: bool
  mi_create_pending :: bool
  mi_cancel_pending :: bool
  mi_settings :: settings
  mi_store :: live_run
  mi_latest :: "telemetry_sample option"
  mi_time :: rat
  mi_metrics :: "metrics_response option"

definition runs_of :: "mission_inputs \<Rightarrow> run_summary list" where
  "runs_of i = nullish (mi_runs i) []"

definition selected_run_id :: "mission_inputs \<Rightarrow> string option" where
  "selected_run_id i =
     (case mi_run_param i of
        Some r \<Rightarrow> Some r
      | None \<Rightarrow> map_option rs_id (pick_run (runs_of i)))"

section \<open>History\<close>

definition history_enabled :: "mission_inputs \<Rightarrow> bool" where
  "history_enabled i =
     (let terminal = (case lv_run (mi_store i) of None \<Rightarrow> False
                      | Some r \<Rightarrow> is_terminal_run_state (rs_state r))
      in truthy (selected_run_id i) \<and> (terminal \<or> lv_finished (mi_store i)))"

definition history_queries :: "mission_inputs \<Rightarrow> query list" where
  "history_queries i =
     (let on = history_enabled i;
          completed = (map_option rs_state (lv_run (mi_store i)) = Some RS_COMPLETED)
      in [use_run_telemetry (selected_run_id i) on 3000,
          use_run_events (selected_run_id i) on 5000,
          use_run_metrics (selected_run_id i) (on \<and> completed)])"

text \<open>The effect that replaces the history of the store once a query has data.\<close>

definition load_history ::
  "telemetry_sample list option \<Rightarrow> run_event list option \<Rightarrow> live_run \<Rightarrow> live_run" where
  "load_history telemetryData eventsData st =
     (if telemetryData = None \<and> eventsData = None then st
      else replace_history eventsData telemetryData st)"

section \<open>Derived views\<close>

definition topology_of :: "mission_inputs \<Rightarrow> topology option" where
  "topology_of i = map_option sy_topology (mi_system i)"

definition adapter_of :: "mission_inputs \<Rightarrow> adapter_info option" where
  "adapter_of i =
     (case mi_system i of
        None \<Rightarrow> None
      | Some s \<Rightarrow>
          find (\<lambda>a. Some (ai_name a) = map_option rs_adapter (lv_run (mi_store i))) (sy_adapters s))"

definition mission_tracks ::
  "(string \<Rightarrow> string \<Rightarrow> int) \<Rightarrow> mission_inputs \<Rightarrow> subsystem_track list" where
  "mission_tracks collate i =
     build_timeline collate (lv_events (mi_store i)) (component_map (topology_of i)) (max (mi_time i) 1)
       (if mi_latest i \<noteq> None then [''flight_control.core''] else [])"

definition mission_schedule ::
  "(string \<Rightarrow> string option + jsval) \<Rightarrow> (string \<Rightarrow> string \<Rightarrow> int) \<Rightarrow> mission_inputs
     \<Rightarrow> scheduled_injection list" where
  "mission_schedule load collate i =
     (case safe_parse_scenario_document load (map_option rd_scenario_document (lv_run (mi_store i))) of
        None \<Rightarrow> []
      | Some draft \<Rightarrow> scenario_schedule collate draft)"

definition applied_ids :: "run_event list \<Rightarrow> string list" where
  "applied_ids events =
     set_of_list (map (\<lambda>e. nullish (ev_scenario_event_id e) [])
       (filter (\<lambda>e. ev_kind e = INJECTION_APPLIED \<and> truthy (ev_scenario_event_id e)) events))"

definition feed_events :: "bool \<Rightarrow> run_event list \<Rightarrow> run_event list" where
  "feed_events showLogEvents events =
     (let filtered = (if showLogEvents then events else filter (\<lambda>e. ev_kind e \<noteq> LOG) events)
      in take FEED_LIMIT (rev filtered))"

section \<open>The demo\<close>

definition demo_available :: "mission_inputs \<Rightarrow> bool" where
  "demo_available i = list_ex (\<lambda>n. n = DEMO_SCENARIO) (nullish (mi_scenarios i) [])"

definition mock_online :: "mission_inputs \<Rightarrow> bool" where
  "mock_online i =
     (case mi_system i of
        None \<Rightarrow> False
      | Some s \<Rightarrow> (case find (\<lambda>a. ai_name a = ''mock'') (sy_adapters s) of
                     None \<Rightarrow> False | Some a \<Rightarrow> ai_online a))"

definition runner_online :: "mission_inputs \<Rightarrow> bool" where
  "runner_online i =
     (case mi_system i of None \<Rightarrow> False | Some s \<Rightarrow> list_ex ri_online (sy_runners s))"

record run_request =
  rq_scenario_name :: string
  rq_adapter :: string
  rq_speed :: int
  rq_label :: string

text \<open>The request of \<open>startDemo\<close>, and where the page goes when it was created.\<close>

definition demo_request :: "mission_inputs \<Rightarrow> run_request" where
  "demo_request i =
     \<lparr>rq_scenario_name = DEMO_SCENARIO, rq_adapter = ''mock'',
      rq_speed = demo_factor (sg_demo_speed (mi_settings i)), rq_label = ''demo''\<rparr>"

definition run_page :: "string \<Rightarrow> string" where
  "run_page runId = ''/mission-control?run='' @ runId"

record demo_button =
  db_text :: string
  db_disabled :: bool
  db_title :: string

definition demo_button_of :: "mission_inputs \<Rightarrow> demo_button" where
  "demo_button_of i =
     \<lparr>db_text = (if mi_create_pending i then ''Queueing'' else ''Run demo scenario''),
      db_disabled = (mi_create_pending i \<or> \<not> demo_available i \<or> \<not> mock_online i),
      db_title = (if demo_available i
        then if mock_online i then ''Queue '' @ DEMO_SCENARIO @ '' on the mock adapter''
             else ''No runner currently advertises the mock adapter''
        else ''The '' @ DEMO_SCENARIO @ '' scenario is not in the library'')\<rparr>"

section \<open>The page\<close>

definition can_cancel :: "run_detail \<Rightarrow> bool" where
  "can_cancel run = (rs_state run \<in> set ACTIVE_RUN_STATES \<or> rs_state run = RS_QUEUED)"

text \<open>The notices above the panels, with their tones.\<close>

definition reason_text :: "run_detail \<Rightarrow> string" where
  "reason_text run = (if rs_reason run = [] then ''.'' else '': '' @ rs_reason run @ ''.'')"

definition notices :: "live_run \<Rightarrow> run_detail \<Rightarrow> (tone \<times> string) list" where
  "notices st run =
     (if lv_status st = CS_stale then [(Warn,
        ''No frame received for more than 30 seconds while the run is active. The view may be behind the runner.'')]
      else [])
     @ (case lv_error st of
          Some e \<Rightarrow> if e \<noteq> [] \<and> lv_status st \<noteq> CS_closed then [(Bad, e)] else []
        | None \<Rightarrow> [])
     @ (if rs_state run = RS_CANCELLED
        then [(Warn, ''This run was cancelled'' @ reason_text run @ '' Metrics are inconclusive.'')] else [])
     @ (if rs_state run = RS_FAILED
        then [(Bad, ''The run failed'' @ reason_text run @ '' The analysis is inconclusive.'')] else [])"

datatype score_panel = Score score_view | No_score string

definition score_panel_of :: "mission_inputs \<Rightarrow> run_detail \<Rightarrow> score_panel" where
  "score_panel_of i run =
     (case mi_metrics i of
        Some m \<Rightarrow> Score (score_kpi m (rs_id run) (rd_report_available run))
      | None \<Rightarrow> No_score
          (if rs_state run = RS_COMPLETED then ''The analysis is not available for this run.''
           else if is_terminal_run_state (rs_state run)
           then ''This run did not complete, so the result is inconclusive and no score is produced.''
           else ''The score is computed once the run completes and the analysis finishes.''))"

record mission_page =
  pg_status :: status_view
  pg_notices :: "(tone \<times> string) list"
  pg_component_count :: nat
  pg_system :: "system_panel_view option"
  pg_alert_count :: nat
  pg_alerts :: alerts_view
  pg_feed :: feed_view
  pg_upcoming :: upcoming_view
  pg_blast :: blast_view
  pg_tracks :: nat
  pg_markers :: nat
  pg_timeline :: "timeline_view option"
  pg_mission :: kpi_panel
  pg_recovery :: kpi_panel
  pg_containment :: kpi_panel
  pg_score :: score_panel

definition status_of :: "string option \<Rightarrow> mission_inputs \<Rightarrow> run_detail \<Rightarrow> status_view" where
  "status_of env i run =
     status_bar env \<lparr>sp_run = run, sp_adapter = adapter_of i, sp_connection = lv_status (mi_store i),
       sp_simulation_time = mi_time i,
       sp_progress = lm_progress (live_mission_kpis (mi_latest i) (lv_events (mi_store i))),
       sp_speed = rs_speed run, sp_cancel_pending = mi_cancel_pending i,
       sp_can_cancel = can_cancel run,
       sp_report_available = (lv_report_available (mi_store i) \<or> rd_report_available run)\<rparr>"

definition blast_of :: "mission_inputs \<Rightarrow> blast_view" where
  "blast_of i =
     (let components = component_map (topology_of i);
          c = live_containment_kpis (lv_events (mi_store i)) components
      in blast_radius
          \<lparr>bp_components = components, bp_injected = lc_injected c, bp_affected = lc_affected c,
           bp_health = current_health (mi_latest i) (lv_events (mi_store i)),
           bp_boundary = mission_flight_boundary (topology_of i),
           bp_affected_domains = lc_affected_domains c,
           bp_flight_domain_affected = lc_flight_domain_affected c\<rparr>)"

definition mission_page_of ::
  "(string \<Rightarrow> string option + jsval) \<Rightarrow> (string \<Rightarrow> string \<Rightarrow> int) \<Rightarrow> string option \<Rightarrow> rat
     \<Rightarrow> mission_inputs \<Rightarrow> run_detail \<Rightarrow> mission_page" where
  "mission_page_of load collate env width i run =
     (let events = lv_events (mi_store i);
          components = component_map (topology_of i);
          names = component_name_map (topology_of i);
          health = current_health (mi_latest i) events;
          alerts = active_alerts (mi_latest i) names;
          tracks = mission_tracks collate i;
          markers = injection_markers events
      in \<lparr>pg_status = status_of env i run,
          pg_notices = notices (mi_store i) run,
          pg_component_count = length components,
          pg_system = (if mi_system_loading i then None
            else Some (system_panel (group_by_domain (topology_of i)) health)),
          pg_alert_count = length alerts,
          pg_alerts = active_alerts_view alerts,
          pg_feed = event_feed (feed_events (sg_show_log_events (mi_settings i)) events)
            ''No events observed yet'',
          pg_upcoming = upcoming_injections (mission_schedule load collate i) (mi_time i)
            (applied_ids events) names,
          pg_blast = blast_of i,
          pg_tracks = length tracks,
          pg_markers = length markers,
          pg_timeline = (if tracks = [] then None
            else state_timeline width tracks markers (mi_time i)
              (max (mi_time i) (max (rs_last_simulation_time run) 1))),
          pg_mission = mission_kpi (live_mission_kpis (mi_latest i) events) (mi_metrics i),
          pg_recovery = recovery_kpi (live_recovery_kpis events) (mi_metrics i),
          pg_containment = containment_kpi (live_containment_kpis events components) (mi_metrics i),
          pg_score = score_panel_of i run\<rparr>)"

datatype mission_view =
    Platform_unavailable
  | Looking_for_runs
  | No_run_yet string
  | Run_not_available string
  | Connecting_to_stream
  | Mission_page mission_page

definition mission_control ::
  "(string \<Rightarrow> string option + jsval) \<Rightarrow> (string \<Rightarrow> string \<Rightarrow> int) \<Rightarrow> string option \<Rightarrow> rat
     \<Rightarrow> mission_inputs \<Rightarrow> mission_view" where
  "mission_control load collate env width i =
     (if mi_system_error i then Platform_unavailable
      else if \<not> truthy (selected_run_id i) then
        (if mi_runs_loading i then Looking_for_runs
         else No_run_yet
           (if runner_online i
            then ''Queue the demo scenario to see fault injection, propagation and recovery on the mock adapter.''
            else ''No runner is online, so a new run would stay queued. Start a runner, then queue the demo scenario.''))
      else case lv_run (mi_store i) of
             None \<Rightarrow>
               if lv_status (mi_store i) = CS_error
               then Run_not_available
                 (nullish (lv_error (mi_store i)) ''The run could not be opened for streaming.'')
               else Connecting_to_stream
           | Some run \<Rightarrow> Mission_page (mission_page_of load collate env width i run))"

section \<open>Properties\<close>

text \<open>
  Without a run in the address, the page follows the first active run; if none is active,
  the first completed one; otherwise the first of the list, and no run only when there is none.
\<close>

theorem pick_run_priority:
  "(pick_run runs = None \<longleftrightarrow> runs = [])
   \<and> (\<forall>r. pick_run runs = Some r \<longrightarrow> r \<in> set runs
        \<and> (rs_state r \<in> set ACTIVE_RUN_STATES
           \<or> (\<forall>q \<in> set runs. rs_state q \<notin> set ACTIVE_RUN_STATES)
              \<and> (rs_state r = RS_COMPLETED \<or> (\<forall>q \<in> set runs. rs_state q \<noteq> RS_COMPLETED) \<and> r = hd runs)))"
proof (cases "find (\<lambda>r. rs_state r \<in> set ACTIVE_RUN_STATES) runs")
  case None
  then have active: "\<forall>q \<in> set runs. rs_state q \<notin> set ACTIVE_RUN_STATES" by (simp add: find_None_iff)
  show ?thesis
  proof (cases "find (\<lambda>r. rs_state r = RS_COMPLETED) runs")
    case inner: None
    have "pick_run runs = (case runs of [] \<Rightarrow> None | r # _ \<Rightarrow> Some r)"
      by (simp add: pick_run_def None inner)
    moreover have "\<forall>q \<in> set runs. rs_state q \<noteq> RS_COMPLETED" using inner by (simp add: find_None_iff)
    ultimately show ?thesis using active by (cases runs) auto
  next
    case (Some r)
    then have "pick_run runs = Some r" by (simp add: pick_run_def None)
    moreover have "r \<in> set runs" "rs_state r = RS_COMPLETED" using Some by (auto simp: find_Some_iff)
    ultimately show ?thesis using active by auto
  qed
next
  case (Some r)
  then have "pick_run runs = Some r" by (simp add: pick_run_def)
  moreover have "r \<in> set runs" "rs_state r \<in> set ACTIVE_RUN_STATES" using Some by (auto simp: find_Some_iff)
  ultimately show ?thesis by auto
qed

definition queued_run :: run_summary where
  "queued_run = run_summary.truncate (run_example\<lparr>rs_state := RS_QUEUED, rs_id := ''queued''\<rparr>)"

definition completed_run :: run_summary where
  "completed_run = run_summary.truncate (run_example\<lparr>rs_state := RS_COMPLETED\<rparr>)"

theorem pick_run_priority_witness:
  "map_option rs_id (pick_run [completed_run, queued_run]) = Some ''queued''"
proof -
  have a: "rs_state queued_run = RS_QUEUED" "rs_state completed_run = RS_COMPLETED"
    "rs_id queued_run = ''queued''"
    by (simp_all add: queued_run_def completed_run_def run_summary.defs)
  from pick_run_priority [of "[completed_run, queued_run]"] a
  obtain r where "pick_run [completed_run, queued_run] = Some r" "r = queued_run"
    by (cases "pick_run [completed_run, queued_run]") (auto simp: ACTIVE_RUN_STATES_def)
  then show ?thesis by (simp add: a)
qed

text \<open>
  The feed shows the newest events first, at most 150 and without logs unless they are
  asked for; an event that is not shown although it may be is older than all that are shown.
\<close>

theorem feed_newest_first:
  "sorted_wrt (\<lambda>a b. ev_sequence b \<le> ev_sequence a) (feed_events showLogs (lv_events st))
   \<and> length (feed_events showLogs (lv_events st)) \<le> 150
   \<and> (\<forall>e \<in> set (lv_events st). (showLogs \<or> ev_kind e \<noteq> LOG)
        \<and> e \<notin> set (feed_events showLogs (lv_events st)) \<longrightarrow>
        (\<forall>f \<in> set (feed_events showLogs (lv_events st)). ev_sequence e < ev_sequence f))
   \<and> (\<forall>e \<in> set (feed_events showLogs (lv_events st)). showLogs \<or> ev_kind e \<noteq> LOG)"
  if "reachable_store st"
proof -
  define xs where "xs = filter (\<lambda>e. showLogs \<or> ev_kind e \<noteq> LOG) (lv_events st)"
  have feed: "feed_events showLogs (lv_events st) = take 150 (rev xs)"
    by (simp add: feed_events_def FEED_LIMIT_def xs_def)
  have "strict_by ev_sequence (lv_events st)"
    using reachable_store_inv [OF that] by (simp add: store_inv_def history_def)
  then have "strict_by ev_sequence xs" by (simp add: xs_def sorted_wrt_filter)
  then have s: "sorted_wrt (\<lambda>a b. ev_sequence b < ev_sequence a) (rev xs)"
    by (simp add: sorted_wrt_rev)
  have older: "ev_sequence e < ev_sequence f" if "e \<in> set xs" "e \<notin> set (take 150 (rev xs))"
    "f \<in> set (take 150 (rev xs))" for e f
  proof -
    have "sorted_wrt (\<lambda>a b. ev_sequence b < ev_sequence a) (take 150 (rev xs) @ drop 150 (rev xs))"
      using s by simp
    moreover have "e \<in> set (drop 150 (rev xs))"
      using that(1,2) by (metis UnE append_take_drop_id set_append set_rev)
    ultimately show ?thesis using that(3) unfolding sorted_wrt_append by blast
  qed
  have "sorted_wrt (\<lambda>a b. ev_sequence b \<le> ev_sequence a) (take 150 (rev xs))"
    using sorted_wrt_take [OF s] by (rule sorted_wrt_mono_rel [rotated]) simp
  moreover have "\<forall>e \<in> set (take 150 (rev xs)). showLogs \<or> ev_kind e \<noteq> LOG"
    by (auto simp: xs_def dest!: in_set_takeD)
  moreover have "length (take 150 (rev xs)) \<le> 150" by simp
  moreover have "\<forall>e \<in> set (lv_events st). (showLogs \<or> ev_kind e \<noteq> LOG)
      \<and> e \<notin> set (take 150 (rev xs)) \<longrightarrow>
      (\<forall>f \<in> set (take 150 (rev xs)). ev_sequence e < ev_sequence f)"
  proof (intro ballI impI)
    fix e f assume "e \<in> set (lv_events st)"
      and c: "(showLogs \<or> ev_kind e \<noteq> LOG) \<and> e \<notin> set (take 150 (rev xs))"
      and f: "f \<in> set (take 150 (rev xs))"
    then have "e \<in> set xs" by (simp add: xs_def)
    with c f show "ev_sequence e < ev_sequence f" by (intro older) simp_all
  qed
  ultimately show ?thesis unfolding feed by (intro conjI)
qed

theorem feed_newest_first_witness:
  "let st = store_step (A_ingest [event_no 1 ''a'', event_no 2 ''b''] [] 5) EMPTY
   in map ev_sequence (feed_events False (lv_events st)) = [2, 1]
      \<and> length (feed_events False (lv_events st)) \<le> 150"
proof -
  have r: "reachable_store (store_step (A_ingest [event_no 1 ''a'', event_no 2 ''b''] [] 5) EMPTY)"
    by (intro reachable_store.intros) simp
  show ?thesis
    using feed_newest_first [OF r, of False] unfolding Let_def
    by (simp add: ingest_def EMPTY_def merge_events_def merge_samples_def MAX_EVENTS_def feed_events_def
        event_no_def FEED_LIMIT_def Let_def by_key_def)
qed

text \<open>
  The history of a run is fetched exactly when one is selected and its stream finished or its
  state is terminal, and its metrics only when, besides, it completed.
\<close>

theorem history_only_when_over:
  "(map qy_enabled (history_queries i) = [h, h, m]) =
     (h = (truthy (selected_run_id i)
           \<and> (lv_finished (mi_store i)
              \<or> (\<exists>r. lv_run (mi_store i) = Some r
                     \<and> (rs_state r = RS_COMPLETED \<or> rs_state r = RS_FAILED \<or> rs_state r = RS_CANCELLED))))
      \<and> m = (h \<and> (\<exists>r. lv_run (mi_store i) = Some r \<and> rs_state r = RS_COMPLETED)))"
  by (auto simp: history_queries_def history_enabled_def use_run_telemetry_def use_run_events_def
      use_run_metrics_def simple_query_def is_terminal_run_state_def TERMINAL_RUN_STATES_def Let_def
      split: option.splits)

end
