(* ===== verification/JSText.thy ===== *)
theory JSText
  imports JSNumOrder
begin

text \<open>
  Further parts of the JavaScript library: \<open>toLowerCase\<close> and \<open>includes\<close> on ASCII text, \<open>split\<close>
  at a character, \<open>Math.max\<close> and \<open>Math.min\<close> on arbitrary numbers, and arrays edited at a
  position as \<open>map((x, i) => ...)\<close>, \<open>filter((_, i) => ...)\<close> and a swap of two elements do.
\<close>

section \<open>Text\<close>

definition lower_char :: "char \<Rightarrow> char" where
  "lower_char c = (if 65 \<le> (of_char c :: int) \<and> (of_char c :: int) \<le> 90
                   then char_of ((of_char c :: int) + 32) else c)"

definition to_lower :: "string \<Rightarrow> string" where
  "to_lower s = map lower_char s"

text \<open>\<open>s.includes(needle)\<close>\<close>

fun has_text :: "string \<Rightarrow> string \<Rightarrow> bool" where
  "has_text [] needle = (needle = [])"
| "has_text (c # cs) needle = (starts_with needle (c # cs) \<or> has_text cs needle)"

text \<open>\<open>s.split(sep)\<close> for a single character.\<close>

fun split_on :: "char \<Rightarrow> string \<Rightarrow> string list" where
  "split_on sep [] = [[]]"
| "split_on sep (c # cs) =
     (if c = sep then [] # split_on sep cs
      else (case split_on sep cs of [] \<Rightarrow> [[c]] | w # ws \<Rightarrow> (c # w) # ws))"

lemma starts_with_iff: "starts_with p s \<longleftrightarrow> (\<exists>r. s = p @ r)"
  by (induction p s rule: starts_with.induct) auto

lemma has_text_iff: "has_text s needle \<longleftrightarrow> (\<exists>a b. s = a @ needle @ b)"
proof (induction s)
  case Nil
  show ?case by auto
next
  case (Cons c cs)
  have "(\<exists>a b. c # cs = a @ needle @ b)
      \<longleftrightarrow> (\<exists>b. c # cs = needle @ b) \<or> (\<exists>a b. cs = a @ needle @ b)"
    by (auto simp: Cons_eq_append_conv)
  then show ?case by (simp add: Cons starts_with_iff)
qed

lemma has_text_Nil [simp]: "has_text s []"
  by (induction s) simp_all

lemma split_on_nonempty [simp]: "split_on sep s \<noteq> []"
  by (induction s) (auto split: list.splits)

lemma join_split_on: "join_with [sep] (split_on sep s) = s"
proof (induction s)
  case Nil
  show ?case by simp
next
  case (Cons c cs)
  then show ?case
    by (cases "split_on sep cs"; cases "tl (split_on sep cs)") auto
qed

section \<open>Numbers\<close>

definition num_max :: "jsnum \<Rightarrow> jsnum \<Rightarrow> jsnum" where
  "num_max x y = (if x = NaN \<or> y = NaN then NaN else if num_less x y then y else x)"

definition num_min :: "jsnum \<Rightarrow> jsnum \<Rightarrow> jsnum" where
  "num_min x y = (if x = NaN \<or> y = NaN then NaN else if num_less y x then y else x)"

lemma num_max_simps [simp]:
  "num_max (Fin a) (Fin b) = Fin (max a b)"
  "num_max PosInf (Fin a) = PosInf" "num_max (Fin a) PosInf = PosInf" "num_max PosInf PosInf = PosInf"
  by (simp_all add: num_max_def max_def)

lemma num_min_simps [simp]:
  "num_min (Fin a) (Fin b) = Fin (min a b)"
  "num_min PosInf (Fin a) = Fin a" "num_min (Fin a) PosInf = Fin a" "num_min PosInf PosInf = PosInf"
  by (simp_all add: num_min_def min_def)

section \<open>Arrays edited at a position\<close>

definition update_at :: "nat \<Rightarrow> ('a \<Rightarrow> 'a) \<Rightarrow> 'a list \<Rightarrow> 'a list" where
  "update_at i f xs = map (\<lambda>(p, x). if p = i then f x else x) (enumerate 0 xs)"

definition remove_at :: "nat \<Rightarrow> 'a list \<Rightarrow> 'a list" where
  "remove_at i xs = map snd (filter (\<lambda>(p, x). p \<noteq> i) (enumerate 0 xs))"

text \<open>
  \<open>const t = i + d; if (t < 0 || t >= xs.length) return; swap xs[i] and xs[t]\<close>; nothing happens
  either when there is no element at \<open>i\<close>.
\<close>

definition move_at :: "nat \<Rightarrow> int \<Rightarrow> 'a list \<Rightarrow> 'a list" where
  "move_at i d xs =
     (let t = int i + d
      in if t < 0 \<or> t \<ge> int (length xs) \<or> i \<ge> length xs then xs
         else xs[i := xs ! nat t, nat t := xs ! i])"

lemma update_at_eq: "update_at i f xs = (if i < length xs then xs[i := f (xs ! i)] else xs)"
  by (auto simp: update_at_def enumerate_eq_zip nth_list_update intro!: nth_equalityI)

lemma length_update_at [simp]: "length (update_at i f xs) = length xs"
  by (simp add: update_at_eq)

lemma nth_update_at: "p < length xs \<Longrightarrow> update_at i f xs ! p = (if p = i then f (xs ! p) else xs ! p)"
  by (auto simp: update_at_eq)

lemma map_update_at: "(\<And>x. g (f x) = g x) \<Longrightarrow> map g (update_at i f xs) = map g xs"
  by (rule nth_equalityI) (auto simp: nth_update_at)

lemma set_update_at: "set (update_at i f xs) \<subseteq> set xs \<union> f ` set xs"
  by (auto simp: update_at_eq dest!: set_update_subset_insert [THEN subsetD])

lemma remove_at_shift:
  "map snd (filter (\<lambda>(p, x). p \<noteq> i) (enumerate n xs))
     = (if n \<le> i then take (i - n) xs @ drop (Suc (i - n)) xs else xs)"
proof (induction xs arbitrary: n)
  case Nil
  show ?case by simp
next
  case (Cons x xs)
  have "filter (\<lambda>(p, x). p \<noteq> i) (enumerate (Suc n) xs) = enumerate (Suc n) xs" if "i \<le> n"
    using that by (intro filter_True) (auto simp: in_set_enumerate_eq)
  moreover have "i - Suc n = k" if "i - n = Suc k" for k using that by simp
  ultimately show ?case using Cons by (cases "i - n") (auto simp: Suc_diff_le)
qed

lemma remove_at_eq: "remove_at i xs = take i xs @ drop (Suc i) xs"
  using remove_at_shift [of i 0 xs] by (simp add: remove_at_def)

lemma set_remove_at: "set (remove_at i xs) \<subseteq> set xs"
  by (auto simp: remove_at_eq dest: in_set_takeD in_set_dropD)

lemma distinct_remove_at: "distinct (map f xs) \<Longrightarrow> distinct (map f (remove_at i xs))"
proof -
  assume d: "distinct (map f xs)"
  have "map f xs = map f (take i xs) @ map f (take 1 (drop i xs)) @ map f (drop (Suc i) xs)"
    by (metis One_nat_def append_take_drop_id drop_drop map_append plus_1_eq_Suc)
  with d have "distinct (map f (take i xs) @ map f (take 1 (drop i xs)) @ map f (drop (Suc i) xs))"
    by metis
  then show ?thesis by (auto simp: remove_at_eq)
qed

lemma mset_move_at [simp]: "mset (move_at i d xs) = mset xs"
  by (auto simp: move_at_def Let_def mset_swap)

lemma set_move_at [simp]: "set (move_at i d xs) = set xs"
  by (metis mset_move_at set_mset_mset)

lemma length_move_at [simp]: "length (move_at i d xs) = length xs"
  by (metis mset_move_at size_mset)

lemma distinct_move_at: "distinct (map f (move_at i d xs)) = distinct (map f xs)"
  by (metis mset_map mset_move_at mset_eq_imp_distinct_iff)

lemma move_at_back:
  assumes "0 \<le> int i + d" "int i + d < int (length xs)" "i < length xs"
  shows "move_at (nat (int i + d)) (- d) (move_at i d xs) = xs"
proof -
  define t where "t = nat (int i + d)"
  have t: "t < length xs" "int t = int i + d" using assms by (simp_all add: t_def)
  have "move_at i d xs = xs[i := xs ! t, t := xs ! i]"
    using assms by (simp add: move_at_def Let_def t_def)
  moreover have "move_at t (- d) ys = ys[t := ys ! i, i := ys ! t]" if "length ys = length xs" for ys :: "'a list"
    using assms t that by (simp add: move_at_def Let_def)
  ultimately have "move_at t (- d) (move_at i d xs)
      = (xs[i := xs ! t, t := xs ! i])[t := (xs[i := xs ! t, t := xs ! i]) ! i, i := (xs[i := xs ! t, t := xs ! i]) ! t]"
    by simp
  also have "\<dots> = xs"
    using t assms(3) by (intro nth_equalityI) (auto simp: nth_list_update)
  finally show ?thesis by (simp add: t_def)
qed

section \<open>Grouping into a Map\<close>

text \<open>\<open>const list = map.get(k); if (list) list.push(x); else map.set(k, [x])\<close>\<close>

definition group_add :: "('a \<Rightarrow> 'k) \<Rightarrow> ('k \<times> 'a list) list \<Rightarrow> 'a \<Rightarrow> ('k \<times> 'a list) list" where
  "group_add key groups x =
     (case map_of groups (key x) of
        Some xs \<Rightarrow> AList.update (key x) (xs @ [x]) groups
      | None \<Rightarrow> AList.update (key x) [x] groups)"

definition group_by :: "('a \<Rightarrow> 'k) \<Rightarrow> 'a list \<Rightarrow> ('k \<times> 'a list) list" where
  "group_by key xs = foldl (group_add key) [] xs"

lemma map_of_group_by:
  "map_of (group_by key xs) k
     = (let ys = filter (\<lambda>x. key x = k) xs in if ys = [] then None else Some ys)"
proof (induction xs rule: rev_induct)
  case Nil
  show ?case by (simp add: group_by_def)
next
  case (snoc x xs)
  have "map_of (group_add key g x) k =
      (if k = key x then Some ((case map_of g k of None \<Rightarrow> [] | Some ys \<Rightarrow> ys) @ [x]) else map_of g k)" for g
    by (auto simp: group_add_def AList.update_conv' split: option.splits)
  then show ?case using snoc by (auto simp: group_by_def Let_def)
qed

lemma distinct_group_by [js_intros]: "distinct (map fst (group_by key xs))"
proof -
  have "distinct (map fst g) \<Longrightarrow> distinct (map fst (foldl (group_add key) g xs))" for g
    by (induction xs arbitrary: g) (auto simp: group_add_def AList.distinct_update split: option.split)
  then show ?thesis by (simp add: group_by_def)
qed

lemma in_group_by:
  "(k, ys) \<in> set (group_by key xs) \<longleftrightarrow> ys = filter (\<lambda>x. key x = k) xs \<and> k \<in> key ` set xs"
proof -
  have "(k, ys) \<in> set (group_by key xs) \<longleftrightarrow> map_of (group_by key xs) k = Some ys"
    by (simp add: distinct_group_by)
  then show ?thesis by (auto simp: map_of_group_by Let_def filter_empty_conv)
qed

lemma keys_group_by: "fst ` set (group_by key xs) = key ` set xs"
  by (auto simp: image_iff Bex_def in_group_by)

lemma mset_groups:
  assumes "distinct ks" "key ` set xs \<subseteq> set ks"
  shows "mset (concat (map (\<lambda>k. filter (\<lambda>x. key x = k) xs) ks)) = mset xs"
proof -
  have "mset (concat (map (\<lambda>k. filter (\<lambda>x. key x = k) xs) ks)) = mset (filter (\<lambda>x. key x \<in> set ks) xs)"
    using assms(1)
  proof (induction ks)
    case Nil
    then show ?case by simp
  next
    case (Cons k ks)
    have "mset (filter (\<lambda>x. key x \<in> set (k # ks)) xs)
        = mset (filter (\<lambda>x. key x = k) xs) + mset (filter (\<lambda>x. key x \<in> set ks) xs)"
      using Cons.prems by (induction xs) auto
    with Cons show ?case by simp
  qed
  moreover have "filter (\<lambda>x. key x \<in> set ks) xs = xs"
    using assms(2) by (intro filter_True) auto
  ultimately show ?thesis by simp
qed

text \<open>\<open>xs.indexOf(x)\<close>\<close>

fun index_of :: "'a list \<Rightarrow> 'a \<Rightarrow> int" where
  "index_of [] x = -1"
| "index_of (y # ys) x = (if y = x then 0 else let i = index_of ys x in if i < 0 then -1 else i + 1)"

lemma index_of_bounds: "-1 \<le> index_of ys x \<and> index_of ys x < int (length ys)"
  by (induction ys) (auto simp: Let_def)

lemma index_of_neg: "index_of ys x < 0 \<longleftrightarrow> x \<notin> set ys"
  by (induction ys) (auto simp: Let_def)

lemma index_of_nth: "x \<in> set ys \<Longrightarrow> ys ! nat (index_of ys x) = x"
proof (induction ys)
  case (Cons y ys)
  have "nat (index_of ys x + 1) = Suc (nat (index_of ys x))" if "x \<in> set ys"
    using that index_of_neg [of ys x] by auto
  then show ?case using Cons by (auto simp: Let_def index_of_neg)
qed simp

end
