(* ===== verification/EventEditor.thy ===== *)
theory EventEditor
  imports ScenarioDocument JSText
begin

text \<open>
  apps/web/src/components/scenario/event-editor.tsx: the edits of one scenario event, driven by
  the fault catalog and the effect descriptors of the platform, and what the form shows. The
  edits are the datatype \<open>event_edit\<close>, one constructor per control; \<open>edit_event\<close> is what the
  control passes to \<open>onChange\<close>. The invariant \<open>event_fits\<close> says that an event is one the platform
  can inject.
\<close>

section \<open>The catalog\<close>

record parameter_spec =
  ps_name :: string
  ps_type :: string
  ps_description :: string
  ps_minimum :: "jsnum option"
  ps_maximum :: "jsnum option"

record effect_descriptor =
  ef_effect :: effect
  ef_description :: string
  ef_duration_required :: bool
  ef_transient :: bool
  ef_parameters :: "parameter_spec list"

record catalog_entry =
  ce_subsystem :: string
  ce_name :: string
  ce_category :: string
  ce_critical :: bool
  ce_effects :: "effect list"

definition find_entry :: "catalog_entry list \<Rightarrow> string \<Rightarrow> catalog_entry option" where
  "find_entry catalog subsystem = find (\<lambda>item. ce_subsystem item = subsystem) catalog"

definition find_effect :: "effect_descriptor list \<Rightarrow> effect option \<Rightarrow> effect_descriptor option" where
  "find_effect effects effect = find (\<lambda>item. Some (ef_effect item) = effect) effects"

section \<open>Edits\<close>

definition STATES :: "component_state list" where
  "STATES = [NOMINAL, OPERATIONAL, DEGRADED, UNAVAILABLE, FAILED, RECOVERING, RECOVERED]"

definition spec_kind :: "parameter_spec \<Rightarrow> parameter_kind" where
  "spec_kind spec =
     (if ps_type spec = ''duration'' then PK_duration
      else if ps_type spec = ''integer'' then PK_integer
      else if ps_type spec = ''ratio'' then PK_ratio
      else PK_number)"

definition parameters_for :: "effect_descriptor option \<Rightarrow> parameter_draft list" where
  "parameters_for descriptor =
     map (\<lambda>p. \<lparr>pd_name = ps_name p, pd_value = [], pd_kind = spec_kind p\<rparr>)
       (case descriptor of None \<Rightarrow> [] | Some d \<Rightarrow> ef_parameters d)"

datatype event_edit =
    Edit_id string
  | Edit_at string
  | Edit_subsystem string
  | Edit_effect effect
  | Edit_duration string
  | Edit_description string
  | Edit_parameter parameter_spec string
  | Add_expectation
  | Edit_expect_subsystem nat string
  | Edit_expect_state nat component_state
  | Edit_expect_within nat string
  | Edit_expect_description nat string
  | Remove_expectation nat

definition change_effect :: "effect_descriptor list \<Rightarrow> effect \<Rightarrow> event_draft \<Rightarrow> event_draft" where
  "change_effect effects effect event =
     (let next_effect = find_effect effects (Some effect)
      in event\<lparr>ed_effect := effect,
               ed_parameters := parameters_for next_effect,
               ed_duration := (case next_effect of
                   Some d \<Rightarrow> if ef_transient d then [] else ed_duration event
                 | None \<Rightarrow> ed_duration event)\<rparr>)"

definition change_subsystem ::
  "catalog_entry list \<Rightarrow> effect_descriptor list \<Rightarrow> string \<Rightarrow> event_draft \<Rightarrow> event_draft" where
  "change_subsystem catalog effects subsystem event =
     (let allowed = (case find_entry catalog subsystem of None \<Rightarrow> [] | Some t \<Rightarrow> ce_effects t);
          effect = (if ed_effect event \<in> set allowed then Some (ed_effect event)
                    else case allowed of [] \<Rightarrow> None | e # _ \<Rightarrow> Some e)
      in event\<lparr>ed_subsystem := subsystem,
               ed_effect := (case effect of Some e \<Rightarrow> e | None \<Rightarrow> ed_effect event),
               ed_parameters := parameters_for (find_effect effects effect)\<rparr>)"

definition change_parameter :: "parameter_spec \<Rightarrow> string \<Rightarrow> event_draft \<Rightarrow> event_draft" where
  "change_parameter spec value event =
     (if list_ex (\<lambda>p. pd_name p = ps_name spec) (ed_parameters event)
      then event\<lparr>ed_parameters := map (\<lambda>p. if pd_name p = ps_name spec
               then p\<lparr>pd_value := value, pd_kind := spec_kind spec\<rparr> else p) (ed_parameters event)\<rparr>
      else event\<lparr>ed_parameters := ed_parameters event
               @ [\<lparr>pd_name = ps_name spec, pd_value = value, pd_kind = spec_kind spec\<rparr>]\<rparr>)"

definition update_expectation ::
  "nat \<Rightarrow> (expectation_draft \<Rightarrow> expectation_draft) \<Rightarrow> event_draft \<Rightarrow> event_draft" where
  "update_expectation position patch event =
     event\<lparr>ed_expect := update_at position patch (ed_expect event)\<rparr>"

fun edit_event ::
  "catalog_entry list \<Rightarrow> effect_descriptor list \<Rightarrow> event_edit \<Rightarrow> event_draft \<Rightarrow> event_draft" where
  "edit_event catalog effects (Edit_id v) e = e\<lparr>ed_id := v\<rparr>"
| "edit_event catalog effects (Edit_at v) e = e\<lparr>ed_at := v\<rparr>"
| "edit_event catalog effects (Edit_subsystem v) e = change_subsystem catalog effects v e"
| "edit_event catalog effects (Edit_effect v) e = change_effect effects v e"
| "edit_event catalog effects (Edit_duration v) e = e\<lparr>ed_duration := v\<rparr>"
| "edit_event catalog effects (Edit_description v) e = e\<lparr>ed_description := v\<rparr>"
| "edit_event catalog effects (Edit_parameter spec v) e = change_parameter spec v e"
| "edit_event catalog effects Add_expectation e =
     e\<lparr>ed_expect := ed_expect e
        @ [\<lparr>xd_subsystem = ed_subsystem e, xd_state = DEGRADED, xd_within = ''5s'', xd_description = []\<rparr>]\<rparr>"
| "edit_event catalog effects (Edit_expect_subsystem i v) e =
     update_expectation i (\<lambda>x. x\<lparr>xd_subsystem := v\<rparr>) e"
| "edit_event catalog effects (Edit_expect_state i v) e = update_expectation i (\<lambda>x. x\<lparr>xd_state := v\<rparr>) e"
| "edit_event catalog effects (Edit_expect_within i v) e = update_expectation i (\<lambda>x. x\<lparr>xd_within := v\<rparr>) e"
| "edit_event catalog effects (Edit_expect_description i v) e =
     update_expectation i (\<lambda>x. x\<lparr>xd_description := v\<rparr>) e"
| "edit_event catalog effects (Remove_expectation i) e = e\<lparr>ed_expect := remove_at i (ed_expect e)\<rparr>"

section \<open>The form\<close>

record parameter_field =
  pf_label :: string
  pf_hint :: string
  pf_value :: string
  pf_placeholder :: string
  pf_decimal :: bool
  pf_spec :: parameter_spec

record event_form =
  fm_title :: string
  fm_selected :: bool
  fm_critical :: bool
  fm_up_disabled :: bool
  fm_down_disabled :: bool
  fm_at_hint :: "string option"
  fm_at_invalid :: bool
  fm_subsystems :: "(string \<times> string) list"
  fm_effects :: "effect list"
  fm_duration_disabled :: bool
  fm_duration_hint :: string
  fm_duration_placeholder :: string
  fm_duration_invalid :: bool
  fm_parameters :: "parameter_field list"
  fm_no_expectation :: bool
  fm_within_invalid :: "bool list"

definition bound_text :: "string \<Rightarrow> jsnum option \<Rightarrow> string list" where
  "bound_text label bound = (case bound of None \<Rightarrow> [] | Some n \<Rightarrow> [label @ '' '' @ num_str n])"

definition parameter_field_of :: "event_draft \<Rightarrow> parameter_spec \<Rightarrow> parameter_field" where
  "parameter_field_of event spec =
     (let current = find (\<lambda>p. pd_name p = ps_name spec) (ed_parameters event);
          bounds = join_with '', '' (bound_text ''min'' (ps_minimum spec) @ bound_text ''max'' (ps_maximum spec))
      in \<lparr>pf_label = ps_name spec,
          pf_hint = (if bounds \<noteq> [] then ps_description spec @ '' ('' @ bounds @ '')'' else ps_description spec),
          pf_value = (case current of None \<Rightarrow> [] | Some p \<Rightarrow> pd_value p),
          pf_placeholder = (if ps_type spec = ''duration'' then ''e.g. 2s'' else ps_type spec),
          pf_decimal = (ps_type spec \<noteq> ''duration''),
          pf_spec = spec\<rparr>)"

definition event_form_of ::
  "catalog_entry list \<Rightarrow> effect_descriptor list \<Rightarrow> nat \<Rightarrow> nat \<Rightarrow> bool \<Rightarrow> event_draft \<Rightarrow> event_form" where
  "event_form_of catalog effects index n selected event =
     (let entry = find_entry catalog (ed_subsystem event);
          descriptor = find_effect effects (Some (ed_effect event));
          disabled = (case descriptor of None \<Rightarrow> False | Some d \<Rightarrow> ef_transient d);
          required = (case descriptor of None \<Rightarrow> False | Some d \<Rightarrow> ef_duration_required d);
          atValid = is_duration (ed_at event);
          durationValid = (ed_duration event = [] \<or> is_duration (ed_duration event))
      in \<lparr>fm_title = (if ed_id event = [] then ''unnamed'' else ed_id event),
          fm_selected = selected,
          fm_critical = (case entry of None \<Rightarrow> False | Some c \<Rightarrow> ce_critical c),
          fm_up_disabled = (index = 0),
          fm_down_disabled = (int index = int n - 1),
          fm_at_hint = (if atValid then None else Some ''Use a duration such as 30s or 1m30s''),
          fm_at_invalid = (\<not> atValid),
          fm_subsystems = map (\<lambda>c. (ce_subsystem c, ce_name c @ '' ('' @ ce_subsystem c @ '')''))
            (filter (\<lambda>c. ce_effects c \<noteq> []) catalog),
          fm_effects = (case entry of None \<Rightarrow> [] | Some c \<Rightarrow> ce_effects c),
          fm_duration_disabled = disabled,
          fm_duration_hint = (if disabled then ''Transient effect, the target recovers on its own''
            else if required then ''Required for this effect''
            else ''Empty means until the end of the scenario''),
          fm_duration_placeholder = (if required then ''required, e.g. 20s'' else ''until scenario end''),
          fm_duration_invalid = (\<not> durationValid \<or> required \<and> ed_duration event = []),
          fm_parameters = (case descriptor of None \<Rightarrow> [] | Some d \<Rightarrow>
            map (parameter_field_of event) (ef_parameters d)),
          fm_no_expectation = (ed_expect event = []),
          fm_within_invalid = map (\<lambda>x. \<not> is_duration (xd_within x)) (ed_expect event)\<rparr>)"

text \<open>The edits the form offers for an event: the options of its selects and its fields.\<close>

definition offered ::
  "catalog_entry list \<Rightarrow> effect_descriptor list \<Rightarrow> event_draft \<Rightarrow> event_edit \<Rightarrow> bool" where
  "offered catalog effects event edit =
     (let form = event_form_of catalog effects 0 1 False event
      in case edit of
           Edit_subsystem s \<Rightarrow> s \<in> fst ` set (fm_subsystems form)
         | Edit_effect e \<Rightarrow> e \<in> set (fm_effects form)
         | Edit_parameter spec _ \<Rightarrow> spec \<in> pf_spec ` set (fm_parameters form)
         | Edit_duration _ \<Rightarrow> \<not> fm_duration_disabled form
         | _ \<Rightarrow> True)"

section \<open>An edited event stays injectable\<close>

text \<open>
  A catalog is well formed when subsystems are listed once, every effect of an entry has a
  descriptor and the parameters of a descriptor have different names. An event fits the catalog
  when its effect is one of its subsystem's and its parameters are those of the effect, with
  their kinds and in their order.
\<close>

definition catalog_ok :: "catalog_entry list \<Rightarrow> effect_descriptor list \<Rightarrow> bool" where
  "catalog_ok catalog effects \<longleftrightarrow>
     distinct (map ce_subsystem catalog)
     \<and> list_all (\<lambda>c. list_all (\<lambda>e. find_effect effects (Some e) \<noteq> None) (ce_effects c)) catalog
     \<and> list_all (\<lambda>d. distinct (map ps_name (ef_parameters d))) effects"

definition signature_of :: "parameter_draft list \<Rightarrow> (string \<times> parameter_kind) list" where
  "signature_of = map (\<lambda>p. (pd_name p, pd_kind p))"

definition spec_signature :: "effect_descriptor \<Rightarrow> (string \<times> parameter_kind) list" where
  "spec_signature d = map (\<lambda>s. (ps_name s, spec_kind s)) (ef_parameters d)"

definition event_fits :: "catalog_entry list \<Rightarrow> effect_descriptor list \<Rightarrow> event_draft \<Rightarrow> bool" where
  "event_fits catalog effects event =
     (case (find_entry catalog (ed_subsystem event), find_effect effects (Some (ed_effect event))) of
        (Some c, Some d) \<Rightarrow> ed_effect event \<in> set (ce_effects c)
                             \<and> signature_of (ed_parameters event) = spec_signature d
      | _ \<Rightarrow> False)"

lemma event_fitsI [js_intros]:
  "find_entry catalog (ed_subsystem event) = Some c \<Longrightarrow> find_effect effects (Some (ed_effect event)) = Some d
     \<Longrightarrow> ed_effect event \<in> set (ce_effects c) \<Longrightarrow> signature_of (ed_parameters event) = spec_signature d
     \<Longrightarrow> event_fits catalog effects event"
  by (simp add: event_fits_def)

lemma event_fitsE:
  assumes "event_fits catalog effects event"
  obtains c d where "find_entry catalog (ed_subsystem event) = Some c"
    "find_effect effects (Some (ed_effect event)) = Some d"
    "ed_effect event \<in> set (ce_effects c)" "signature_of (ed_parameters event) = spec_signature d"
  using assms by (auto simp: event_fits_def split: option.splits)

lemma signature_parameters_for [simp]: "signature_of (parameters_for (Some d)) = spec_signature d"
  by (simp add: signature_of_def parameters_for_def spec_signature_def)

lemma find_entry_in: "find_entry catalog s = Some c \<Longrightarrow> c \<in> set catalog \<and> ce_subsystem c = s"
  by (auto simp: find_entry_def find_Some_iff)

lemma find_entry_unique:
  assumes "distinct (map ce_subsystem catalog)" "c \<in> set catalog"
  shows "find_entry catalog (ce_subsystem c) = Some c"
  using assms unfolding find_entry_def by (induction catalog) auto

lemma catalog_effect:
  assumes "catalog_ok catalog effects" "find_entry catalog s = Some c" "e \<in> set (ce_effects c)"
  obtains d where "find_effect effects (Some e) = Some d"
proof -
  have "find_effect effects (Some e) \<noteq> None"
    using assms(1,3) find_entry_in [OF assms(2)] unfolding catalog_ok_def list_all_iff by blast
  with that show thesis by blast
qed

lemma find_effect_in: "find_effect effects e = Some d \<Longrightarrow> d \<in> set effects"
  by (auto simp: find_effect_def find_Some_iff)

lemma fits_change_effect:
  assumes "catalog_ok catalog effects" "find_entry catalog (ed_subsystem event) = Some c"
    and "e \<in> set (ce_effects c)"
  shows "event_fits catalog effects (change_effect effects e event)"
proof -
  obtain d where "find_effect effects (Some e) = Some d" using catalog_effect [OF assms] .
  then show ?thesis using assms(2,3) by (intro event_fitsI) (simp_all add: change_effect_def)
qed

lemma fits_change_subsystem:
  assumes "catalog_ok catalog effects" "find_entry catalog s = Some c" "ce_effects c \<noteq> []"
  shows "event_fits catalog effects (change_subsystem catalog effects s event)"
proof -
  define e where "e = (if ed_effect event \<in> set (ce_effects c) then ed_effect event else hd (ce_effects c))"
  have e: "e \<in> set (ce_effects c)" using assms(3) by (simp add: e_def)
  then obtain d where d: "find_effect effects (Some e) = Some d"
    using catalog_effect [OF assms(1,2)] by blast
  have "change_subsystem catalog effects s event
      = event\<lparr>ed_subsystem := s, ed_effect := e, ed_parameters := parameters_for (Some d)\<rparr>"
    using assms(2,3) d by (cases "ce_effects c") (auto simp: change_subsystem_def e_def Let_def)
  then show ?thesis using assms(2) d e by (simp add: event_fitsI)
qed

lemma fits_change_parameter:
  assumes fits: "event_fits catalog effects event"
    and ok: "catalog_ok catalog effects"
    and spec: "find_effect effects (Some (ed_effect event)) = Some d" "spec \<in> set (ef_parameters d)"
  shows "event_fits catalog effects (change_parameter spec v event)"
proof -
  obtain c where c: "find_entry catalog (ed_subsystem event) = Some c" "ed_effect event \<in> set (ce_effects c)"
    and sig: "signature_of (ed_parameters event) = spec_signature d"
    using fits spec(1) by (auto elim: event_fitsE)
  have names: "distinct (map ps_name (ef_parameters d))"
    using ok find_effect_in [OF spec(1)] by (simp add: catalog_ok_def list_all_iff)
  have "(ps_name spec, spec_kind spec) \<in> set (signature_of (ed_parameters event))"
    using spec(2) by (auto simp: sig spec_signature_def)
  then have has: "list_ex (\<lambda>p. pd_name p = ps_name spec) (ed_parameters event)"
    by (auto simp: signature_of_def list_ex_iff)
  have kind: "pd_kind p = spec_kind spec"
    if member: "p \<in> set (ed_parameters event)" and name: "pd_name p = ps_name spec" for p
  proof -
    have "(pd_name p, pd_kind p) \<in> set (spec_signature d)"
      using member unfolding sig [symmetric] signature_of_def by auto
    then obtain q where "q \<in> set (ef_parameters d)" "ps_name q = ps_name spec" "pd_kind p = spec_kind q"
      using name by (auto simp: spec_signature_def)
    then show ?thesis using names spec(2) by (metis distinct_map inj_onD)
  qed
  have "signature_of (ed_parameters (change_parameter spec v event)) = signature_of (ed_parameters event)"
    using has kind by (auto simp: change_parameter_def signature_of_def)
  then show ?thesis using c spec(1) sig has by (intro event_fitsI) (simp_all add: change_parameter_def)
qed

text \<open>
  C18. An event that fits the fault catalog still fits it after every edit the form offers: its
  effect is one the subsystem supports and its parameters are exactly those of the effect.
\<close>

theorem edit_event_fits:
  assumes "catalog_ok catalog effects" "event_fits catalog effects event" "offered catalog effects event edit"
  shows "event_fits catalog effects (edit_event catalog effects edit event)"
proof -
  obtain c d where fit: "find_entry catalog (ed_subsystem event) = Some c"
    "find_effect effects (Some (ed_effect event)) = Some d"
    "ed_effect event \<in> set (ce_effects c)" "signature_of (ed_parameters event) = spec_signature d"
    using assms(2) by (rule event_fitsE)
  show ?thesis
  proof (cases edit)
    case (Edit_subsystem s)
    then obtain k where k: "k \<in> set catalog" "ce_subsystem k = s" "ce_effects k \<noteq> []"
      using assms(3) by (auto simp: offered_def event_form_of_def Let_def)
    have "find_entry catalog s = Some k"
      using find_entry_unique [OF _ k(1)] assms(1) k(2) by (simp add: catalog_ok_def)
    then show ?thesis using Edit_subsystem k assms(1) by (simp add: fits_change_subsystem)
  next
    case (Edit_effect e)
    then have "e \<in> set (ce_effects c)"
      using assms(3) fit(1) by (simp add: offered_def event_form_of_def Let_def)
    then show ?thesis using Edit_effect fit(1) assms(1) by (simp add: fits_change_effect)
  next
    case (Edit_parameter spec v)
    then have "spec \<in> set (ef_parameters d)"
      using assms(3) fit(2)
      by (auto simp: offered_def event_form_of_def parameter_field_of_def Let_def)
    then show ?thesis using Edit_parameter fits_change_parameter [OF assms(2,1) fit(2)] by simp
  qed (use fit in \<open>auto simp: update_expectation_def intro!: event_fitsI\<close>)
qed

text \<open>
  Changing the subsystem keeps the duration also when the effect it falls back to is
  transient: the field is then disabled, and the document still carries the duration. Changing
  the effect to a transient one clears it.
\<close>

theorem subsystem_change_keeps_duration:
  assumes "find_entry catalog s = Some c" "ed_effect event \<notin> set (ce_effects c)" "ce_effects c = e # es"
    and "find_effect effects (Some e) = Some d" "ef_transient d" "trim (ed_duration event) \<noteq> []"
  shows "let event' = edit_event catalog effects (Edit_subsystem s) event
    in fm_duration_disabled (event_form_of catalog effects i n sel event')
       \<and> \<not> offered catalog effects event' (Edit_duration [])
       \<and> obj_get (injection_block event') ''duration'' = Str (trim (ed_duration event))
       \<and> ed_duration (edit_event catalog effects (Edit_effect e) event) = []"
proof -
  have "edit_event catalog effects (Edit_subsystem s) event
      = event\<lparr>ed_subsystem := s, ed_effect := e, ed_parameters := parameters_for (Some d)\<rparr>"
    using assms by (simp add: change_subsystem_def)
  then show ?thesis
    using assms
    by (simp add: Let_def event_form_of_def offered_def change_effect_def injection_block_def text_field_def)
qed

definition noise_effect :: effect_descriptor where
  "noise_effect =
     \<lparr>ef_effect = Eff_degraded, ef_description = ''noise'', ef_duration_required = False,
      ef_transient = False,
      ef_parameters = [\<lparr>ps_name = ''noise'', ps_type = ''number'', ps_description = ''Metres'',
                        ps_minimum = Some (Fin 0), ps_maximum = None\<rparr>]\<rparr>"

definition restart_effect :: effect_descriptor where
  "restart_effect =
     \<lparr>ef_effect = Eff_restart, ef_description = ''restart'', ef_duration_required = False,
      ef_transient = True, ef_parameters = []\<rparr>"

definition example_catalog :: "catalog_entry list" where
  "example_catalog =
     [\<lparr>ce_subsystem = ''navigation.gnss'', ce_name = ''GNSS'', ce_category = ''Navigation'',
       ce_critical = False, ce_effects = [Eff_degraded]\<rparr>,
      \<lparr>ce_subsystem = ''mission.compute'', ce_name = ''Compute'', ce_category = ''Compute'',
       ce_critical = False, ce_effects = [Eff_restart]\<rparr>]"

definition gnss_event :: event_draft where
  "gnss_event =
     \<lparr>ed_id = ''gnss'', ed_at = ''30s'', ed_subsystem = ''navigation.gnss'', ed_effect = Eff_degraded,
      ed_duration = ''20s'', ed_parameters = parameters_for (Some noise_effect), ed_expect = [],
      ed_description = []\<rparr>"

lemmas editor_example = noise_effect_def restart_effect_def example_catalog_def gnss_event_def

theorem edit_event_fits_witness:
  "let e = edit_event example_catalog [noise_effect, restart_effect] (Edit_subsystem ''mission.compute'') gnss_event
   in event_fits example_catalog [noise_effect, restart_effect] e \<and> ed_effect e = Eff_restart
      \<and> ed_parameters e = []"
proof -
  have "catalog_ok example_catalog [noise_effect, restart_effect]"
    "event_fits example_catalog [noise_effect, restart_effect] gnss_event"
    "offered example_catalog [noise_effect, restart_effect] gnss_event (Edit_subsystem ''mission.compute'')"
    by (simp_all add: editor_example catalog_ok_def event_fits_def parameters_for_def find_entry_def find_effect_def
      signature_of_def spec_signature_def offered_def event_form_of_def Let_def)
  from edit_event_fits [OF this] show ?thesis
    by (simp add: Let_def) (simp add: change_subsystem_def find_entry_def find_effect_def
      parameters_for_def editor_example)
qed

theorem subsystem_change_keeps_duration_witness:
  "let event' = edit_event example_catalog [restart_effect] (Edit_subsystem ''mission.compute'') gnss_event
   in fm_duration_disabled (event_form_of example_catalog [restart_effect] 0 1 True event')
      \<and> obj_get (injection_block event') ''duration'' = Str ''20s''"
proof -
  have "find_entry example_catalog ''mission.compute'' = Some (example_catalog ! 1)"
    "ed_effect gnss_event \<notin> set (ce_effects (example_catalog ! 1))"
    "ce_effects (example_catalog ! 1) = [Eff_restart]"
    "find_effect [restart_effect] (Some Eff_restart) = Some restart_effect"
    "ef_transient restart_effect" "trim (ed_duration gnss_event) \<noteq> []"
    by code_simp+
  moreover have "trim (ed_duration gnss_event) = ''20s''" by code_simp
  ultimately show ?thesis
    using subsystem_change_keeps_duration [of example_catalog "''mission.compute''" "example_catalog ! 1"
        gnss_event Eff_restart "[]" "[restart_effect]" restart_effect 0 1 True]
    by (simp add: Let_def)
qed

end
