(* ===== verification/AssertionEditor.thy ===== *)
theory AssertionEditor
  imports ScenarioDocument MetricPaths JSText
begin

text \<open>
  apps/web/src/components/scenario/assertion-editor.tsx: the edits of the assertions of a draft
  and the browser of metric paths.
\<close>

datatype assertion_edit =
    Add_assertion
  | Add_suggested metric_path
  | Edit_expression nat string
  | Edit_severity nat severity
  | Edit_assertion_description nat string
  | Remove_assertion nat

fun edit_assertions :: "assertion_edit \<Rightarrow> assertion_draft list \<Rightarrow> assertion_draft list" where
  "edit_assertions Add_assertion xs =
     xs @ [\<lparr>ad_expression = ''safety.loss_of_control == false'', ad_severity = Sev_critical,
            ad_description = []\<rparr>]"
| "edit_assertions (Add_suggested path) xs =
     xs @ [\<lparr>ad_expression = suggested_expression path, ad_severity = Sev_medium, ad_description = []\<rparr>]"
| "edit_assertions (Edit_expression i v) xs = update_at i (\<lambda>a. a\<lparr>ad_expression := v\<rparr>) xs"
| "edit_assertions (Edit_severity i v) xs = update_at i (\<lambda>a. a\<lparr>ad_severity := v\<rparr>) xs"
| "edit_assertions (Edit_assertion_description i v) xs = update_at i (\<lambda>a. a\<lparr>ad_description := v\<rparr>) xs"
| "edit_assertions (Remove_assertion i) xs = remove_at i xs"

text \<open>The browser: a path with a placeholder in it cannot be picked.\<close>

definition path_disabled :: "metric_path \<Rightarrow> bool" where
  "path_disabled path = has_text (mp_path path) ''<''"

record assertion_form =
  af_toggle :: string
  af_empty :: bool
  af_rows :: "assertion_draft list"
  af_browser :: "(string \<times> (metric_path \<times> bool) list) list"

definition assertion_form_of :: "bool \<Rightarrow> assertion_draft list \<Rightarrow> assertion_form" where
  "assertion_form_of helperOpen assertions =
     \<lparr>af_toggle = (if helperOpen then ''Hide metric paths'' else ''Show metric paths''),
      af_empty = (assertions = []),
      af_rows = assertions,
      af_browser = (if helperOpen
        then map (\<lambda>(g, ps). (g, map (\<lambda>p. (p, path_disabled p)) ps)) METRIC_PATH_GROUPS else [])\<rparr>"

end
