(* ===== verification/Feedback.thy ===== *)
theory Feedback
  imports ApiClient JSNumOrder
begin

text \<open>
  apps/web/src/components/ui/feedback.tsx: what is shown while data loads, when there is none, and
  for a failed request; class names other than those of the tones are not modelled.
\<close>

section \<open>Loading\<close>

text \<open>The opacities of the rows: \<open>1 - index * 0.12\<close>; five rows when none are asked for.\<close>

definition skeleton_rows :: "nat option \<Rightarrow> jsnum list" where
  "skeleton_rows rows =
     map (\<lambda>index. num_sub (Fin 1) (num_mul (Fin (of_nat index)) (Fin (fl (12 / 100))))) [0 ..< nullish rows 5]"

definition loading_panel :: "string option \<Rightarrow> string" where
  "loading_panel label = nullish label ''Loading''"

section \<open>Nothing to show\<close>

record empty_view =
  ey_title :: string
  ey_description :: "string option"
  ey_action :: bool

definition empty_state :: "string \<Rightarrow> string option \<Rightarrow> bool \<Rightarrow> empty_view" where
  "empty_state title description hasAction =
     \<lparr>ey_title = title, ey_description = (if truthy description then description else None),
      ey_action = hasAction\<rparr>"

text \<open>The tone of a notice is \<open>info\<close> when none is given; \<open>ok\<close>, \<open>warn\<close> and \<open>bad\<close> are the others.\<close>

definition notice_class :: "tone option \<Rightarrow> string" where
  "notice_class t =
     (case nullish t Info of
        Info \<Rightarrow> ''border-info/40 bg-info-soft text-info''
      | Warn \<Rightarrow> ''border-warn/40 bg-warn-soft text-warn''
      | Bad \<Rightarrow> ''border-bad/40 bg-bad-soft text-bad''
      | Ok \<Rightarrow> ''border-ok/40 bg-ok-soft text-ok''
      | _ \<Rightarrow> [])"

section \<open>Failed requests\<close>

text \<open>
  \<open>Thrown_type\<close> is a \<open>TypeError\<close> (what \<open>fetch\<close> throws when the server is not reachable).
\<close>

datatype thrown = Thrown_api api_error | Thrown_type string | Thrown_error string | Thrown_other

text \<open>\<open>None\<close>: formatting the payload throws in turn.\<close>

definition error_message :: "thrown \<Rightarrow> string option" where
  "error_message error =
     (case error of
        Thrown_api e \<Rightarrow>
          if ae_status e = 0 then Some ''The API is not reachable from this browser.''
          else describe_error (ae_detail e) (Some (ae_status e))
      | Thrown_type _ \<Rightarrow> Some ''The API is not reachable from this browser.''
      | Thrown_error m \<Rightarrow> Some m
      | Thrown_other \<Rightarrow> Some ''Unexpected error.'')"

definition unreachable :: "thrown \<Rightarrow> bool" where
  "unreachable error =
     (case error of Thrown_type _ \<Rightarrow> True | Thrown_api e \<Rightarrow> ae_status e = 0 | _ \<Rightarrow> False)"

record error_view =
  er_title :: string
  er_unplugged :: bool
  er_message :: "string option"
  er_retry :: bool

definition error_state :: "string \<Rightarrow> thrown \<Rightarrow> bool \<Rightarrow> error_view" where
  "error_state title error canRetry =
     \<lparr>er_title = title, er_unplugged = unreachable error, er_message = error_message error,
      er_retry = canRetry\<rparr>"

text \<open>\<open>Request failed\<close> when no title is given.\<close>

definition request_failed :: "thrown \<Rightarrow> bool \<Rightarrow> error_view" where
  "request_failed = error_state ''Request failed''"

text \<open>A row is visible when its opacity is above zero: the first nine rows are, however many are asked for.\<close>

lemma skeleton_row_visible:
  assumes "rows \<le> 1000"
  shows "map (num_less (Fin 0)) (skeleton_rows (Some rows)) = map (\<lambda>k. k < 9) [0 ..< rows]"
proof -
  have row: "num_less (Fin 0) (num_sub (Fin 1) (num_mul (Fin (of_nat k)) (Fin (fl (12 / 100))))) \<longleftrightarrow> k < 9"
    if "k \<le> 1000" for k
  proof -
    define c :: rat where "c = fl (12 / 100)"
    define x where "x = of_nat k * c"
    have c: "119 / 1000 \<le> c" "c \<le> 121 / 1000" using fl_close [of "12 / 100"] unfolding c_def
      by (simp_all only: abs_le_iff) linarith+
    have k: "of_nat k \<le> (1000 :: rat)" using that by simp
    have "0 \<le> x" "x \<le> 1000 * (121 / 1000)" unfolding x_def using c k by (simp, intro mult_mono) auto
    then have x: "\<bar>fl x - x\<bar> \<le> 1 / 1000" "\<bar>x\<bar> \<le> 2 ^ 1000" using fl_close [of x] by simp_all
    have near: "- 1 \<le> fl x" "fl x \<le> 122"
      using x(1) \<open>0 \<le> x\<close> \<open>x \<le> 1000 * (121 / 1000)\<close> unfolding abs_le_iff by linarith+
    have "(2 :: rat) ^ 8 \<le> 2 ^ 1000" by (intro power_increasing) simp_all
    then have y: "\<bar>fl (1 - fl x) - (1 - fl x)\<bar> \<le> 1 / 1000" "\<bar>1 - fl x\<bar> \<le> 2 ^ 1000"
      using near fl_close [of "1 - fl x"] by (simp_all add: abs_le_iff)
    have "num_sub (Fin 1) (num_mul (Fin (of_nat k)) (Fin (fl (12 / 100)))) = Fin (fl (1 - fl x))"
      using x(2) y(2) by (simp add: num_sub_def num_mul.simps num_neg.simps num_add.simps to_num_small x_def c_def)
    moreover have "0 < fl (1 - fl x) \<longleftrightarrow> k < 9"
    proof (cases "k < 9")
      case True
      then have "(of_nat k :: rat) \<le> 8" by simp
      then have "x \<le> 8 * (121 / 1000)" unfolding x_def using c by (intro mult_mono) auto
      then show ?thesis using x(1) y(1) True unfolding abs_le_iff by linarith
    next
      case False
      then have "(9 :: rat) \<le> of_nat k" by simp
      then have "9 * (119 / 1000) \<le> x" unfolding x_def using c by (intro mult_mono) auto
      then show ?thesis using x(1) y(1) False unfolding abs_le_iff by linarith
    qed
    ultimately show ?thesis by simp
  qed
  show ?thesis
    unfolding skeleton_rows_def map_map comp_def by (rule map_cong) (use assms row in \<open>auto simp: less_imp_le\<close>)
qed

end
