(* ===== verification/ScenarioStudio.thy ===== *)
theory ScenarioStudio
  imports EventEditor AssertionEditor Feedback Topology
begin

text \<open>
  apps/web/src/components/scenario/studio.tsx: the scenario studio as a state machine. The draft
  behind the form and the YAML text are two representations of one document; \<open>studio_action\<close>
  has one constructor per control and \<open>studio_step\<close> is its handler. The YAML library is the pair
  of parameters \<open>load\<close> and \<open>dump\<close>.
\<close>

section \<open>Fresh identifiers\<close>

definition numbered :: "string \<Rightarrow> nat \<Rightarrow> string" where
  "numbered slug k = slug @ ''-'' @ dec (int k)"

lemma numbered_inject: "numbered slug j = numbered slug k \<longleftrightarrow> j = k"
proof
  assume "numbered slug j = numbered slug k"
  then have "undec (dec (int j)) = undec (dec (int k))" by (simp add: numbered_def)
  then show "j = k" by (simp add: undec_dec)
qed simp

lemma finite_numbered: "finite {k. i \<le> k \<and> numbered slug k \<in> set ids}"
proof (rule finite_subset)
  show "{k. i \<le> k \<and> numbered slug k \<in> set ids} \<subseteq> numbered slug -` set ids" by auto
  show "finite (numbered slug -` set ids)"
    by (rule finite_vimageI) (auto simp: inj_def numbered_inject)
qed

text \<open>\<open>while (existing.some(...)) index += 1\<close>: the loop ends, since the numbered names differ.\<close>

function free_index :: "string list \<Rightarrow> string \<Rightarrow> nat \<Rightarrow> nat" where
  "free_index ids slug i = (if numbered slug i \<in> set ids then free_index ids slug (i + 1) else i)"
  by pat_completeness auto
termination
proof (relation "measure (\<lambda>(ids, slug, i). card {k. i \<le> k \<and> numbered slug k \<in> set ids})")
  fix ids :: "string list" and slug :: string and i :: nat
  assume i: "numbered slug i \<in> set ids"
  have "card {k. i + 1 \<le> k \<and> numbered slug k \<in> set ids} < card {k. i \<le> k \<and> numbered slug k \<in> set ids}"
  proof (rule psubset_card_mono [OF finite_numbered psubsetI])
    show "{k. i + 1 \<le> k \<and> numbered slug k \<in> set ids} \<subseteq> {k. i \<le> k \<and> numbered slug k \<in> set ids}"
      by auto
    have "i \<in> {k. i \<le> k \<and> numbered slug k \<in> set ids}"
      "i \<notin> {k. i + 1 \<le> k \<and> numbered slug k \<in> set ids}" using i by simp_all
    then show "{k. i + 1 \<le> k \<and> numbered slug k \<in> set ids} \<noteq> {k. i \<le> k \<and> numbered slug k \<in> set ids}"
      by metis
  qed
  then show "((ids, slug, i + 1), (ids, slug, i))
      \<in> measure (\<lambda>(ids, slug, i). card {k. i \<le> k \<and> numbered slug k \<in> set ids})" by simp
qed simp

declare free_index.simps [simp del]

definition unique_event_id :: "string \<Rightarrow> event_draft list \<Rightarrow> string" where
  "unique_event_id base existing =
     (let slug = dashed base
      in if slug \<notin> set (map ed_id existing) then slug
         else numbered slug (free_index (map ed_id existing) slug 2))"

section \<open>State and actions\<close>

record studio =
  st_draft :: scenario_draft
  st_yaml_mode :: bool
  st_raw_yaml :: string
  st_yaml_error :: "string option"
  st_selected :: "string option"
  st_saved :: "string option"

definition studio_start :: "(jsval \<Rightarrow> string) \<Rightarrow> scenario_draft option \<Rightarrow> studio" where
  "studio_start dump initial =
     \<lparr>st_draft = nullish initial empty_draft, st_yaml_mode = False,
      st_raw_yaml = draft_to_yaml dump (nullish initial empty_draft),
      st_yaml_error = None, st_selected = None, st_saved = None\<rparr>"

definition studio_document :: "(jsval \<Rightarrow> string) \<Rightarrow> studio \<Rightarrow> string" where
  "studio_document dump s = (if st_yaml_mode s then st_raw_yaml s else draft_to_yaml dump (st_draft s))"

definition patch :: "(jsval \<Rightarrow> string) \<Rightarrow> (scenario_draft \<Rightarrow> scenario_draft) \<Rightarrow> studio \<Rightarrow> studio" where
  "patch dump change s =
     (let updated = change (st_draft s)
      in s\<lparr>st_draft := updated,
           st_raw_yaml := (if st_yaml_mode s then st_raw_yaml s else draft_to_yaml dump updated),
           st_saved := None\<rparr>)"

definition set_events ::
  "(jsval \<Rightarrow> string) \<Rightarrow> (event_draft list \<Rightarrow> event_draft list) \<Rightarrow> studio \<Rightarrow> studio" where
  "set_events dump f = patch dump (\<lambda>d. d\<lparr>sd_events := f (sd_events d)\<rparr>)"

definition set_recovery ::
  "(jsval \<Rightarrow> string) \<Rightarrow> (recovery_draft \<Rightarrow> recovery_draft) \<Rightarrow> studio \<Rightarrow> studio" where
  "set_recovery dump f = patch dump (\<lambda>d. d\<lparr>sd_recovery := f (sd_recovery d)\<rparr>)"

text \<open>\<open>subsystem.split(".")[1] ?? subsystem\<close>\<close>

definition short_subsystem :: "string \<Rightarrow> string" where
  "short_subsystem subsystem = (case split_on (CHR ''.'') subsystem of _ # b # _ \<Rightarrow> b | _ \<Rightarrow> subsystem)"

definition timeout_seconds :: "scenario_draft \<Rightarrow> jsnum" where
  "timeout_seconds d = nullish (parse_duration (sd_timeout d)) (Fin 180)"

definition last_event_at :: "event_draft list \<Rightarrow> jsnum" where
  "last_event_at events =
     foldl (\<lambda>m e. num_max m (nullish (parse_duration (ed_at e)) (Fin 0))) (Fin 0) events"

definition append_time :: "scenario_draft \<Rightarrow> jsnum" where
  "append_time d =
     num_min (num_max (num_add (last_event_at (sd_events d)) (Fin 15)) (Fin 15))
             (num_max (Fin 10) (num_sub (timeout_seconds d) (Fin 10)))"

definition new_event :: "effect_descriptor list \<Rightarrow> string \<Rightarrow> effect \<Rightarrow> scenario_draft \<Rightarrow> event_draft" where
  "new_event effects subsystem effect d =
     (let descriptor = find_effect effects (Some effect)
      in \<lparr>ed_id = unique_event_id (short_subsystem subsystem @ ''-'' @ effect_str effect) (sd_events d),
          ed_at = num_str (num_round (append_time d)) @ ''s'',
          ed_subsystem = subsystem,
          ed_effect = effect,
          ed_duration = (case descriptor of Some x \<Rightarrow> if ef_duration_required x then ''20s'' else []
                         | None \<Rightarrow> []),
          ed_parameters = parameters_for descriptor,
          ed_expect = [],
          ed_description = []\<rparr>)"

definition append_injection ::
  "(jsval \<Rightarrow> string) \<Rightarrow> effect_descriptor list \<Rightarrow> string \<Rightarrow> effect \<Rightarrow> studio \<Rightarrow> studio" where
  "append_injection dump effects subsystem effect s =
     (let event = new_event effects subsystem effect (st_draft s)
      in (set_events dump (\<lambda>es. es @ [event]) s)\<lparr>st_selected := Some (ed_id event)\<rparr>)"

definition toggle_yaml_mode ::
  "(string \<Rightarrow> string option + jsval) \<Rightarrow> (jsval \<Rightarrow> string) \<Rightarrow> bool \<Rightarrow> studio \<Rightarrow> studio" where
  "toggle_yaml_mode load dump enabled s =
     (if enabled then
        s\<lparr>st_raw_yaml := draft_to_yaml dump (st_draft s), st_yaml_error := None, st_yaml_mode := True\<rparr>
      else case parse_scenario_document load (st_raw_yaml s) of
             Inr parsed \<Rightarrow> s\<lparr>st_draft := parsed, st_yaml_error := None, st_yaml_mode := False\<rparr>
           | Inl message \<Rightarrow> s\<lparr>st_yaml_error := Some message\<rparr>)"

definition raw_yaml_change ::
  "(string \<Rightarrow> string option + jsval) \<Rightarrow> string \<Rightarrow> studio \<Rightarrow> studio" where
  "raw_yaml_change load text s =
     (let s' = s\<lparr>st_raw_yaml := text, st_saved := None\<rparr>
      in case parse_scenario_document load text of
           Inr parsed \<Rightarrow> s'\<lparr>st_draft := parsed, st_yaml_error := None\<rparr>
         | Inl message \<Rightarrow> s'\<lparr>st_yaml_error := Some message\<rparr>)"

text \<open>\<open>value.split(",").map(trim).filter(Boolean)\<close>\<close>

definition tags_of :: "string \<Rightarrow> string list" where
  "tags_of text = filter (\<lambda>t. t \<noteq> []) (map trim (split_on (CHR '','') text))"

datatype studio_action =
    Set_name string
  | Set_version string
  | Set_tags string
  | Set_description string
  | Set_adapter adapter_name
  | Set_vehicle string
  | Set_mission_type mission_type
  | Set_timeout string
  | Set_altitude string
  | Set_cruise_speed string
  | Set_seed string
  | Set_speed string
  | Set_gnss_loss gnss_loss
  | Set_datalink_loss datalink_loss
  | Set_compute_loss compute_loss
  | Set_hold_timeout string
  | Set_max_dead_reckoning string
  | Edit_event nat event_edit
  | Remove_event nat
  | Move_event nat int
  | Edit_assertions assertion_edit
  | Append_injection string effect
  | Select_event string
  | Toggle_yaml bool
  | Raw_yaml string
  | Was_saved string

fun studio_step ::
  "(string \<Rightarrow> string option + jsval) \<Rightarrow> (jsval \<Rightarrow> string) \<Rightarrow> catalog_entry list \<Rightarrow> effect_descriptor list
     \<Rightarrow> studio_action \<Rightarrow> studio \<Rightarrow> studio" where
  "studio_step load dump catalog effects (Set_name v) s = patch dump (\<lambda>d. d\<lparr>sd_name := v\<rparr>) s"
| "studio_step load dump catalog effects (Set_version v) s = patch dump (\<lambda>d. d\<lparr>sd_version := v\<rparr>) s"
| "studio_step load dump catalog effects (Set_tags v) s = patch dump (\<lambda>d. d\<lparr>sd_tags := tags_of v\<rparr>) s"
| "studio_step load dump catalog effects (Set_description v) s = patch dump (\<lambda>d. d\<lparr>sd_description := v\<rparr>) s"
| "studio_step load dump catalog effects (Set_adapter v) s = patch dump (\<lambda>d. d\<lparr>sd_adapter := v\<rparr>) s"
| "studio_step load dump catalog effects (Set_vehicle v) s = patch dump (\<lambda>d. d\<lparr>sd_vehicle := v\<rparr>) s"
| "studio_step load dump catalog effects (Set_mission_type v) s = patch dump (\<lambda>d. d\<lparr>sd_mission_type := v\<rparr>) s"
| "studio_step load dump catalog effects (Set_timeout v) s = patch dump (\<lambda>d. d\<lparr>sd_timeout := v\<rparr>) s"
| "studio_step load dump catalog effects (Set_altitude v) s = patch dump (\<lambda>d. d\<lparr>sd_altitude := parse_number v\<rparr>) s"
| "studio_step load dump catalog effects (Set_cruise_speed v) s =
     patch dump (\<lambda>d. d\<lparr>sd_cruise_speed := parse_number v\<rparr>) s"
| "studio_step load dump catalog effects (Set_seed v) s = patch dump (\<lambda>d. d\<lparr>sd_seed := parse_number v\<rparr>) s"
| "studio_step load dump catalog effects (Set_speed v) s = patch dump (\<lambda>d. d\<lparr>sd_speed := parse_number v\<rparr>) s"
| "studio_step load dump catalog effects (Set_gnss_loss v) s = set_recovery dump (\<lambda>r. r\<lparr>rc_gnss_loss := v\<rparr>) s"
| "studio_step load dump catalog effects (Set_datalink_loss v) s =
     set_recovery dump (\<lambda>r. r\<lparr>rc_datalink_loss := v\<rparr>) s"
| "studio_step load dump catalog effects (Set_compute_loss v) s =
     set_recovery dump (\<lambda>r. r\<lparr>rc_compute_loss := v\<rparr>) s"
| "studio_step load dump catalog effects (Set_hold_timeout v) s =
     set_recovery dump (\<lambda>r. r\<lparr>rc_hold_timeout := v\<rparr>) s"
| "studio_step load dump catalog effects (Set_max_dead_reckoning v) s =
     set_recovery dump (\<lambda>r. r\<lparr>rc_max_dead_reckoning := v\<rparr>) s"
| "studio_step load dump catalog effects (Edit_event i edit) s =
     set_events dump (update_at i (edit_event catalog effects edit)) s"
| "studio_step load dump catalog effects (Remove_event i) s = set_events dump (remove_at i) s"
| "studio_step load dump catalog effects (Move_event i direction) s =
     (let n = int (length (sd_events (st_draft s))); target = int i + direction
      in if target < 0 \<or> target \<ge> n \<or> int i \<ge> n then s else set_events dump (move_at i direction) s)"
| "studio_step load dump catalog effects (Edit_assertions edit) s =
     patch dump (\<lambda>d. d\<lparr>sd_assertions := edit_assertions edit (sd_assertions d)\<rparr>) s"
| "studio_step load dump catalog effects (Append_injection subsystem effect) s =
     append_injection dump effects subsystem effect s"
| "studio_step load dump catalog effects (Select_event i) s = s\<lparr>st_selected := Some i\<rparr>"
| "studio_step load dump catalog effects (Toggle_yaml enabled) s = toggle_yaml_mode load dump enabled s"
| "studio_step load dump catalog effects (Raw_yaml text) s = raw_yaml_change load text s"
| "studio_step load dump catalog effects (Was_saved name) s = s\<lparr>st_saved := Some name\<rparr>"

section \<open>Saving\<close>

record save_request =
  sv_document :: string
  sv_overwrite :: bool

definition persist :: "(jsval \<Rightarrow> string) \<Rightarrow> bool \<Rightarrow> studio \<Rightarrow> save_request" where
  "persist dump overwrite s = \<lparr>sv_document = studio_document dump s, sv_overwrite = overwrite\<rparr>"

text \<open>Where the page goes once the document was stored under \<open>name\<close>.\<close>

definition after_save :: "string option \<Rightarrow> string \<Rightarrow> string option" where
  "after_save editingName name =
     (if \<not> truthy editingName \<or> editingName \<noteq> Some name then Some (''/scenarios/'' @ name) else None)"

definition conflict :: "thrown option \<Rightarrow> bool" where
  "conflict error = (case error of Some (Thrown_api e) \<Rightarrow> ae_status e = 409 | _ \<Rightarrow> False)"

section \<open>The page\<close>

record validation =
  vd_valid :: bool
  vd_issues :: "(string \<times> string) list"
  vd_warnings :: "(string \<times> string) list"
  vd_content_hash :: "string option"

text \<open>The validation query of the debounced document, and the save mutation.\<close>

record studio_inputs =
  sn_editing_name :: "string option"
  sn_source :: "string option"
  sn_catalog :: "catalog_entry list"
  sn_effects :: "effect_descriptor list"
  sn_fetching :: bool
  sn_validation_error :: "thrown option"
  sn_validation :: "validation option"
  sn_saving :: bool
  sn_save_error :: "thrown option"

definition plural :: "nat \<Rightarrow> string \<Rightarrow> string" where
  "plural n word = dec (int n) @ '' '' @ word @ (if n = 1 then [] else ''S'')"

text \<open>\<open>/^[a-z0-9](?:[a-z0-9-]{0,62}[a-z0-9])?$/\<close>\<close>

definition name_char :: "char \<Rightarrow> bool" where
  "name_char c = (is_digit c \<or> 97 \<le> (of_char c :: int) \<and> (of_char c :: int) \<le> 122)"

definition name_ok :: "string \<Rightarrow> bool" where
  "name_ok s = (s \<noteq> [] \<and> length s \<le> 64 \<and> name_char (hd s) \<and> name_char (last s)
                \<and> list_all (\<lambda>c. name_char c \<or> c = CHR ''-'') s)"

text \<open>\<open>hash.replace("sha256:", "").slice(0, 16)\<close>\<close>

fun drop_text :: "string \<Rightarrow> string \<Rightarrow> string" where
  "drop_text p [] = []"
| "drop_text p (c # cs) =
     (if starts_with p (c # cs) then drop (length p) (c # cs) else c # drop_text p cs)"

definition short_hash :: "string \<Rightarrow> string" where
  "short_hash h = take 16 (drop_text ''sha256:'' h)"

datatype save_notice = No_notice | Conflict string | Save_failed "string option"

datatype validation_panel =
    Validation_failed "string option"
  | Not_validated
  | Validated bool "(string \<times> string) list" "(string \<times> string) list" "string option"

record studio_page =
  su_heading :: string
  su_source :: "string option"
  su_badge :: "(string \<times> tone) option"
  su_warnings :: "string option"
  su_save_disabled :: bool
  su_save_text :: string
  su_save_title :: string
  su_run_disabled :: bool
  su_notice :: save_notice
  su_saved :: "string option"
  su_yaml_error :: "string option"
  su_counts :: string
  su_name_invalid :: bool
  su_tags :: string
  su_timeout :: jsnum
  su_events :: "event_form list"
  su_profile_notice :: bool
  su_yaml_title :: string
  su_yaml_text :: string
  su_validation :: validation_panel
  su_all_clear :: bool

definition studio_page_of :: "(jsval \<Rightarrow> string) \<Rightarrow> studio_inputs \<Rightarrow> studio \<Rightarrow> studio_page" where
  "studio_page_of dump i s =
     (let d = st_draft s;
          issues = (case sn_validation i of None \<Rightarrow> [] | Some v \<Rightarrow> vd_issues v);
          warnings = (case sn_validation i of None \<Rightarrow> [] | Some v \<Rightarrow> vd_warnings v);
          valid = (case sn_validation i of None \<Rightarrow> False | Some v \<Rightarrow> vd_valid v)
      in \<lparr>su_heading = (if truthy (sn_editing_name i)
            then ''Scenario studio: '' @ nullish (sn_editing_name i) [] else ''Scenario studio''),
          su_source = (if truthy (sn_source i) then sn_source i else None),
          su_badge = (if sn_fetching i then Some (''VALIDATING'', Info)
            else if sn_validation_error i \<noteq> None then Some (''VALIDATION UNAVAILABLE'', Dim)
            else if sn_validation i \<noteq> None
            then Some (if valid then (''VALID'', Ok) else (plural (length issues) ''ISSUE'', Bad))
            else None),
          su_warnings = (if warnings \<noteq> [] then Some (plural (length warnings) ''WARNING'') else None),
          su_save_disabled = (sn_saving i \<or> \<not> valid),
          su_save_text = (if sn_saving i then ''Saving'' else ''Save to library''),
          su_save_title = (if valid then ''Store this document in the library''
            else ''Fix the validation issues first''),
          su_run_disabled = (\<not> valid),
          su_notice = (if conflict (sn_save_error i) then Conflict (sd_name d)
            else case sn_save_error i of None \<Rightarrow> No_notice | Some e \<Rightarrow> Save_failed (error_message e)),
          su_saved = (if truthy (st_saved s) then st_saved s else None),
          su_yaml_error = (if truthy (st_yaml_error s)
            then Some (''YAML: '' @ nullish (st_yaml_error s) []) else None),
          su_counts = dec (int (length (sd_events d))) @ '' events, ''
            @ dec (int (length (sd_assertions d))) @ '' assertions'',
          su_name_invalid = (sd_name d \<noteq> [] \<and> \<not> name_ok (sd_name d)),
          su_tags = join_with '', '' (sd_tags d),
          su_timeout = timeout_seconds d,
          su_events = map (\<lambda>(index, e). event_form_of (sn_catalog i) (sn_effects i) index
              (length (sd_events d)) (Some (ed_id e) = st_selected s) e) (enumerate 0 (sd_events d)),
          su_profile_notice = (pv_profile (sd_preserved d) \<noteq> None),
          su_yaml_title = (if st_yaml_mode s then ''YAML document (editable)'' else ''YAML document''),
          su_yaml_text = studio_document dump s,
          su_validation = (case (sn_validation_error i, sn_validation i) of
              (Some e, _) \<Rightarrow> Validation_failed (error_message e)
            | (None, None) \<Rightarrow> Not_validated
            | (None, Some v) \<Rightarrow> Validated (issues = [] \<and> warnings = []) issues warnings
                (if truthy (vd_content_hash v) then map_option short_hash (vd_content_hash v) else None)),
          su_all_clear = (sn_validation i \<noteq> None \<and> valid \<and> warnings = [])\<rparr>)"

text \<open>apps/web/src/app/scenarios/new/new-scenario-view.tsx: the draft a new scenario starts from.\<close>

definition starter_draft :: scenario_draft where
  "starter_draft =
     empty_draft\<lparr>sd_name := ''new-scenario'',
       sd_description := ''Describe what this scenario validates.'',
       sd_tags := [],
       sd_events := [\<lparr>ed_id = ''gnss-loss'', ed_at = ''30s'', ed_subsystem = ''navigation.gnss'',
         ed_effect = Eff_unavailable, ed_duration = ''40s'', ed_parameters = [],
         ed_expect = [\<lparr>xd_subsystem = ''navigation.estimator'', xd_state = DEGRADED,
                        xd_within = ''3s'', xd_description = []\<rparr>],
         ed_description = ''GNSS aiding is lost while enroute''\<rparr>],
       sd_assertions :=
        [\<lparr>ad_expression = ''flight_control.available == true'', ad_severity = Sev_critical,
          ad_description = ''The flight core never leaves a healthy state''\<rparr>,
         \<lparr>ad_expression = ''safety.loss_of_control == false'', ad_severity = Sev_critical,
          ad_description = []\<rparr>,
         \<lparr>ad_expression = ''containment.flight_domain_affected == false'', ad_severity = Sev_critical,
          ad_description = ''No fault crosses the mission and flight trust boundary''\<rparr>]\<rparr>"

section \<open>Appending an injection\<close>

lemma numbered_free_index: "numbered slug (free_index ids slug i) \<notin> set ids"
  by (induction ids slug i rule: free_index.induct) (subst free_index.simps, simp)

lemma unique_event_id_fresh: "unique_event_id base existing \<notin> set (map ed_id existing)"
  using numbered_free_index [of "dashed base" "map ed_id existing" 2]
  by (simp add: unique_event_id_def Let_def)

lemma is_amount_max: "is_amount a \<Longrightarrow> is_amount b \<Longrightarrow> is_amount (num_max a b)"
  unfolding is_amount_def by (elim disjE exE conjE) (auto simp: max_def)

lemma is_amount_last: "is_amount (last_event_at events)"
proof -
  have "is_amount (foldl (\<lambda>m e. num_max m (nullish (parse_duration (ed_at e)) (Fin 0))) a events)"
    if "is_amount a" for a using that by (induction events arbitrary: a) (simp_all add: is_amount_max is_amount_time)
  then show ?thesis by (simp add: last_event_at_def is_amount_0)
qed

text \<open>A sum in doubles is at least any whole number it is mathematically at least.\<close>

lemma to_num_at_least:
  assumes "of_int k \<le> x" "0 \<le> k" "k \<le> 2 ^ 53"
  shows "to_num x = PosInf \<or> (\<exists>y \<ge> of_int k. to_num x = Fin y)"
proof -
  have "of_int k \<le> fl x" using fl_mono [OF assms(1)] fl_of_int [of k] assms(2,3) by simp
  moreover have "0 \<le> (of_int k :: rat)" using assms(2) by simp
  ultimately show ?thesis by (auto simp: to_num_def Let_def)
qed

lemma math_round_min_max:
  "math_round (min x (max (of_int a) (of_int b))) \<le> max a b"
proof -
  have "max (of_int a) (of_int b) = (of_int (max a b) :: rat)" by (simp add: max_def)
  then have "math_round (min x (max (of_int a) (of_int b))) \<le> math_round (of_int (max a b))"
    by (intro math_round_mono) simp
  then show ?thesis by simp
qed

text \<open>With a timeout of whole seconds the new event gets a time of whole seconds before its end.\<close>

lemma append_time_bounds:
  assumes "timeout_seconds d = Fin (of_int t)" "0 \<le> t" "t \<le> 10 ^ 14"
  shows "\<exists>n. num_round (append_time d) = Fin (of_int n) \<and> 10 \<le> n \<and> n \<le> max 10 (t - 10)
    \<and> (\<forall>l. last_event_at (sd_events d) = Fin (of_int l) \<and> 0 \<le> l \<and> l \<le> 10 ^ 14
         \<longrightarrow> n = min (l + 15) (max 10 (t - 10)))"
proof -
  let ?b = "max 10 (of_int (t - 10)) :: rat"
  have end_time: "num_max (Fin 10) (num_sub (timeout_seconds d) (Fin 10)) = Fin ?b"
    using assms to_num_int [of "t - 10"] by (simp add: num_sub_def num_eval)
  have int_b: "?b = of_int (max 10 (t - 10))" by (simp add: max_def)
  have round_b: "num_round (Fin ?b) = Fin (of_int (max 10 (t - 10)))"
    by (simp only: int_b num_round.simps math_round_of_int)
  have "is_amount (last_event_at (sd_events d))" by (rule is_amount_last)
  then consider "last_event_at (sd_events d) = PosInf"
    | x where "0 \<le> x" "last_event_at (sd_events d) = Fin x" by (auto dest: is_amount_cases)
  then show ?thesis
  proof cases
    case 1
    then have "append_time d = Fin ?b" by (simp add: append_time_def end_time num_add.simps)
    then have "num_round (append_time d) = Fin (of_int (max 10 (t - 10)))"
      by (simp only: round_b)
    then show ?thesis using 1 by (intro exI [of _ "max 10 (t - 10)"]) simp
  next
    case (2 x)
    have "of_int 15 \<le> x + 15" using 2 by simp
    from to_num_at_least [OF this] consider "to_num (x + 15) = PosInf"
      | y where "15 \<le> y" "to_num (x + 15) = Fin y" by auto
    then show ?thesis
    proof cases
      case 1
      then have "append_time d = Fin ?b" by (simp add: append_time_def end_time 2 num_add.simps)
      then have "num_round (append_time d) = Fin (of_int (max 10 (t - 10)))"
        by (simp only: round_b)
      moreover have "x \<noteq> of_int l" if "0 \<le> l" "l \<le> 10 ^ 14" for l
        using 1 that to_num_int [of "l + 15"] by auto
      ultimately show ?thesis using 2 by (intro exI [of _ "max 10 (t - 10)"]) auto
    next
      case (2 y)
      then have time: "append_time d = Fin (min y ?b)"
        using \<open>last_event_at (sd_events d) = Fin x\<close> by (simp add: append_time_def end_time num_add.simps max_def)
      have "10 \<le> math_round (min y ?b)"
        using 2 math_round_mono [of "of_int 10" "min y ?b"] math_round_of_int [of 10] by simp
      moreover have "math_round (min y ?b) \<le> max 10 (t - 10)"
        using math_round_min_max [of y 10 "t - 10"] by simp
      moreover have "math_round (min y ?b) = min (l + 15) (max 10 (t - 10))"
        if l: "x = of_int l" "0 \<le> l" "l \<le> 10 ^ 14" for l
      proof -
        have "y = of_int (l + 15)" using 2 l to_num_int [of "l + 15"] by simp
        then have "min y ?b = of_int (min (l + 15) (max 10 (t - 10)))"
          unfolding int_b by (simp only: of_int_min)
        then show ?thesis by (metis math_round_of_int)
      qed
      ultimately show ?thesis
        using \<open>last_event_at (sd_events d) = Fin x\<close> time
        by (intro exI [of _ "math_round (min y ?b)"]) (simp add: num_eval)
    qed
  qed
qed

lemma parse_duration_whole:
  assumes "0 \<le> n" "n \<le> 10 ^ 14"
  shows "parse_duration (dec n @ ''s'') = Some (Fin (of_int n))"
  using assms parse_duration_text [of None None "Some (dec n)" None] duration_value_int [of 0 n None "Some (dec n)"]
  by (simp add: duration_text_def decimal_def)



section \<open>Runs of the studio\<close>

text \<open>The controls of the form, without those that type an id or a document.\<close>

definition form_action :: "studio_action \<Rightarrow> bool" where
  "form_action a = (case a of Toggle_yaml enabled \<Rightarrow> enabled | Raw_yaml _ \<Rightarrow> False
                    | Edit_event _ (Edit_id _) \<Rightarrow> False | _ \<Rightarrow> True)"

definition studio_run ::
  "(string \<Rightarrow> string option + jsval) \<Rightarrow> (jsval \<Rightarrow> string) \<Rightarrow> catalog_entry list \<Rightarrow> effect_descriptor list
     \<Rightarrow> studio_action list \<Rightarrow> studio \<Rightarrow> studio" where
  "studio_run load dump catalog effects = fold (studio_step load dump catalog effects)"

definition event_ids :: "studio \<Rightarrow> string list" where
  "event_ids s = map ed_id (sd_events (st_draft s))"

lemma patch_draft [simp]: "st_draft (patch dump f s) = f (st_draft s)"
  by (simp add: patch_def Let_def)

lemma set_events_draft [simp]:
  "sd_events (st_draft (set_events dump f s)) = f (sd_events (st_draft s))"
  by (simp add: set_events_def)

lemma set_recovery_events [simp]:
  "sd_events (st_draft (set_recovery dump f s)) = sd_events (st_draft s)"
  by (simp add: set_recovery_def)

lemma edit_event_id: "(\<And>i. edit \<noteq> Edit_id i) \<Longrightarrow> ed_id (edit_event catalog effects edit e) = ed_id e"
  by (cases edit) (auto simp: change_subsystem_def change_effect_def change_parameter_def
      update_expectation_def Let_def)

lemma form_action_keeps_ids:
  assumes "form_action a" "distinct (event_ids s)"
  shows "distinct (event_ids (studio_step load dump catalog effects a s))"
proof (cases a)
  case (Edit_event i edit)
  then have "edit \<noteq> Edit_id x" for x using assms(1) by (auto simp: form_action_def)
  then have "map ed_id (update_at i (edit_event catalog effects edit) es) = map ed_id es" for es
    by (intro map_update_at) (rule edit_event_id)
  then show ?thesis using Edit_event assms(2) by (simp add: event_ids_def)
next
  case (Append_injection subsystem effect)
  then show ?thesis
    using assms(2) unique_event_id_fresh
    by (simp add: event_ids_def append_injection_def new_event_def Let_def)
next
  case (Toggle_yaml enabled)
  then show ?thesis using assms by (simp add: form_action_def toggle_yaml_mode_def event_ids_def)
qed (use assms in \<open>auto simp: event_ids_def form_action_def distinct_remove_at distinct_move_at Let_def\<close>)

lemma event_ids_append:
  "event_ids (append_injection dump effects subsystem effect s)
     = (let slug = dashed (short_subsystem subsystem @ ''-'' @ effect_str effect)
        in event_ids s @ [if slug \<notin> set (event_ids s) then slug
                          else numbered slug (free_index (event_ids s) slug 2)])"
  by (simp add: append_injection_def event_ids_def new_event_def unique_event_id_def Let_def)

lemma event_ids_move:
  "event_ids (studio_step load dump catalog effects (Move_event i d) s) = move_at i d (event_ids s)"
  by (auto simp: event_ids_def Let_def move_at_def map_update)

text \<open>
  C23. The events of a draft keep distinct ids, as the schema demands, under every sequence of
  form controls: only typing an id or a YAML document can make two of them equal.
\<close>

theorem form_actions_keep_ids:
  assumes "list_all form_action actions" "distinct (event_ids s)"
  shows "distinct (event_ids (studio_run load dump catalog effects actions s))"
  using assms unfolding studio_run_def
  by (induction actions arbitrary: s) (simp_all add: form_action_keeps_ids)

theorem form_actions_keep_ids_witness:
  "let s = studio_run (\<lambda>_. Inl None) (\<lambda>_. []) example_catalog [noise_effect, restart_effect]
       [Append_injection ''mission.compute'' Eff_restart, Append_injection ''mission.compute'' Eff_restart,
        Move_event 0 1] (studio_start (\<lambda>_. []) None)
   in event_ids s = [''compute-restart-2'', ''compute-restart''] \<and> distinct (event_ids s)"
proof -
  let ?acts = "[Append_injection ''mission.compute'' Eff_restart,
    Append_injection ''mission.compute'' Eff_restart, Move_event 0 1]"
  have "list_all form_action ?acts" "distinct (event_ids (studio_start (\<lambda>_. []) None))" by code_simp+
  from form_actions_keep_ids [OF this]
  have "distinct (event_ids (studio_run (\<lambda>_. Inl None) (\<lambda>_. []) example_catalog
    [noise_effect, restart_effect] ?acts (studio_start (\<lambda>_. []) None)))" .
  moreover have "dashed ''compute-restart'' = ''compute-restart''" "short_subsystem ''mission.compute'' = ''compute''"
    "free_index [''compute-restart''] ''compute-restart'' 2 = 2"
    "numbered ''compute-restart'' 2 = ''compute-restart-2''" "event_ids (studio_start (\<lambda>_. []) None) = []"
    by code_simp+
  then have "event_ids (studio_run (\<lambda>_. Inl None) (\<lambda>_. []) example_catalog
      [noise_effect, restart_effect] ?acts (studio_start (\<lambda>_. []) None))
    = [''compute-restart-2'', ''compute-restart'']"
    by (simp add: studio_run_def event_ids_append event_ids_move Let_def move_at_def
        del: studio_step.simps(20))
  ultimately show ?thesis by (simp add: Let_def)
qed

section \<open>The two representations\<close>

text \<open>Controls that change the draft from the form.\<close>

definition patches :: "studio_action \<Rightarrow> bool" where
  "patches a = (case a of Select_event _ \<Rightarrow> False | Toggle_yaml _ \<Rightarrow> False | Raw_yaml _ \<Rightarrow> False
                | Was_saved _ \<Rightarrow> False | _ \<Rightarrow> True)"

text \<open>In YAML mode the text is the document, and without an error the draft was read from it.\<close>

definition in_sync :: "(string \<Rightarrow> string option + jsval) \<Rightarrow> (jsval \<Rightarrow> string) \<Rightarrow> studio \<Rightarrow> bool" where
  "in_sync load dump s =
     (st_yaml_mode s \<and> st_yaml_error s = None \<longrightarrow>
        st_raw_yaml s = draft_to_yaml dump (st_draft s)
        \<or> parse_scenario_document load (st_raw_yaml s) = Inr (st_draft s))"

lemma patch_yaml_mode [simp]:
  "st_yaml_mode (patch dump f s) = st_yaml_mode s"
  "st_yaml_mode s \<Longrightarrow> st_raw_yaml (patch dump f s) = st_raw_yaml s"
  by (simp_all add: patch_def Let_def)

lemma patches_keep_yaml:
  assumes "patches a"
  shows "st_yaml_mode (studio_step load dump catalog effects a s) = st_yaml_mode s"
    and "st_yaml_error (studio_step load dump catalog effects a s) = st_yaml_error s"
    and "st_yaml_mode s \<Longrightarrow> st_raw_yaml (studio_step load dump catalog effects a s) = st_raw_yaml s"
  using assms by (cases a; auto simp: patches_def patch_def set_events_def set_recovery_def
      append_injection_def Let_def)+

lemma step_in_sync:
  assumes "in_sync load dump s" "st_yaml_mode s \<longrightarrow> \<not> patches a"
  shows "in_sync load dump (studio_step load dump catalog effects a s)"
proof (cases "patches a")
  case True
  then show ?thesis using assms(2) by (simp add: in_sync_def patches_keep_yaml)
next
  case False
  then show ?thesis
    using assms(1) by (cases a) (auto simp: patches_def in_sync_def toggle_yaml_mode_def
        raw_yaml_change_def Let_def split: sum.splits)
qed

text \<open>No control of the form is used while the YAML text is edited.\<close>

fun one_editor ::
  "(string \<Rightarrow> string option + jsval) \<Rightarrow> (jsval \<Rightarrow> string) \<Rightarrow> catalog_entry list \<Rightarrow> effect_descriptor list
     \<Rightarrow> studio_action list \<Rightarrow> studio \<Rightarrow> bool" where
  "one_editor load dump catalog effects [] s = True"
| "one_editor load dump catalog effects (a # as) s =
     ((st_yaml_mode s \<longrightarrow> \<not> patches a)
      \<and> one_editor load dump catalog effects as (studio_step load dump catalog effects a s))"

lemma run_in_sync:
  assumes "in_sync load dump s" "one_editor load dump catalog effects actions s"
  shows "in_sync load dump (studio_run load dump catalog effects actions s)"
  using assms unfolding studio_run_def
  by (induction actions arbitrary: s) (simp_all add: step_in_sync)



text \<open>
  C37. The form stays active in YAML mode, but its edits never reach the document: a change made
  there shows in the form, is not in what is validated, saved or run, and disappears when YAML
  mode is switched off.
\<close>

theorem yaml_form_edits_lost:
  assumes "st_yaml_mode s" "patches a" "parse_scenario_document load (st_raw_yaml s) = Inr parsed"
  shows "persist dump overwrite (studio_step load dump catalog effects a s) = persist dump overwrite s
    \<and> st_draft (toggle_yaml_mode load dump False (studio_step load dump catalog effects a s)) = parsed"
  using assms by (simp_all add: persist_def studio_document_def patches_keep_yaml toggle_yaml_mode_def)

theorem yaml_form_edits_lost_witness:
  "let load = (\<lambda>_. Inr (Obj (draft_to_document draft_example)));
       s = studio_step load (\<lambda>_. ''doc'') [] [] (Toggle_yaml True) (studio_start (\<lambda>_. ''doc'') (Some draft_example));
       t = studio_step load (\<lambda>_. ''doc'') [] [] (Set_name ''renamed'') s
   in sd_name (st_draft t) = ''renamed'' \<and> persist (\<lambda>_. ''doc'') True t = persist (\<lambda>_. ''doc'') True s
      \<and> st_draft (toggle_yaml_mode load (\<lambda>_. ''doc'') False t) = draft_example"
proof -
  let ?load = "\<lambda>_. Inr (Obj (draft_to_document draft_example))"
  let ?s = "studio_step ?load (\<lambda>_. ''doc'') [] [] (Toggle_yaml True) (studio_start (\<lambda>_. ''doc'') (Some draft_example))"
  have "saved_draft draft_example = draft_example" by (rule saved_draft_tidy [OF tidy_draft_example])
  then have parse: "parse_scenario_document ?load (st_raw_yaml ?s) = Inr draft_example"
    by (simp add: parse_scenario_document_def document_inverse)
  have "st_yaml_mode ?s" by (simp add: toggle_yaml_mode_def)
  from yaml_form_edits_lost [OF this _ parse, of "Set_name ''renamed''" "\<lambda>_. ''doc''" True "[]" "[]"]
  show ?thesis by (simp add: Let_def patches_def)
qed

end
