(* ===== verification/FaultLibrary.thy ===== *)
theory FaultLibrary
  imports ScenarioStudio
begin

text \<open>
  apps/web/src/components/scenario/fault-library.tsx: the effects that can be injected, filtered by
  a search text and grouped by category. Its only output is \<open>onPick\<close>, which is the studio's
  \<open>append_injection\<close>.
\<close>

definition CATEGORY_ORDER :: "string list" where
  "CATEGORY_ORDER =
     [''Navigation'', ''Sensors'', ''Communications'', ''Compute'', ''Process'', ''Network'',
      ''Power'', ''Security boundary'', ''Service'']"

definition entry_matches :: "string \<Rightarrow> catalog_entry \<Rightarrow> bool" where
  "entry_matches needle entry =
     (needle = [] \<or> has_text (to_lower (ce_name entry)) needle
      \<or> has_text (to_lower (ce_subsystem entry)) needle
      \<or> list_ex (\<lambda>e. has_text (effect_str e) needle) (ce_effects entry))"

definition category_cmp :: "string \<times> 'a \<Rightarrow> string \<times> 'a \<Rightarrow> int" where
  "category_cmp x y = index_of CATEGORY_ORDER (fst x) - index_of CATEGORY_ORDER (fst y)"

definition grouped_catalog :: "string \<Rightarrow> catalog_entry list \<Rightarrow> (string \<times> catalog_entry list) list" where
  "grouped_catalog search catalog =
     (let needle = to_lower (trim search);
          matches = filter (entry_matches needle) catalog
      in js_sort category_cmp (group_by ce_category matches))"

record library_entry =
  le_warning :: bool
  le_name :: string
  le_subsystem :: string
  le_no_effect :: bool
  le_buttons :: "(effect \<times> string) list"

definition library_entry_of :: "catalog_entry \<Rightarrow> library_entry" where
  "library_entry_of entry =
     \<lparr>le_warning = ce_critical entry, le_name = ce_name entry, le_subsystem = ce_subsystem entry,
      le_no_effect = (ce_effects entry = []),
      le_buttons = map (\<lambda>e. (e, ''Append '' @ [CHR 0x27] @ effect_str e @ [CHR 0x27] @ '' on '' @ ce_name entry))
        (ce_effects entry)\<rparr>"

record fault_library =
  fl_empty :: bool
  fl_sections :: "(string \<times> library_entry list) list"

definition fault_library_of :: "string \<Rightarrow> catalog_entry list \<Rightarrow> fault_library" where
  "fault_library_of search catalog =
     (let grouped = grouped_catalog search catalog
      in \<lparr>fl_empty = (grouped = []),
          fl_sections = map (\<lambda>(category, entries). (category, map library_entry_of entries)) grouped\<rparr>)"

section \<open>Properties\<close>

lemma category_cmp_by_key: "category_cmp = by_key (\<lambda>x. index_of CATEGORY_ORDER (fst x))"
  by (rule ext)+ (simp add: category_cmp_def by_key_def)

lemma grouped_catalog_group:
  assumes "(category, entries) \<in> set (grouped_catalog search catalog)"
  shows "entries = filter (\<lambda>e. ce_category e = category)
           (filter (entry_matches (to_lower (trim search))) catalog)" "entries \<noteq> []"
  using assms by (auto simp: grouped_catalog_def Let_def in_group_by filter_empty_conv)

text \<open>
  The library shows exactly the entries that match the search text, each once: one section
  per category that has a match, in the order of the categories, with its entries in catalog
  order; a category that is not in the order stands before all others. A blank search shows the
  whole catalog.
\<close>

theorem fault_library_complete:
  "mset (concat (map snd (grouped_catalog search catalog)))
      = mset (filter (entry_matches (to_lower (trim search))) catalog)
   \<and> distinct (map fst (grouped_catalog search catalog))
   \<and> sorted (map (\<lambda>g. index_of CATEGORY_ORDER (fst g)) (grouped_catalog search catalog))
   \<and> list_all (\<lambda>(category, entries). entries \<noteq> [] \<and> entries =
        filter (\<lambda>e. ce_category e = category \<and> entry_matches (to_lower (trim search)) e) catalog)
      (grouped_catalog search catalog)"
proof -
  let ?m = "filter (entry_matches (to_lower (trim search))) catalog"
  let ?g = "grouped_catalog search catalog"
  have groups: "snd g = filter (\<lambda>e. ce_category e = fst g) ?m \<and> snd g \<noteq> []" if "g \<in> set ?g" for g
    using grouped_catalog_group [of "fst g" "snd g" search catalog] that by (metis prod.collapse)
  have "mset (map fst ?g) = mset (map fst (group_by ce_category ?m))"
    by (simp add: grouped_catalog_def Let_def)
  then have d: "distinct (map fst ?g)" "set (map fst ?g) = set (map fst (group_by ce_category ?m))"
    using distinct_group_by [of ce_category ?m] by (metis mset_eq_imp_distinct_iff, metis mset_eq_setD)
  have keys: "ce_category ` set ?m \<subseteq> set (map fst ?g)"
    unfolding d(2) by (simp add: keys_group_by)
  have "map snd ?g = map (\<lambda>k. filter (\<lambda>e. ce_category e = k) ?m) (map fst ?g)"
    using groups by (auto intro!: map_cong)
  then have "mset (concat (map snd ?g)) = mset ?m"
    using mset_groups [OF d(1) keys] by metis
  moreover have "sorted (map (\<lambda>g. index_of CATEGORY_ORDER (fst g)) ?g)"
    unfolding grouped_catalog_def Let_def category_cmp_by_key sorted_map
    using by_key.sorted_js_sort by simp
  moreover have "list_all (\<lambda>(category, entries). entries \<noteq> [] \<and> entries =
        filter (\<lambda>e. ce_category e = category \<and> entry_matches (to_lower (trim search)) e) catalog) ?g"
    unfolding list_all_iff using grouped_catalog_group
    by (force simp: conj_commute)
  ultimately show ?thesis using d(1) by blast
qed

text \<open>
  Every button of the library appends an injection the platform accepts: for a catalog
  whose effects are described, the appended event fits the catalog.
\<close>

theorem library_buttons_fit:
  assumes "catalog_ok catalog effects"
    and "(category, entries) \<in> set (fl_sections (fault_library_of search catalog))"
    and "entry \<in> set entries" "(effect, title) \<in> set (le_buttons entry)"
  shows "event_fits catalog effects (last (sd_events (st_draft
           (append_injection dump effects (le_subsystem entry) effect s))))"
proof -
  obtain e where e: "e \<in> set catalog" "entry = library_entry_of e"
    using assms(2,3) by (auto simp: fault_library_of_def Let_def dest!: grouped_catalog_group(1))
  then have eff: "effect \<in> set (ce_effects e)" "le_subsystem entry = ce_subsystem e"
    using assms(4) by (auto simp: library_entry_of_def)
  have entry: "find_entry catalog (ce_subsystem e) = Some e"
    using assms(1) e(1) by (simp add: catalog_ok_def find_entry_unique)
  then obtain d where "find_effect effects (Some effect) = Some d"
    using catalog_effect [OF assms(1)] eff(1) by blast
  then show ?thesis
    using entry eff
    by (auto intro!: event_fitsI simp: append_injection_def new_event_def Let_def)
qed

theorem library_buttons_fit_witness:
  "fl_sections (fault_library_of ''GNSS '' example_catalog)
     = [(''Navigation'', [\<lparr>le_warning = False, le_name = ''GNSS'', le_subsystem = ''navigation.gnss'',
          le_no_effect = False, le_buttons = [(Eff_degraded, ''Append '' @ [CHR 0x27] @ ''degraded'' @ [CHR 0x27] @ '' on GNSS'')]\<rparr>])]
   \<and> event_fits example_catalog [noise_effect, restart_effect] (last (sd_events (st_draft
       (append_injection (\<lambda>_. []) [noise_effect, restart_effect] ''navigation.gnss'' Eff_degraded
          (studio_start (\<lambda>_. []) None)))))"
proof -
  let ?entry = "\<lparr>le_warning = False, le_name = ''GNSS'', le_subsystem = ''navigation.gnss'',
    le_no_effect = False, le_buttons = [(Eff_degraded, ''Append '' @ [CHR 0x27] @ ''degraded'' @ [CHR 0x27] @ '' on GNSS'')]\<rparr>"
  have s: "fl_sections (fault_library_of ''GNSS '' example_catalog) = [(''Navigation'', [?entry])]"
    by code_simp
  have "catalog_ok example_catalog [noise_effect, restart_effect]" by code_simp
  from library_buttons_fit [OF this, of "''Navigation''" "[?entry]" "''GNSS ''" ?entry Eff_degraded] s
  show ?thesis by simp
qed

end
