(* ===== verification/TimelineEditor.thy ===== *)
theory TimelineEditor
  imports ScenarioStudio TimelineView
begin

text \<open>
  apps/web/src/components/scenario/timeline-editor.tsx: the events of a draft on the mission
  timeline. The times come from typed text, so every number may be infinite; the loop over the
  ticks is a partial function, since it does not end for an infinite timeout.
\<close>

definition PADDING :: rat where "PADDING = 14"
definition EDITOR_HEIGHT :: rat where "EDITOR_HEIGHT = 74"
definition AXIS_Y :: rat where "AXIS_Y = 50"

definition editor_plot :: "rat \<Rightarrow> rat" where
  "editor_plot width = max 60 (fl (width - 28))"

definition editor_extent :: "jsnum \<Rightarrow> jsnum" where
  "editor_extent timeout = num_max timeout (Fin 1)"

text \<open>\<open>padding + (Math.min(Math.max(seconds, 0), extent) / extent) * plot\<close>; the extent is at least 1.\<close>

fun num_ratio :: "jsnum \<Rightarrow> jsnum \<Rightarrow> jsnum" where
  "num_ratio x (Fin y) = num_div x y"
| "num_ratio (Fin x) PosInf = Fin 0"
| "num_ratio (Fin x) NegInf = Fin 0"
| "num_ratio x y = NaN"

definition editor_scale :: "rat \<Rightarrow> jsnum \<Rightarrow> jsnum \<Rightarrow> jsnum" where
  "editor_scale width extent seconds =
     num_add (Fin PADDING)
       (num_mul (num_ratio (num_min (num_max seconds (Fin 0)) extent) extent) (Fin (editor_plot width)))"

definition num_leq :: "jsnum \<Rightarrow> jsnum \<Rightarrow> bool" where
  "num_leq x y = (num_less x y \<or> x = y \<and> x \<noteq> NaN)"

definition editor_step :: "jsnum \<Rightarrow> jsnum" where
  "editor_step extent =
     (if num_leq extent (Fin 120) then Fin 15 else if num_leq extent (Fin 300) then Fin 30 else Fin 60)"

text \<open>\<open>for (let t = 0; t <= extent + 0.001; t += step) ticks.push(t)\<close>\<close>

partial_function (option) ticks_loop :: "jsnum \<Rightarrow> jsnum \<Rightarrow> jsnum \<Rightarrow> jsnum list option" where
  "ticks_loop limit step t =
     (if num_leq t limit
      then Option.bind (ticks_loop limit step (num_add t step)) (\<lambda>ts. Some (t # ts))
      else Some [])"

definition editor_ticks :: "jsnum \<Rightarrow> jsnum list option" where
  "editor_ticks extent =
     ticks_loop (num_add extent (Fin (fl (1 / 1000)))) (editor_step extent) (Fin 0)"

record editor_tick =
  et_x :: jsnum
  et_text :: string
  et_anchor :: text_anchor

definition editor_tick_of :: "rat \<Rightarrow> jsnum \<Rightarrow> jsnum \<Rightarrow> editor_tick" where
  "editor_tick_of width extent tick =
     \<lparr>et_x = editor_scale width extent tick,
      et_text = format_mission_time (Some tick),
      et_anchor = (if tick = Fin 0 then Anchor_start
        else if num_less extent (num_add tick (editor_step extent)) then Anchor_end else Anchor_middle)\<rparr>"

record editor_marker =
  em_id :: string
  em_x :: jsnum
  em_bar :: "jsnum option"
  em_row :: rat
  em_radius :: rat
  em_colour :: string
  em_tip :: string
  em_text :: string

definition editor_marker_of ::
  "rat \<Rightarrow> jsnum \<Rightarrow> string option \<Rightarrow> (string \<times> string) list \<Rightarrow> nat \<Rightarrow> event_draft \<Rightarrow> editor_marker option" where
  "editor_marker_of width extent selected_id names index event =
     map_option (\<lambda>time.
       let x = editor_scale width extent time;
           duration = (if ed_duration event \<noteq> [] then parse_duration (ed_duration event) else None);
           selected = (Some (ed_id event) = selected_id)
       in \<lparr>em_id = ed_id event, em_x = x,
           em_bar = map_option (\<lambda>d. num_max (Fin 2)
             (num_sub (editor_scale width extent (num_add time d)) x)) duration,
           em_row = (if index mod 2 = 0 then 0 else 16),
           em_radius = (if selected then 5 else fl (36 / 10)),
           em_colour = (if selected then ''#4fb3e8'' else ''#e0a52a''),
           em_tip = ed_id event @ '': '' @ effect_str (ed_effect event) @ '' on ''
             @ nullish (map_of names (ed_subsystem event)) (ed_subsystem event) @ '' at '' @ ed_at event,
           em_text = (if length (ed_id event) > 18 then take 17 (ed_id event) @ ''.'' else ed_id event)\<rparr>)
       (parse_duration (ed_at event))"

record timeline_editor =
  te_axis :: "rat \<times> rat"
  te_ticks :: "editor_tick list"
  te_markers :: "editor_marker list"

datatype drawing = Nothing_yet | Drawn timeline_editor

text \<open>\<open>None\<close>: the component does not return.\<close>

definition timeline_editor_of ::
  "rat \<Rightarrow> event_draft list \<Rightarrow> jsnum \<Rightarrow> string option \<Rightarrow> (string \<times> string) list \<Rightarrow> drawing option" where
  "timeline_editor_of width events timeout selected_id names =
     (let extent = editor_extent timeout
      in Option.bind (editor_ticks extent) (\<lambda>ticks.
           Some (if width > 0 then
             Drawn \<lparr>te_axis = (PADDING, PADDING + editor_plot width),
                    te_ticks = map (editor_tick_of width extent) ticks,
                    te_markers = List.map_filter
                      (\<lambda>(i, e). editor_marker_of width extent selected_id names i e) (enumerate 0 events)\<rparr>
           else Nothing_yet)))"

section \<open>Properties\<close>

lemma ticks_loop_ints:
  assumes "0 < step" "step \<le> 60" "0 \<le> t" "limit \<le> 2 ^ 52" "of_int t \<le> limit + 60"
  shows "ticks_loop (Fin limit) (Fin (of_int step)) (Fin (of_int t))
    = Some (map (\<lambda>k. Fin (of_int k)) (ticks_from limit step t))"
  using assms
proof (induction limit step t rule: ticks_from.induct)
  case (1 limit step t)
  show ?case
  proof (cases "of_int t \<le> limit")
    case True
    then have "(of_int t :: rat) \<le> of_int (2 ^ 52)" using 1(5) by simp
    then have t: "t \<le> 2 ^ 52" by (simp only: of_int_le_iff)
    have "num_add (Fin (of_int t)) (Fin (of_int step)) = Fin (of_int (t + step))"
      using 1(2-4) t to_num_int [of "t + step"] by (simp add: num_add.simps)
    moreover have "of_int (t + step) \<le> limit + 60" using True 1(3) by simp
    ultimately show ?thesis
      using 1 True by (subst ticks_loop.simps)
        (simp add: ticks_from.simps [of limit step t] num_leq_def order.order_iff_strict)
  next
    case False
    then show ?thesis
      by (subst ticks_loop.simps) (auto simp: ticks_from.simps [of limit step t] num_leq_def)
  qed
qed

lemma to_num_not_NaN: "to_num x \<noteq> NaN"
  by (simp add: to_num_def Let_def)

lemma num_add_not_NaN: "t \<noteq> NaN \<Longrightarrow> is_finite step \<Longrightarrow> num_add t step \<noteq> NaN"
  by (cases t; cases step) (auto simp: num_add.simps is_finite_def to_num_not_NaN)

lemma ticks_loop_forever:
  assumes "ticks_loop limit step t = Some ts"
  shows "\<not> (limit = PosInf \<and> is_finite step \<and> t \<noteq> NaN)"
proof (rule ticks_loop.raw_induct [OF _ assms])
  fix loop limit step t ts
  assume 1: "\<And>limit step t ts. loop limit step t = Some ts \<Longrightarrow> \<not> (limit = PosInf \<and> is_finite step \<and> t \<noteq> NaN)"
    "(if num_leq t limit then Option.bind (loop limit step (num_add t step)) (\<lambda>ts. Some (t # ts))
      else Some []) = Some ts"
  show "\<not> (limit = PosInf \<and> is_finite step \<and> t \<noteq> NaN)"
  proof
    assume inf: "limit = PosInf \<and> is_finite step \<and> t \<noteq> NaN"
    then have "num_leq t limit" by (cases t) (auto simp: num_leq_def)
    then obtain us where "loop limit step (num_add t step) = Some us"
      using 1(2) by (auto split: bind_splits)
    from 1(1) [OF this] inf show False by (simp add: num_add_not_NaN)
  qed
qed

lemma timeline_editor_hangs: "timeline_editor_of width events PosInf selected_id names = None"
proof -
  have "editor_ticks PosInf = None"
    using ticks_loop_forever [of PosInf "Fin 60" "Fin 0"]
    by (cases "editor_ticks PosInf") (auto simp: editor_ticks_def editor_step_def num_leq_def num_add.simps is_finite_def)
  then show ?thesis by (simp add: timeline_editor_of_def editor_extent_def num_max_def Let_def)
qed

text \<open>
  C34. The timeline of the editor is drawn for every timeout up to 2^51 seconds: its loop over the
  ticks ends, with the multiples of the step that are not after the end of the timeline. An
  infinite timeout (a number of digits that overflows a double) makes it run forever.
\<close>

theorem timeline_editor_returns:
  assumes "timeout = Fin x" "x \<le> 2 ^ 51"
  shows "timeline_editor_of width events timeout selected_id names \<noteq> None
    \<and> editor_ticks (editor_extent timeout)
        = Some (map (\<lambda>k. Fin (of_int k)) (ticks_from (fl (max x 1 + fl (1 / 1000)))
            (if x \<le> 120 then 15 else if x \<le> 300 then 30 else 60) 0))
    \<and> timeline_editor_of width events PosInf selected_id names = None"
proof -
  let ?step = "if x \<le> 120 then 15 else if x \<le> 300 then 30 else 60 :: int"
  let ?limit = "fl (max x 1 + fl (1 / 1000))"
  have small: "fl (1 / 1000) \<le> 1" "0 \<le> fl (1 / 1000)"
    using fl_mono [of "1 / 1000" 1] by (simp_all add: fl_nonneg)
  have "max x 1 + fl (1 / 1000) \<le> of_int (2 ^ 52)" using assms(2) small by (simp add: max_def)
  then have le: "?limit \<le> 2 ^ 52" using fl_mono fl_of_int [of "2 ^ 52"] by fastforce
  have "0 \<le> ?limit" using small by (intro fl_nonneg) (simp add: max_def)
  have extent: "editor_extent timeout = Fin (max x 1)" by (simp add: editor_extent_def assms(1))
  have "\<bar>max x 1 + fl (1 / 1000)\<bar> \<le> 2 ^ 1000"
    using \<open>max x 1 + fl (1 / 1000) \<le> of_int (2 ^ 52)\<close> small
    by (simp add: max_def abs_if)
  then have "num_add (Fin (max x 1)) (Fin (fl (1 / 1000))) = Fin ?limit"
    by (simp add: num_add.simps to_num_small)
  moreover have "editor_step (Fin (max x 1)) = Fin (of_int ?step)"
    by (auto simp: editor_step_def num_leq_def max_def)
  moreover have "ticks_loop (Fin ?limit) (Fin (of_int ?step)) (Fin (of_int 0))
      = Some (map (\<lambda>k. Fin (of_int k)) (ticks_from ?limit ?step 0))"
    using le \<open>0 \<le> ?limit\<close> by (intro ticks_loop_ints) auto
  ultimately have "editor_ticks (editor_extent timeout)
      = Some (map (\<lambda>k. Fin (of_int k)) (ticks_from ?limit ?step 0))"
    unfolding editor_ticks_def extent by simp
  then show ?thesis by (simp add: timeline_editor_hangs) (simp add: timeline_editor_of_def Let_def del: map_map)
qed

theorem timeline_editor_returns_witness:
  "editor_ticks (editor_extent (Fin 40)) = Some [Fin 0, Fin 15, Fin 30]"
proof -
  have "ticks_from (fl (40 + fl (1 / 1000))) 15 0 = [0, 15, 30]" by code_simp
  then show ?thesis using timeline_editor_returns [of "Fin 40" 40 0 "[]" None "[]"] by simp
qed

end
