(* ===== verification/StudioComposer.thy ===== *)
theory StudioComposer
  imports TimelineEditor
begin

text \<open>
  The middle and right columns of components/scenario/studio.tsx below the form fields: the timeline
  of the draft, the event forms, the assertions and the document, composed from the editors.
\<close>

record document_panel =
  dc_title :: string
  dc_editable :: bool
  dc_text :: string
  dc_copied :: string

text \<open>\<open>dc_copied\<close> is what the copy button writes to the clipboard.\<close>

definition document_panel_of :: "(jsval \<Rightarrow> string) \<Rightarrow> studio \<Rightarrow> document_panel" where
  "document_panel_of dump s =
     \<lparr>dc_title = (if st_yaml_mode s then ''YAML document (editable)'' else ''YAML document''),
      dc_editable = st_yaml_mode s,
      dc_text = (if st_yaml_mode s then st_raw_yaml s else studio_document dump s),
      dc_copied = studio_document dump s\<rparr>"

record studio_composer =
  sk_timeline_caption :: string
  sk_timeline :: drawing
  sk_profile_notice :: "string option"
  sk_events_caption :: string
  sk_events :: "string + event_form list"
  sk_assertions :: assertion_form

text \<open>
  \<open>width\<close> is the measured width of the timeline and \<open>helperOpen\<close> the state of the assertion editor.
  \<open>None\<close>: the timeline, and with it the whole studio, does not return.
\<close>

definition studio_composer_of ::
  "rat \<Rightarrow> bool \<Rightarrow> topology option \<Rightarrow> studio_inputs \<Rightarrow> studio \<Rightarrow> studio_composer option" where
  "studio_composer_of width helperOpen tp i s =
     (let d = st_draft s; events = sd_events d
      in map_option (\<lambda>drawn.
           \<lparr>sk_timeline_caption = ''Mission timeout '' @ sd_timeout d @ ''. Click a marker to select an event.'',
            sk_timeline = drawn,
            sk_profile_notice = (if pv_profile (sd_preserved d) \<noteq> None
              then Some (''This scenario carries a consequence profile. It is preserved as written and ''
                @ ''expanded into injections at load time.'')
              else None),
            sk_events_caption = ''Pick an effect in the fault library to append one'',
            sk_events = (if events = []
              then Inl ''No event yet. A scenario needs at least one event or a consequence profile.''
              else Inr (map (\<lambda>(index, e). event_form_of (sn_catalog i) (sn_effects i) index (length events)
                     (Some (ed_id e) = st_selected s) e) (enumerate 0 events))),
            sk_assertions = assertion_form_of helperOpen (sd_assertions d)\<rparr>)
         (timeline_editor_of width events (timeout_seconds d) (st_selected s) (component_name_map tp)))"

section \<open>The editors agree\<close>

lemma map_filter_enumerate:
  assumes "\<And>k x. map_option g (f (k, x)) = (if p x then Some (h x) else None)"
  shows "map g (List.map_filter f (enumerate n xs)) = map h (filter p xs)"
proof (induction xs arbitrary: n)
  case (Cons x xs)
  then show ?case using assms [of n x] by (auto simp: List.map_filter_simps split: option.splits if_splits)
qed (simp add: List.map_filter_simps)

lemma marker_selected: "fl (18 / 5) \<noteq> 5"
  using fl_mono [of "18 / 5" 4] fl_of_int [of 4] by simp

text \<open>
  The forms and the timeline show the same events: one form per event in the order of the draft,
  one marker per event whose time can be read, and both mark exactly the selected event.
\<close>

lemma composer_consistent:
  assumes "studio_composer_of width helperOpen tp i s = Some c"
  shows "(case sk_events c of
       Inl _ \<Rightarrow> sd_events (st_draft s) = []
     | Inr forms \<Rightarrow> map fm_selected forms = map (\<lambda>e. Some (ed_id e) = st_selected s) (sd_events (st_draft s)))
    \<and> (case sk_timeline c of
         Nothing_yet \<Rightarrow> width \<le> 0
       | Drawn t \<Rightarrow>
           map (\<lambda>m. (em_id m, em_radius m = 5)) (te_markers t) =
             map (\<lambda>e. (ed_id e, Some (ed_id e) = st_selected s))
               (filter (\<lambda>e. parse_duration (ed_at e) \<noteq> None) (sd_events (st_draft s))))"
proof -
  have markers: "map (\<lambda>m. (em_id m, em_radius m = 5))
      (List.map_filter (\<lambda>(k, e). editor_marker_of width extent sel names k e) (enumerate 0 events))
    = map (\<lambda>e. (ed_id e, Some (ed_id e) = sel)) (filter (\<lambda>e. parse_duration (ed_at e) \<noteq> None) events)"
    for extent sel names events
    by (rule map_filter_enumerate) (auto simp: editor_marker_of_def Let_def marker_selected)
  have forms: "map fm_selected (map (\<lambda>(k, e). event_form_of c d k n (Some (ed_id e) = sel) e) (enumerate m events))
    = map (\<lambda>e. Some (ed_id e) = sel) events" for c d n sel m and events :: "event_draft list"
    by (induction events arbitrary: m) (simp_all add: event_form_of_def Let_def)
  show ?thesis
    using assms forms
    by (auto simp: studio_composer_of_def timeline_editor_of_def Let_def markers not_less split: bind_splits)
qed

text \<open>The copy button copies the document that is shown, and saving stores the same one.\<close>

lemma copied_is_shown:
  "dc_copied (document_panel_of dump s) = dc_text (document_panel_of dump s)"
  "sv_document (persist dump overwrite s) = dc_text (document_panel_of dump s)"
  by (simp_all add: document_panel_of_def persist_def studio_document_def)

end
