(* ===== verification/RunsPage.thy ===== *)
theory RunsPage
  imports MissionPanels Feedback JSText
begin

text \<open>
  apps/web/src/app/runs/runs-view.tsx and components/runs/events-tab.tsx: the list of runs with its
  filters and pages, and the list of events of a run with its kind chips and search. The server
  cuts the pages; \<open>relative_time\<close> reads dates through the parameters of Format.
\<close>

section \<open>The run list\<close>

definition RUN_STATES :: "run_state list" where
  "RUN_STATES =
     [RS_CREATED, RS_VALIDATING, RS_QUEUED, RS_PREPARING, RS_RUNNING, RS_RECOVERING, RS_COLLECTING,
      RS_ANALYZING, RS_COMPLETED, RS_FAILED, RS_CANCELLED]"

definition RESULTS :: "string list" where
  "RESULTS = [''passed'', ''failed'', ''inconclusive'']"

definition ANY :: string where "ANY = ''__any__''"
definition PAGE_SIZE :: int where "PAGE_SIZE = 25"

record runs_state =
  rl_state :: string
  rl_scenario :: string
  rl_adapter :: string
  rl_result :: string
  rl_offset :: int

text \<open>\<open>params\<close> looks up the search parameters of the address.\<close>

definition runs_start :: "(string \<Rightarrow> string option) \<Rightarrow> runs_state" where
  "runs_start params =
     \<lparr>rl_state = nullish (params ''state'') ANY, rl_scenario = nullish (params ''scenario'') ANY,
      rl_adapter = nullish (params ''adapter'') ANY, rl_result = nullish (params ''result'') ANY,
      rl_offset = 0\<rparr>"

definition unless_any :: "string \<Rightarrow> string option" where
  "unless_any v = (if v = ANY then None else Some v)"

definition runs_filters :: "runs_state \<Rightarrow> run_filters" where
  "runs_filters s =
     \<lparr>rf_state = unless_any (rl_state s), rf_scenario = unless_any (rl_scenario s),
      rf_adapter = unless_any (rl_adapter s), rf_result = unless_any (rl_result s),
      rf_limit = Some PAGE_SIZE, rf_offset = Some (rl_offset s)\<rparr>"

definition filtered :: "runs_state \<Rightarrow> bool" where
  "filtered s = (rl_state s \<noteq> ANY \<or> rl_scenario s \<noteq> ANY \<or> rl_adapter s \<noteq> ANY \<or> rl_result s \<noteq> ANY)"

datatype runs_action =
    Filter_state string | Filter_scenario string | Filter_adapter string | Filter_result string
  | Reset_filters | Previous | Next_page

text \<open>\<open>total\<close> is the number of runs the current query reports; a disabled button does nothing.\<close>

fun runs_step :: "int \<Rightarrow> runs_action \<Rightarrow> runs_state \<Rightarrow> runs_state" where
  "runs_step n (Filter_state v) s = s\<lparr>rl_state := v, rl_offset := 0\<rparr>"
| "runs_step n (Filter_scenario v) s = s\<lparr>rl_scenario := v, rl_offset := 0\<rparr>"
| "runs_step n (Filter_adapter v) s = s\<lparr>rl_adapter := v, rl_offset := 0\<rparr>"
| "runs_step n (Filter_result v) s = s\<lparr>rl_result := v, rl_offset := 0\<rparr>"
| "runs_step n Reset_filters s =
     s\<lparr>rl_state := ANY, rl_scenario := ANY, rl_adapter := ANY, rl_result := ANY, rl_offset := 0\<rparr>"
| "runs_step n Previous s =
     (if n > PAGE_SIZE \<and> rl_offset s \<noteq> 0 then s\<lparr>rl_offset := max 0 (rl_offset s - PAGE_SIZE)\<rparr> else s)"
| "runs_step n Next_page s =
     (if n > PAGE_SIZE \<and> rl_offset s + PAGE_SIZE < n then s\<lparr>rl_offset := rl_offset s + PAGE_SIZE\<rparr> else s)"

record run_row =
  rr_href :: string
  rr_short :: string
  rr_scenario :: "string \<times> string"
  rr_version :: string
  rr_adapter :: string
  rr_state :: badge
  rr_result :: badge
  rr_score :: string
  rr_duration :: string
  rr_created :: string
  rr_label :: string
  rr_actions :: "(string \<times> string) list"

definition run_row_of :: "(string \<Rightarrow> int) \<Rightarrow> int \<Rightarrow> run_summary \<Rightarrow> run_row" where
  "run_row_of date_ms now run =
     \<lparr>rr_href = ''/runs/'' @ rs_id run, rr_short = short_id (rs_id run),
      rr_scenario = (rs_scenario_name run, ''/scenarios/'' @ rs_scenario_name run),
      rr_version = ''v'' @ rs_scenario_version run,
      rr_adapter = rs_adapter run,
      rr_state = run_state_badge (rs_state run), rr_result = result_badge (rs_result run),
      rr_score = format_score (map_option Fin (rs_resilience_score run)),
      rr_duration = format_duration (num (rs_last_simulation_time run)),
      rr_created = relative_time date_ms now (Some (rs_created_at run)),
      rr_label = (if rs_label run \<noteq> [] then rs_label run else ''-''),
      rr_actions = (''Mission Control'', ''/mission-control?run='' @ rs_id run)
        # (if rs_state run = RS_COMPLETED
           then [(''Report'', ''/reports?run='' @ rs_id run),
                 (''Baseline'', ''/compare?baseline='' @ rs_id run),
                 (''Candidate'', ''/compare?candidate='' @ rs_id run)]
           else [])\<rparr>"

text \<open>The result of the query: absent data counts as an empty page.\<close>

record runs_query =
  qr_error :: "thrown option"
  qr_loading :: bool
  qr_runs :: "run_summary list"
  qr_total :: int

datatype runs_body =
    Runs_error error_view
  | Runs_loading
  | Runs_empty string string string
  | Runs_table "run_row list"

record runs_page =
  rg_total :: string
  rg_options :: "(string \<times> (string \<times> string) list) list"
  rg_clear :: bool
  rg_range :: string
  rg_body :: runs_body
  rg_pages :: "(bool \<times> bool) option"

definition with_any :: "(string \<times> string) list \<Rightarrow> (string \<times> string) list" where
  "with_any options = (ANY, ''Any'') # options"

definition runs_page_of ::
  "(string \<Rightarrow> int) \<Rightarrow> int \<Rightarrow> string list \<Rightarrow> adapter_info list \<Rightarrow> runs_query \<Rightarrow> runs_state \<Rightarrow> runs_page" where
  "runs_page_of date_ms now scenarios adapters q s =
     (let n = qr_total q
      in \<lparr>rg_total = dec n @ '' total'',
          rg_options =
            [(''State'', with_any (map (\<lambda>x. (run_state_str x, run_state_str x)) RUN_STATES)),
             (''Scenario'', with_any (map (\<lambda>x. (x, x)) scenarios)),
             (''Adapter'', with_any (map (\<lambda>a. (ai_name a, ai_display_name a)) adapters)),
             (''Result'', with_any (map (\<lambda>x. (x, x)) RESULTS))],
          rg_clear = filtered s,
          rg_range = (if n = 0 then ''0'' else dec (rl_offset s + 1) @ '' to ''
             @ dec (min (rl_offset s + PAGE_SIZE) n)) @ '' of '' @ dec n,
          rg_body = (case qr_error q of
              Some e \<Rightarrow> Runs_error (error_state ''Request failed'' e True)
            | None \<Rightarrow>
                if qr_loading q then Runs_loading
                else if qr_runs q = [] then
                  (if filtered s
                   then Runs_empty ''No run matches these filters'' ''Relax a filter to see more runs.'' ''Clear filters''
                   else Runs_empty ''No run recorded yet''
                     ''Queue a scenario from the library or run the demo from Mission Control.''
                     ''Open the scenario library'')
                else Runs_table (map (run_row_of date_ms now) (qr_runs q))),
          rg_pages = (if n > PAGE_SIZE then Some (rl_offset s = 0, rl_offset s + PAGE_SIZE \<ge> n) else None)\<rparr>)"

section \<open>The event list\<close>

definition KIND_ORDER :: "event_kind list" where
  "KIND_ORDER =
     [INJECTION_REQUEST, INJECTION_APPLIED, INJECTION_REJECTED, INJECTION_CLEARED, OBSERVED_EFFECT,
      SYSTEM_RESPONSE, RECOVERY, EXPECTATION_RESULT, ASSERTION_RESULT, MISSION, LIFECYCLE, LOG]"

record events_tab =
  et_selected :: "event_kind list"
  et_search :: string

definition events_start :: events_tab where
  "events_start = \<lparr>et_selected = [], et_search = []\<rparr>"

definition kind_counts :: "run_event list \<Rightarrow> (event_kind \<times> nat) list" where
  "kind_counts events =
     foldl (\<lambda>m e. AList.update (ev_kind e) (nullish (map_of m (ev_kind e)) 0 + 1) m) [] events"

definition event_matches :: "events_tab \<Rightarrow> run_event \<Rightarrow> bool" where
  "event_matches s e =
     (let needle = to_lower (trim (et_search s))
      in if et_selected s \<noteq> [] \<and> ev_kind e \<notin> set (et_selected s) then False
         else if needle = [] then True
         else has_text (to_lower (ev_message e)) needle
              \<or> has_text (to_lower (nullish (ev_subsystem e) [])) needle
              \<or> has_text (to_lower (ev_event_type e)) needle
              \<or> has_text (to_lower (nullish (ev_scenario_event_id e) [])) needle)"

definition filtered_events :: "run_event list \<Rightarrow> events_tab \<Rightarrow> run_event list" where
  "filtered_events events s = filter (event_matches s) events"

datatype events_action = Toggle_kind event_kind | Search_events string | Clear_events

fun events_step :: "events_action \<Rightarrow> events_tab \<Rightarrow> events_tab" where
  "events_step (Toggle_kind k) s =
     s\<lparr>et_selected := (if k \<in> set (et_selected s) then removeAll k (et_selected s)
                       else et_selected s @ [k])\<rparr>"
| "events_step (Search_events v) s = s\<lparr>et_search := v\<rparr>"
| "events_step Clear_events s = s\<lparr>et_selected := [], et_search := []\<rparr>"

record chip =
  ch_kind :: event_kind
  ch_active :: bool
  ch_title :: string
  ch_text :: string
  ch_count :: nat

definition chip_of :: "run_event list \<Rightarrow> events_tab \<Rightarrow> event_kind \<Rightarrow> chip" where
  "chip_of events s k =
     \<lparr>ch_kind = k, ch_active = (k \<in> set (et_selected s)),
      ch_title = st_label (EVENT_KIND k) @ '': '' @ st_description (EVENT_KIND k),
      ch_text = st_short (EVENT_KIND k),
      ch_count = nullish (map_of (kind_counts events) k) 0\<rparr>"

record events_page =
  ep_chips :: "chip list"
  ep_clear :: bool
  ep_badge :: string
  ep_legend :: "(string \<times> string) list"
  ep_feed :: feed_view

definition events_page_of :: "run_event list \<Rightarrow> events_tab \<Rightarrow> events_page" where
  "events_page_of events s =
     \<lparr>ep_chips = map (chip_of events s) (filter (\<lambda>k. map_of (kind_counts events) k \<noteq> None) KIND_ORDER),
      ep_clear = (et_selected s \<noteq> [] \<or> et_search s \<noteq> []),
      ep_badge = dec (int (length (filtered_events events s))) @ '' of '' @ dec (int (length events)),
      ep_legend = EVENT_LEGEND,
      ep_feed = event_feed (filtered_events events s) ''No event matches this filter''\<rparr>"

section \<open>Properties\<close>

definition shown_page :: "run_summary list \<Rightarrow> runs_state \<Rightarrow> run_summary list" where
  "shown_page runs s = take (nat PAGE_SIZE) (drop (nat (rl_offset s)) runs)"

lemma concat_pages:
  "concat (map (\<lambda>k. take m (drop (m * k) xs)) [0..<n]) = take (m * n) xs"
  by (induction n) (simp_all add: take_add [symmetric] add.commute)

lemma next_offset:
  assumes "rl_offset s = 0" "m \<le> (length xs - 1) div 25"
  shows "rl_offset ((runs_step (int (length xs)) Next_page ^^ m) s) = 25 * int m"
  using assms(2)
proof (induction m)
  case (Suc m)
  then have "25 * (m + 1) \<le> length xs - 1" by (simp add: less_eq_div_iff_mult_less_eq)
  then have "25 * m + 25 < length xs" by (cases xs) simp_all
  then have "25 * int m + 25 < int (length xs)" by simp
  moreover have "rl_offset ((runs_step (int (length xs)) Next_page ^^ m) s) = 25 * int m"
    by (rule Suc.IH) (use Suc.prems in linarith)
  ultimately show ?case by (simp add: PAGE_SIZE_def del: runs_step.simps) (simp add: PAGE_SIZE_def)
qed (simp add: assms(1))



text \<open>
  A page further back than the list reaches is a dead end: when the list shrinks to one page
  (the runs of a filtered state finish), the page shows no run and no page buttons, and neither
  button would do anything; only changing a filter leads back to the first page.
\<close>

theorem shrunk_list_dead_end:
  assumes "PAGE_SIZE \<le> rl_offset s" "int (length runs) \<le> PAGE_SIZE"
  shows "shown_page runs s = []
    \<and> rg_pages (runs_page_of date_ms now scenarios adapters
        \<lparr>qr_error = None, qr_loading = False, qr_runs = shown_page runs s, qr_total = int (length runs)\<rparr> s) = None
    \<and> runs_step (int (length runs)) Previous s = s \<and> runs_step (int (length runs)) Next_page s = s
    \<and> rl_offset (runs_step (int (length runs)) (Filter_state v) s) = 0"
  using assms by (auto simp: shown_page_def runs_page_of_def Let_def)

text \<open>A run list of 30, the second page, and then ten of the runs leave the list.\<close>

theorem shrunk_list_dead_end_witness:
  "\<forall>x. let s = runs_step 30 Next_page (runs_start (\<lambda>_. None))
       in shown_page (replicate 20 x) s = [] \<and> runs_step 20 Previous s = s"
proof
  fix x :: run_summary
  let ?s = "runs_step 30 Next_page (runs_start (\<lambda>_. None))"
  have "PAGE_SIZE \<le> rl_offset ?s" "int (length (replicate 20 x)) \<le> PAGE_SIZE"
    by (simp_all add: PAGE_SIZE_def runs_start_def)
  from shrunk_list_dead_end [OF this]
  show "let s = ?s in shown_page (replicate 20 x) s = [] \<and> runs_step 20 Previous s = s"
    by (simp add: Let_def)
qed

lemma map_of_kind_counts:
  "map_of (kind_counts events) k
     = (let n = length (filter (\<lambda>e. ev_kind e = k) events) in if n = 0 then None else Some n)"
proof (induction events rule: rev_induct)
  case Nil
  show ?case by (simp add: kind_counts_def)
next
  case (snoc e events)
  then show ?case by (auto simp: kind_counts_def Let_def nullish_def AList.update_conv')
qed

lemma KIND_ORDER_all: "k \<in> set KIND_ORDER" "distinct KIND_ORDER"
  by (cases k; simp add: KIND_ORDER_def) (simp add: KIND_ORDER_def)

lemma sum_kinds:
  assumes "distinct ks" "ev_kind ` set events \<subseteq> set ks"
  shows "sum_list (map (\<lambda>k. length (filter (\<lambda>e. ev_kind e = k) events)) ks) = length events"
proof -
  have "size (mset (concat (map (\<lambda>k. filter (\<lambda>e. ev_kind e = k) events) ks))) = size (mset events)"
    using mset_groups [OF assms] by simp
  then show ?thesis by (simp add: length_concat comp_def)
qed

text \<open>
  The chips account for every event: there is a chip exactly for each kind that occurs, with
  the number of its events, and the numbers add up to all events. With a blank search the list
  shows as many events as the selected chips count, or all when none is selected.
\<close>

theorem event_chips_exact:
  "list_all (\<lambda>c. ch_count c = length (filter (\<lambda>e. ev_kind e = ch_kind c) events) \<and> 0 < ch_count c)
     (ep_chips (events_page_of events s))
   \<and> sum_list (map ch_count (ep_chips (events_page_of events s))) = length events
   \<and> (trim (et_search s) = [] \<longrightarrow> length (filtered_events events s)
        = (if et_selected s = [] then length events
           else sum_list (map ch_count (filter ch_active (ep_chips (events_page_of events s))))))"
proof -
  let ?n = "\<lambda>k. length (filter (\<lambda>e. ev_kind e = k) events)"
  let ?ks = "filter (\<lambda>k. 0 < ?n k) KIND_ORDER"
  have chips: "ep_chips (events_page_of events s) = map (chip_of events s) ?ks"
    by (simp add: events_page_of_def map_of_kind_counts Let_def)
  have counts: "ch_count (chip_of events s k) = ?n k" "ch_kind (chip_of events s k) = k"
    "ch_active (chip_of events s k) \<longleftrightarrow> k \<in> set (et_selected s)" for k
    by (simp_all add: chip_of_def map_of_kind_counts Let_def nullish_def)
  have occurs: "ev_kind e \<in> set ?ks" if "e \<in> set events" for e
    using that KIND_ORDER_all(1) by (auto simp: filter_empty_conv)
  have "sum_list (map ?n ?ks) = length events"
    using KIND_ORDER_all(2) occurs by (intro sum_kinds) auto
  moreover have "sum_list (map ?n (filter (\<lambda>k. k \<in> set (et_selected s)) ?ks))
      = length (filter (\<lambda>e. ev_kind e \<in> set (et_selected s)) events)"
  proof -
    let ?sel = "filter (\<lambda>e. ev_kind e \<in> set (et_selected s)) events"
    have "sum_list (map (\<lambda>k. length (filter (\<lambda>e. ev_kind e = k) ?sel))
        (filter (\<lambda>k. k \<in> set (et_selected s)) ?ks)) = length ?sel"
      using KIND_ORDER_all(2) occurs by (intro sum_kinds) auto
    moreover have "map ?n (filter (\<lambda>k. k \<in> set (et_selected s)) ?ks)
        = map (\<lambda>k. length (filter (\<lambda>e. ev_kind e = k) ?sel)) (filter (\<lambda>k. k \<in> set (et_selected s)) ?ks)"
      by (intro map_cong refl) (auto intro!: arg_cong [where f = length] filter_cong)
    ultimately show ?thesis by (simp only:)
  qed
  moreover have "filtered_events events s = (if et_selected s = [] then events
      else filter (\<lambda>e. ev_kind e \<in> set (et_selected s)) events)" if "trim (et_search s) = []"
    using that by (auto simp: filtered_events_def event_matches_def to_lower_def intro!: filter_cong
        split: if_splits)
  ultimately show ?thesis
    by (simp add: chips list_all_iff counts filter_map comp_def)
qed

theorem event_chips_exact_witness:
  "let s = events_step (Toggle_kind LOG) events_start
   in length (filtered_events [gap_event, gap_event\<lparr>ev_kind := LOG\<rparr>] s)
      = sum_list (map ch_count (filter ch_active (ep_chips (events_page_of
          [gap_event, gap_event\<lparr>ev_kind := LOG\<rparr>] s))))
      \<and> et_selected s = [LOG]"
proof -
  have "trim (et_search (events_step (Toggle_kind LOG) events_start)) = []" by code_simp
  then show ?thesis
    using event_chips_exact [of "[gap_event, gap_event\<lparr>ev_kind := LOG\<rparr>]"
        "events_step (Toggle_kind LOG) events_start"]
    by (simp add: Let_def) (simp add: events_start_def)
qed

end
