(* ===== verification/RunDialog.thy ===== *)
theory RunDialog
  imports RunsPage ScenarioStudio
begin

text \<open>
  apps/web/src/components/runs/run-scenario-dialog.tsx, components/compare/run-picker.tsx and
  app/scenarios/scenarios-view.tsx, scenario-edit-view.tsx: queueing a run, choosing a run, the scenario library and the
  page that opens a stored scenario.
\<close>

section \<open>The run dialog\<close>

definition RUN_SPEEDS :: "string list" where
  "RUN_SPEEDS = [''1'', ''2'', ''5'', ''10'', ''25'', ''50'']"

record dialog_props =
  dp_scenario_name :: "string option"
  dp_document :: "string option"
  dp_adapters :: "adapter_info list"
  dp_default_adapter :: string
  dp_default_speed :: string
  dp_default_seed :: "jsnum option"
  dp_title :: string

record run_dialog =
  dl_open :: bool
  dl_adapter :: string
  dl_speed :: string
  dl_seed :: string
  dl_label :: string

text \<open>The state at the first render: \<open>useState\<close> reads the defaults only then.\<close>

definition dialog_start :: "dialog_props \<Rightarrow> run_dialog" where
  "dialog_start p =
     \<lparr>dl_open = False, dl_adapter = dp_default_adapter p, dl_speed = dp_default_speed p,
      dl_seed = (case dp_default_seed p of None \<Rightarrow> [] | Some n \<Rightarrow> num_str n), dl_label = []\<rparr>"

datatype dialog_action =
    Open_dialog bool | Pick_adapter string | Pick_speed string | Type_seed string | Type_label string
  | Run_created

fun dialog_step :: "dialog_action \<Rightarrow> run_dialog \<Rightarrow> run_dialog" where
  "dialog_step (Open_dialog b) s = s\<lparr>dl_open := b\<rparr>"
| "dialog_step (Pick_adapter v) s = s\<lparr>dl_adapter := v\<rparr>"
| "dialog_step (Pick_speed v) s = s\<lparr>dl_speed := v\<rparr>"
| "dialog_step (Type_seed v) s = s\<lparr>dl_seed := v\<rparr>"
| "dialog_step (Type_label v) s = s\<lparr>dl_label := v\<rparr>"
| "dialog_step Run_created s = s\<lparr>dl_open := False\<rparr>"

record create_request =
  cq_scenario_name :: "string option"
  cq_document :: "string option"
  cq_adapter :: string
  cq_speed :: jsnum
  cq_seed :: "jsnum option"
  cq_label :: string

definition if_truthy :: "string option \<Rightarrow> string option" where
  "if_truthy v = (if truthy v then v else None)"

definition submit_request :: "dialog_props \<Rightarrow> run_dialog \<Rightarrow> create_request" where
  "submit_request p s =
     (let seedValue = (if trim (dl_seed s) = [] then None else Some (parse_number (dl_seed s)))
      in \<lparr>cq_scenario_name = if_truthy (dp_scenario_name p),
          cq_document = if_truthy (dp_document p),
          cq_adapter = dl_adapter s,
          cq_speed = parse_number (dl_speed s),
          cq_seed = (case seedValue of Some n \<Rightarrow> if is_finite n then Some n else None | None \<Rightarrow> None),
          cq_label = trim (dl_label s)\<rparr>)"

record dialog_view =
  dv_title :: string
  dv_description :: string
  dv_adapters :: "(string \<times> string \<times> bool) list"
  dv_speeds :: "(string \<times> string) list"
  dv_offline_notice :: bool
  dv_error :: "string option option"
  dv_run_text :: string
  dv_run_disabled :: bool

text \<open>The open dialog; \<open>pending\<close> and \<open>error\<close> are the state of the mutation.\<close>

definition dialog_view_of :: "dialog_props \<Rightarrow> bool \<Rightarrow> thrown option \<Rightarrow> run_dialog \<Rightarrow> dialog_view option" where
  "dialog_view_of p pending error s =
     (if dl_open s then Some
       \<lparr>dv_title = dp_title p,
        dv_description = (if truthy (dp_scenario_name p)
          then ''Queue '' @ [CHR 0x27] @ nullish (dp_scenario_name p) [] @ [CHR 0x27]
            @ '' on a runner and open Mission Control.''
          else ''Queue the edited document on a runner and open Mission Control.''),
        dv_adapters = map (\<lambda>a. (ai_name a,
          ai_display_name a @ (if ai_online a then [] else '' (offline)''), \<not> ai_online a)) (dp_adapters p),
        dv_speeds = map (\<lambda>v. (v, v @ ''x'')) RUN_SPEEDS,
        dv_offline_notice =
          (\<not> list_ex (\<lambda>a. ai_name a = dl_adapter s) (filter ai_online (dp_adapters p))),
        dv_error = map_option error_message error,
        dv_run_text = (if pending then ''Queueing'' else ''Run''),
        dv_run_disabled = pending\<rparr>
      else None)"

text \<open>The dialog of the studio, with the properties of the current render.\<close>

definition studio_dialog :: "(jsval \<Rightarrow> string) \<Rightarrow> adapter_info list \<Rightarrow> studio \<Rightarrow> dialog_props" where
  "studio_dialog dump adapters s =
     \<lparr>dp_scenario_name = None, dp_document = Some (studio_document dump s), dp_adapters = adapters,
      dp_default_adapter = adapter_name_str (sd_adapter (st_draft s)), dp_default_speed = ''1'',
      dp_default_seed = Some (sd_seed (st_draft s)), dp_title = ''Run the edited scenario''\<rparr>"

section \<open>The run picker\<close>

record run_picker =
  pk_open :: bool
  pk_search :: string

definition picker_matches :: "string \<Rightarrow> run_summary \<Rightarrow> bool" where
  "picker_matches needle run =
     (has_text (to_lower (rs_scenario_name run)) needle \<or> has_text (to_lower (rs_id run)) needle
      \<or> has_text (to_lower (rs_label run)) needle \<or> has_text (to_lower (rs_adapter run)) needle)"

definition picker_runs :: "run_summary list \<Rightarrow> string \<Rightarrow> run_summary list" where
  "picker_runs runs search =
     (let needle = to_lower (trim search)
      in if needle = [] then runs else filter (picker_matches needle) runs)"

datatype picker_action = Open_picker bool | Search_runs string | Pick_run string

text \<open>The new state, and the id passed to \<open>onChange\<close>.\<close>

fun picker_step :: "picker_action \<Rightarrow> run_picker \<Rightarrow> run_picker \<times> string option" where
  "picker_step (Open_picker b) s = (s\<lparr>pk_open := b\<rparr>, None)"
| "picker_step (Search_runs v) s = (s\<lparr>pk_search := v\<rparr>, None)"
| "picker_step (Pick_run i) s = (s\<lparr>pk_open := False\<rparr>, Some i)"

record picker_row =
  pr_id :: string
  pr_checked :: bool
  pr_short :: string
  pr_scenario :: string
  pr_score :: string
  pr_result :: badge
  pr_created :: string

record picker_view =
  pv_trigger :: "(string \<times> string \<times> string) + string"
  pv_none :: bool
  pv_rows :: "picker_row list"

definition picker_view_of ::
  "(string \<Rightarrow> int) \<Rightarrow> int \<Rightarrow> run_summary list \<Rightarrow> string option \<Rightarrow> string \<Rightarrow> run_picker \<Rightarrow> picker_view" where
  "picker_view_of date_ms now runs picked emptyLabel s =
     (let shown = (if pk_open s then picker_runs runs (pk_search s) else [])
      in \<lparr>pv_trigger = (case find (\<lambda>r. Some (rs_id r) = picked) runs of
            Some r \<Rightarrow> Inl (short_id (rs_id r), rs_scenario_name r,
              format_score (map_option Fin (rs_resilience_score r)))
          | None \<Rightarrow> Inr emptyLabel),
          pv_none = (pk_open s \<and> shown = []),
          pv_rows = map (\<lambda>r. \<lparr>pr_id = rs_id r, pr_checked = (Some (rs_id r) = picked),
            pr_short = short_id (rs_id r), pr_scenario = rs_scenario_name r,
            pr_score = format_score (map_option Fin (rs_resilience_score r)),
            pr_result = result_badge (rs_result r),
            pr_created = relative_time date_ms now (Some (rs_created_at r))\<rparr>) shown\<rparr>)"

section \<open>The scenario library\<close>

record scenario_summary =
  ss_adapter :: string
  ss_assertion_count :: int
  ss_content_hash :: string
  ss_description :: string
  ss_event_count :: int
  ss_last_run :: "run_summary option"
  ss_name :: string
  ss_source :: string
  ss_tags :: "string list"
  ss_updated_at :: string
  ss_version :: string

record last_run_view =
  lw_href :: string
  lw_short :: string
  lw_state :: badge
  lw_result :: badge
  lw_score :: string

record scenario_row =
  sr_href :: string
  sr_name :: string
  sr_version :: string
  sr_description :: string
  sr_adapter :: string
  sr_tags :: "string list"
  sr_events :: string
  sr_assertions :: string
  sr_last_run :: "last_run_view option"
  sr_updated :: string
  sr_run :: dialog_props

definition scenario_row_of ::
  "(string \<Rightarrow> int) \<Rightarrow> int \<Rightarrow> adapter_info list \<Rightarrow> scenario_summary \<Rightarrow> scenario_row" where
  "scenario_row_of date_ms now adapters x =
     \<lparr>sr_href = ''/scenarios/'' @ ss_name x, sr_name = ss_name x, sr_version = ''v'' @ ss_version x,
      sr_description = ss_description x, sr_adapter = ss_adapter x, sr_tags = ss_tags x,
      sr_events = dec (ss_event_count x), sr_assertions = dec (ss_assertion_count x),
      sr_last_run = map_option (\<lambda>r. \<lparr>lw_href = ''/runs/'' @ rs_id r, lw_short = short_id (rs_id r),
        lw_state = run_state_badge (rs_state r), lw_result = result_badge (rs_result r),
        lw_score = format_score (map_option Fin (rs_resilience_score r))\<rparr>) (ss_last_run x),
      sr_updated = relative_time date_ms now (Some (ss_updated_at x)),
      sr_run = \<lparr>dp_scenario_name = Some (ss_name x), dp_document = None, dp_adapters = adapters,
        dp_default_adapter = ss_adapter x, dp_default_speed = ''1'', dp_default_seed = None,
        dp_title = ''Run '' @ ss_name x\<rparr>\<rparr>"

datatype library_view =
    Library_error error_view
  | Library_loading
  | Library_empty
  | Library_rows "scenario_row list"

definition library_view_of ::
  "(string \<Rightarrow> int) \<Rightarrow> int \<Rightarrow> adapter_info list \<Rightarrow> thrown option \<Rightarrow> bool \<Rightarrow> scenario_summary list option
     \<Rightarrow> string \<times> library_view" where
  "library_view_of date_ms now adapters error loading scenarios =
     (dec (int (length (nullish scenarios []))) @ '' scenarios'',
      case error of
        Some e \<Rightarrow> Library_error (error_state ''Request failed'' e True)
      | None \<Rightarrow>
          if loading then Library_loading
          else if nullish scenarios [] = [] then Library_empty
          else Library_rows (map (scenario_row_of date_ms now adapters) (nullish scenarios [])))"

text \<open>scenario-edit-view.tsx: the stored document in the studio.\<close>

datatype edit_page =
    Edit_error error_view
  | Edit_loading
  | Edit_unreadable
  | Edit_studio scenario_draft string "string option"

definition edit_page_of ::
  "(string \<Rightarrow> string option + jsval) \<Rightarrow> string \<Rightarrow> thrown option \<Rightarrow> bool
     \<Rightarrow> (string \<times> string \<times> string) option \<Rightarrow> edit_page" where
  "edit_page_of load name error loading data =
     (case error of
        Some e \<Rightarrow> Edit_error (error_state ''Scenario not found'' e True)
      | None \<Rightarrow>
          if loading then Edit_loading
          else case safe_parse_scenario_document load (map_option (\<lambda>(document, _, _). document) data) of
                 None \<Rightarrow> Edit_unreadable
               | Some draft \<Rightarrow> Edit_studio draft (nullish (map_option (\<lambda>(_, n, _). n) data) name)
                   (map_option (\<lambda>(_, _, source). source) data))"

section \<open>Properties\<close>

lemma seed_sent:
  assumes "0 \<le> n" "n \<le> 2 ^ 53"
  shows "cq_seed (submit_request p (s\<lparr>dl_seed := dec n\<rparr>)) = Some (Fin (of_int n))"
proof -
  have "list_all (\<lambda>c. \<not> is_ws c) (dec n)"
    using dec_digits [of n] assms(1) by (auto simp: list_all_iff not_ws_digit)
  then have "trim (dec n) = dec n" by (rule trim_id)
  moreover have "dec n \<noteq> []" using digits_dec [OF assms(1)] by (simp add: digits_def)
  ultimately show ?thesis
    using assms by (simp add: submit_request_def Let_def parse_number_dec is_finite_def)
qed

text \<open>
  The request says what the dialog shows: the adapter and the speed that are selected, and a
  seed exactly when the field holds a number; a whole number is sent as it is typed, a blank
  field leaves the seed to the scenario, and so does, silently, a text that is no number.
\<close>

theorem run_request_seed:
  assumes "0 \<le> n" "n \<le> 2 ^ 53"
  shows "cq_seed (submit_request p (s\<lparr>dl_seed := dec n\<rparr>)) = Some (Fin (of_int n))
    \<and> (trim t = [] \<longrightarrow> cq_seed (submit_request p (s\<lparr>dl_seed := t\<rparr>)) = None)
    \<and> (parse_number t = NaN \<longrightarrow> cq_seed (submit_request p (s\<lparr>dl_seed := t\<rparr>)) = None)
    \<and> cq_adapter (submit_request p s) = dl_adapter s"
  using seed_sent [OF assms] by (auto simp: submit_request_def Let_def is_finite_def)

theorem run_request_seed_witness:
  "cq_seed (submit_request (studio_dialog (\<lambda>_. []) [] (studio_start (\<lambda>_. []) None))
     (dialog_step (Type_seed ''7'') (dialog_start (studio_dialog (\<lambda>_. []) [] (studio_start (\<lambda>_. []) None)))))
   = Some (Fin 7)"
proof -
  have "dec 7 = ''7''" by code_simp
  then show ?thesis
    using run_request_seed [of 7 "studio_dialog (\<lambda>_. []) [] (studio_start (\<lambda>_. []) None)"
        "dialog_start (studio_dialog (\<lambda>_. []) [] (studio_start (\<lambda>_. []) None))"] by simp
qed

text \<open>
  The run dialog of the studio keeps the seed and the adapter of the draft the page was
  opened with: after they are changed in the form, the request carries the edited document
  together with the old seed and the old adapter, which override those of the document.
\<close>

theorem studio_run_stale_seed:
  fixes dump :: "jsval \<Rightarrow> string" and adapters :: "adapter_info list"
    and load :: "string \<Rightarrow> string option + jsval" and catalog :: "catalog_entry list"
    and effects :: "effect_descriptor list" and typed :: string and a :: adapter_name
  assumes "sd_seed (st_draft s0) = Fin (of_int old)" "0 \<le> old" "old \<le> 10 ^ 15"
  defines "dialog \<equiv> dialog_start (studio_dialog dump adapters s0)"
  defines "s \<equiv> studio_run load dump catalog effects [Set_seed typed, Set_adapter a] s0"
  shows "sd_seed (st_draft s) = parse_number typed \<and> sd_adapter (st_draft s) = a
    \<and> cq_document (submit_request (studio_dialog dump adapters s) dialog)
        = if_truthy (Some (studio_document dump s))
    \<and> cq_seed (submit_request (studio_dialog dump adapters s) dialog) = Some (Fin (of_int old))
    \<and> cq_adapter (submit_request (studio_dialog dump adapters s) dialog)
        = adapter_name_str (sd_adapter (st_draft s0))"
proof -
  have "num_str (Fin (of_int old)) = dec old" using assms(2,3) by (rule num_str_int)
  then have d: "dl_seed dialog = dec old" "dl_adapter dialog = adapter_name_str (sd_adapter (st_draft s0))"
    using assms(1) by (simp_all add: dialog_def dialog_start_def studio_dialog_def)
  have "dialog = dialog\<lparr>dl_seed := dec old\<rparr>" using d(1) by simp
  then have "cq_seed (submit_request p dialog) = Some (Fin (of_int old))" for p
    using seed_sent [of old p dialog] assms(2,3) by simp
  then show ?thesis
    using d(2) by (simp add: s_def studio_run_def submit_request_def studio_dialog_def Let_def)
qed

theorem studio_run_stale_seed_witness:
  "let s0 = studio_start (\<lambda>_. ''doc'') None;
       dialog = dialog_start (studio_dialog (\<lambda>_. ''doc'') [] s0);
       s = studio_run (\<lambda>_. Inl None) (\<lambda>_. ''doc'') [] [] [Set_seed ''7'', Set_adapter Px4_gazebo] s0
   in sd_seed (st_draft s) = Fin 7 \<and> sd_adapter (st_draft s) = Px4_gazebo
      \<and> cq_seed (submit_request (studio_dialog (\<lambda>_. ''doc'') [] s) dialog) = Some (Fin 42)
      \<and> cq_adapter (submit_request (studio_dialog (\<lambda>_. ''doc'') [] s) dialog) = ''mock''"
proof -
  have "sd_seed (st_draft (studio_start (\<lambda>_. ''doc'') None)) = Fin (of_int 42)"
    "sd_adapter (st_draft (studio_start (\<lambda>_. ''doc'') None)) = Mock" "parse_number ''7'' = Fin 7"
    "adapter_name_str Mock = ''mock''" by code_simp+
  then show ?thesis
    using studio_run_stale_seed [where ?s0.0 = "studio_start (\<lambda>_. ''doc'') None" and old = 42
        and dump = "\<lambda>_. ''doc''" and adapters = "[]" and load = "\<lambda>_. Inl None" and catalog = "[]"
        and effects = "[]" and typed = "''7''" and a = Px4_gazebo] by (simp add: Let_def)
qed

end
