(* ===== verification/RunAnalysis.thy ===== *)
theory RunAnalysis
  imports MissionPanels Feedback JSText
begin

text \<open>
  The analysis of a finished run: components/runs/metrics-tab.tsx, score-breakdown.tsx,
  assertions-table.tsx, telemetry-chart.tsx, artifacts-tab.tsx and provenance-tab.tsx. Every
  component is a function of its props to what it shows. Drawing the curves is the chart
  library's work; it gets the points computed here.
\<close>

section \<open>Metrics: metrics-tab.tsx\<close>

record metric_row =
  mw_label :: string
  mw_value :: string
  mw_definition :: string
  mw_tone :: "tone option"

abbreviation plain_row :: "string \<Rightarrow> string \<Rightarrow> string \<Rightarrow> metric_row" where
  "plain_row l v d \<equiv> \<lparr>mw_label = l, mw_value = v, mw_definition = d, mw_tone = None\<rparr>"

abbreviation toned_row :: "string \<Rightarrow> string \<Rightarrow> string \<Rightarrow> tone \<Rightarrow> metric_row" where
  "toned_row l v d t \<equiv> \<lparr>mw_label = l, mw_value = v, mw_definition = d, mw_tone = Some t\<rparr>"

definition bool_text :: "bool \<Rightarrow> string" where
  "bool_text value = (if value then ''yes'' else ''no'')"

definition optional_seconds :: "rat option \<Rightarrow> string" where
  "optional_seconds value = (case value of None \<Rightarrow> ''n/a'' | Some x \<Rightarrow> format_duration (num x))"

definition mission_rows :: "mission_metrics \<Rightarrow> metric_row list" where
  "mission_rows m =
     [plain_row ''Completion'' (format_percent (num (mm_completion m)) 1)
        ''Highest mission progress ratio observed in telemetry.'',
      plain_row ''Continuity'' (format_percent (num (mm_continuity m)) 1)
        ''1 minus the fraction of the run spent holding or diverted, from the observed flight mode and mission phase.'',
      toned_row ''Completed'' (bool_text (mm_completed m))
        ''True when the last telemetry sample reports the COMPLETE mission phase.''
        (if mm_completed m then Ok else Warn),
      plain_row ''Duration'' (format_duration (num (mm_duration m)))
        ''Simulation seconds between the first and the last telemetry sample.'',
      plain_row ''Time in hold'' (format_duration (num (mm_time_in_hold m)))
        ''Time spent in HOLD or RTL, or in the HOLDING mission phase.'',
      plain_row ''Time in mission modes'' (format_duration (num (mm_time_in_mission_modes m)))
        ''Time spent in MISSION, TAKEOFF or LAND.'']"

definition availability_rows :: "availability_metrics \<Rightarrow> metric_row list" where
  "availability_rows a =
     [plain_row ''Control'' (format_percent (num (am_control a)) 1)
        ''Fraction of the run during which the flight core was in a healthy state.'',
      plain_row ''Navigation integrity'' (format_percent (num (am_navigation_integrity a)) 1)
        ''Weighted navigation estimator availability: healthy counts 1.0, degraded 0.5, down 0.0.'',
      plain_row ''Navigation'' (format_percent (num (am_navigation a)) 1)
        ''Fraction of the run with a healthy navigation estimator.'',
      plain_row ''Communications'' (format_percent (num (am_communications a)) 1)
        ''Fraction of the run with every communications component healthy.'',
      plain_row ''Compute'' (format_percent (num (am_compute a)) 1)
        ''Fraction of the run with every mission compute component healthy.'',
      plain_row ''Power'' (format_percent (num (am_power a)) 1)
        ''Fraction of the run with every power component healthy.'']"

definition safety_rows :: "safety_metrics \<Rightarrow> metric_row list" where
  "safety_rows s =
     [toned_row ''Preserved'' (bool_text (sm_preserved s))
        ''No loss of control and the flight core never left a healthy state during the run.''
        (if sm_preserved s then Ok else Bad),
      toned_row ''Loss of control'' (bool_text (sm_loss_of_control s))
        ''A sample reported the flight core without control authority, or in the FAILED state.''
        (if sm_loss_of_control s then Bad else Ok),
      toned_row ''Flight control available'' (bool_text (sm_flight_control_available s))
        ''The flight core spent no time in a non-healthy state.''
        (if sm_flight_control_available s then Ok else Bad),
      plain_row ''Control availability'' (format_percent (num (sm_control_availability s)) 1)
        ''Same as the control availability metric, repeated for the safety case.'',
      toned_row ''Safe state reached'' (bool_text (sm_safe_state_reached s))
        ''A system response event flagged as a safe state (failsafe hold, return to launch) was observed.''
        (if sm_safe_state_reached s then Warn else Ok)]"

definition recovery_rows :: "recovery_metrics \<Rightarrow> metric_row list" where
  "recovery_rows r =
     [plain_row ''Mean time to recovery'' (optional_seconds (rm_mean_time_to_recovery r))
        ''Average time from the end of the disturbance to the return to a healthy state, over the faults that recovered.'',
      plain_row ''Max time to recovery'' (optional_seconds (rm_max_time_to_recovery r))
        ''Slowest recovery observed in the run.'',
      plain_row ''Faults requiring recovery'' (int_text (rm_faults_requiring_recovery r))
        ''Observed faults whose disturbance ended during the run, so a recovery was expected.'',
      plain_row ''Faults recovered'' (int_text (rm_faults_recovered r))
        ''Faults that returned to a healthy state.'',
      plain_row ''Success rate''
        (case rm_success_rate r of None \<Rightarrow> ''n/a'' | Some x \<Rightarrow> format_percent (num x) 0)
        ''Recovered divided by required; not defined when no recovery was required.'',
      plain_row ''Time to safe state'' (optional_seconds (rm_time_to_safe_state r))
        ''Seconds from the observed fault that triggered the first safe-state response to that response.'']"

definition propagation_rows :: "propagation_metrics \<Rightarrow> metric_row list" where
  "propagation_rows p =
     [toned_row ''Contained'' (bool_text (pm_contained p))
        ''No fault reached the flight-critical domain.'' (if pm_contained p then Ok else Bad),
      plain_row ''Injected components'' (dec (int (length (pm_injected_components p))))
        ''Components an injection was applied to by the adapter.'',
      plain_row ''Affected components'' (dec (int (length (pm_affected_components p))))
        ''Components observed leaving a healthy state.'',
      plain_row ''Propagated components'' (dec (int (length (pm_propagated_components p))))
        ''Affected components that were not themselves injection targets.'',
      plain_row ''Max propagation depth'' (int_text (pm_max_propagation_depth p))
        ''Longest dependency distance from an injection target to an affected component.'',
      toned_row ''Trust boundary crossed'' (bool_text (pm_boundary_crossed p))
        ''A dependency marked as crossing a trust boundary had both ends affected.''
        (if pm_boundary_crossed p then Bad else Ok)]"

definition mode_rows :: "mode_metrics \<Rightarrow> event_counts \<Rightarrow> metric_row list" where
  "mode_rows m e =
     [plain_row ''Time nominal'' (format_duration (num (md_time_nominal m)))
        ''Time with every observed component healthy.'',
      plain_row ''Time degraded'' (format_duration (num (md_time_degraded m)))
        ''Time with at least one impaired component but no failure and no flight-critical loss.'',
      (plain_row ''Time failed'' (format_duration (num (md_time_failed m)))
        ''Time with a failed component or a flight-critical component down.'')
        \<lparr>mw_tone := (if md_time_failed m > 0 then Some Bad else None)\<rparr>,
      plain_row ''Injections requested / applied'' (int_text (ct_injected e) @ '' / '' @ int_text (ct_applied e))
        ''A requested injection is not evidence of a disturbance; only an applied injection was confirmed by the adapter.'',
      plain_row ''Observed effects'' (int_text (ct_observed_effects e))
        ''Component state changes observed in the target.'',
      (plain_row ''Expectations passed / failed''
        (int_text (ct_expectations_passed e) @ '' / '' @ int_text (ct_expectations_failed e))
        ''Declared expectations of the scenario checked against observations.'')
        \<lparr>mw_tone := (if ct_expectations_failed e > 0 then Some Bad else None)\<rparr>]"

text \<open>The table of recovery records.\<close>

record recovery_row =
  rw_subsystem :: string
  rw_state :: badge
  rw_attribution :: badge
  rw_caused_by :: string
  rw_start :: string
  rw_recovered :: string
  rw_fault_duration :: string
  rw_recovery_time :: string
  rw_expected :: string

definition recovery_row_of :: "recovery_record \<Rightarrow> recovery_row" where
  "recovery_row_of r =
     \<lparr>rw_subsystem = rr_subsystem r,
      rw_state = plain_badge (st_label (COMPONENT_STATE (rr_fault_state r)))
        (st_tone (COMPONENT_STATE (rr_fault_state r))),
      rw_attribution = (if rr_direct r then plain_badge ''DIRECT'' Info else plain_badge ''PROPAGATED'' Warn),
      rw_caused_by = nullish (rr_caused_by r) ''-'',
      rw_start = format_mission_time (num (rr_fault_started_at r)),
      rw_recovered = (case rr_recovered_at r of None \<Rightarrow> ''-'' | Some t \<Rightarrow> format_mission_time (num t)),
      rw_fault_duration = optional_seconds (rr_fault_duration r),
      rw_recovery_time = optional_seconds (rr_recovery_time r),
      rw_expected = (if rr_recovery_expected r then ''yes'' else ''no, disturbance held to the end'')\<rparr>"

datatype 'r rows = No_rows string | Rows "'r list"

definition recovery_table :: "recovery_record list \<Rightarrow> recovery_row rows" where
  "recovery_table records =
     (if records = [] then No_rows ''No fault was observed in this run.''
      else Rows (map recovery_row_of records))"

text \<open>The final states, ordered by \<open>localeCompare\<close> of the component (\<open>collate\<close>).\<close>

record final_row =
  fw_component :: string
  fw_state :: badge
  fw_times :: string

definition final_row_of :: "metrics_result \<Rightarrow> string \<times> component_state \<Rightarrow> final_row" where
  "final_row_of m entry =
     (let times = nullish (map_of (mr_component_time_in_state m) (fst entry)) [];
          shown = join_with '', '' (map (\<lambda>(name, seconds). name @ '' '' @ format_duration (num seconds))
            (filter (\<lambda>(name, seconds). seconds > 0) times))
      in \<lparr>fw_component = fst entry,
          fw_state = plain_badge (st_label (COMPONENT_STATE (snd entry))) (st_tone (COMPONENT_STATE (snd entry))),
          fw_times = (if shown = [] then ''no transition'' else shown)\<rparr>)"

definition final_rows :: "(string \<Rightarrow> string \<Rightarrow> int) \<Rightarrow> metrics_result \<Rightarrow> final_row list" where
  "final_rows collate m =
     map (final_row_of m) (js_sort (\<lambda>a b. collate (fst a) (fst b)) (mr_final_component_states m))"

record metrics_view =
  mt_groups :: "(string \<times> metric_row list) list"
  mt_records_note :: string
  mt_records :: "recovery_row rows"
  mt_final :: "final_row list"

definition metrics_tab :: "(string \<Rightarrow> string \<Rightarrow> int) \<Rightarrow> metrics_result \<Rightarrow> metrics_view" where
  "metrics_tab collate m =
     \<lparr>mt_groups =
        [(''Mission'', mission_rows (mr_mission m)),
         (''Availability'', availability_rows (mr_availability m)),
         (''Safety'', safety_rows (mr_safety m)),
         (''Recovery'', recovery_rows (mr_recovery m)),
         (''Propagation'', propagation_rows (mr_propagation m)),
         (''System modes and events'', mode_rows (mr_modes m) (mr_events m))],
      mt_records_note = dec (int (length (rm_records (mr_recovery m)))) @ '' records'',
      mt_records = recovery_table (rm_records (mr_recovery m)),
      mt_final = final_rows collate m\<rparr>"

section \<open>Scores: score-breakdown.tsx\<close>

record dimension_row =
  dw_inactive :: bool
  dw_label :: string
  dw_bar :: "tone \<times> string"
  dw_score :: string
  dw_weight :: string
  dw_points :: string
  dw_explanation :: string

definition dimension_row_of :: "dimension_score \<Rightarrow> dimension_row" where
  "dimension_row_of d =
     \<lparr>dw_inactive = (ds_weight d = 0),
      dw_label = ds_label d,
      dw_bar = (if ds_score d \<ge> fl (9 / 10) then Ok else if ds_score d \<ge> fl (6 / 10) then Warn else Bad,
                rat_str (of_int (math_round (fl (ds_score d * 100)))) @ ''%''),
      dw_score = format_percent (num (ds_score d)) 1,
      dw_weight = rat_str (ds_weight d),
      dw_points = to_fixed 2 (ds_points d),
      dw_explanation = ds_explanation d\<rparr>"

text \<open>\<open>reduce((sum, d) => sum + d.weight, 0)\<close>\<close>

definition sum_doubles :: "rat list \<Rightarrow> rat" where
  "sum_doubles xs = foldl (\<lambda>s x. fl (s + x)) 0 xs"

record score_table =
  sb_rows :: "dimension_row list"
  sb_weight :: string
  sb_total :: string
  sb_reason :: string

definition score_breakdown :: "score_result \<Rightarrow> score_table" where
  "score_breakdown score =
     \<lparr>sb_rows = map dimension_row_of (sr_dimensions score),
      sb_weight = rat_str (sum_doubles (map ds_weight (sr_dimensions score))),
      sb_total = format_score (num (sr_total score)),
      sb_reason = sr_reason score\<rparr>"

definition hard_gates :: "score_result \<Rightarrow> (string \<times> string \<times> badge) list" where
  "hard_gates score =
     map (\<lambda>g. (hg_name g, hg_reason g,
               if hg_passed g then plain_badge ''PASSED'' Ok else plain_badge ''FAILED'' Bad))
       (sr_hard_gates score)"

section \<open>Assertions: assertions-table.tsx\<close>

fun OUTCOME_TONE :: "assertion_outcome \<Rightarrow> tone" where
  "OUTCOME_TONE AO_passed = Ok"
| "OUTCOME_TONE AO_failed = Bad"
| "OUTCOME_TONE AO_not_evaluated = Dim"

fun outcome_str :: "assertion_outcome \<Rightarrow> string" where
  "outcome_str AO_passed = ''passed''"
| "outcome_str AO_failed = ''failed''"
| "outcome_str AO_not_evaluated = ''not_evaluated''"

text \<open>\<open>.replace(/0+$/, "").replace(/\.$/, "")\<close>\<close>

definition strip_zeros :: "string \<Rightarrow> string" where
  "strip_zeros s = rev (dropWhile (\<lambda>c. c = CHR ''0'') (rev s))"

definition strip_point :: "string \<Rightarrow> string" where
  "strip_point s = (if s \<noteq> [] \<and> last s = CHR ''.'' then butlast s else s)"

definition format_operand :: "metric_value \<Rightarrow> string" where
  "format_operand value =
     (case value of
        MV_null \<Rightarrow> ''n/a''
      | MV_bool b \<Rightarrow> if b then ''true'' else ''false''
      | MV_num x \<Rightarrow> if is_integer x then num_str x else strip_point (strip_zeros (num_fixed 3 x)))"

record assertion_row =
  aw_expression :: string
  aw_description :: "string option"
  aw_severity :: badge
  aw_outcome :: badge
  aw_measured :: string
  aw_expected :: string
  aw_explanation :: string

definition assertion_row_of :: "assertion_result \<Rightarrow> assertion_row" where
  "assertion_row_of a =
     \<lparr>aw_expression = as_expression a,
      aw_description = (if as_description a \<noteq> [] then Some (as_description a) else None),
      aw_severity = severity_badge (as_severity a),
      aw_outcome = plain_badge (to_upper (replace_first (CHR ''_'') (CHR '' '') (outcome_str (as_outcome a))))
        (OUTCOME_TONE (as_outcome a)),
      aw_measured = format_operand (as_measured a),
      aw_expected = as_operator a @ '' '' @ format_operand (as_expected a),
      aw_explanation = as_explanation a\<rparr>"

definition assertions_table :: "assertion_result list \<Rightarrow> assertion_row rows" where
  "assertions_table assertions =
     (if assertions = [] then No_rows ''This scenario declares no assertion.''
      else Rows (map assertion_row_of assertions))"

section \<open>Curves: telemetry-chart.tsx\<close>

definition MAX_POINTS :: nat where "MAX_POINTS = 320"

record chart_point =
  cp_t :: rat
  cp_altitude :: rat
  cp_position_error :: rat
  cp_progress :: rat
  cp_battery :: rat

text \<open>\<open>Math.round(x * a) / b\<close>\<close>

definition round_at :: "rat \<Rightarrow> rat \<Rightarrow> rat \<Rightarrow> rat" where
  "round_at a b x = fl (of_int (math_round (fl (x * a))) / b)"

definition chart_point_of :: "telemetry_sample \<Rightarrow> chart_point" where
  "chart_point_of s =
     \<lparr>cp_t = round_at 10 10 (ts_t s),
      cp_altitude = round_at 10 10 (pz (ts_position s)),
      cp_position_error = round_at 100 100 (ns_position_error (ts_navigation s)),
      cp_progress = round_at 1000 10 (ms_progress (ts_mission s)),
      cp_battery = round_at 1000 10 (pw_remaining (ts_power s))\<rparr>"

definition chart_stride :: "nat \<Rightarrow> nat" where
  "chart_stride n = nat (max 1 \<lceil>fl (of_nat n / of_nat MAX_POINTS)\<rceil>)"

function chart_from :: "nat \<Rightarrow> telemetry_sample list \<Rightarrow> nat \<Rightarrow> chart_point list" where
  "chart_from stride samples index =
     (if index < length samples \<and> 0 < stride
      then chart_point_of (samples ! index) # chart_from stride samples (index + stride)
      else [])"
  by pat_completeness auto
termination
  by (relation "measure (\<lambda>(stride, samples, index). length samples - index)") auto

declare chart_from.simps [simp del]

definition chart_points :: "telemetry_sample list \<Rightarrow> chart_point list" where
  "chart_points samples =
     (if samples = [] then [] else chart_from (chart_stride (length samples)) samples 0)"

definition chart_injections :: "run_event list \<Rightarrow> (rat \<times> string) list" where
  "chart_injections events =
     map (\<lambda>e. (ev_simulation_time e, nullish (ev_scenario_event_id e) ''injection''))
       (filter (\<lambda>e. ev_kind e = INJECTION_APPLIED) events)"

datatype chart_view = Chart_empty string | Chart "chart_point list" "(rat \<times> string) list"

definition telemetry_chart :: "telemetry_sample list \<Rightarrow> run_event list \<Rightarrow> chart_view" where
  "telemetry_chart samples events =
     (let points = chart_points samples
      in if points = [] then Chart_empty ''This run recorded no telemetry.''
         else Chart points (chart_injections events))"

text \<open>The label of a time on the chart: the chart library passes any value.\<close>

definition mission_time_label :: "jsval \<Rightarrow> string" where
  "mission_time_label label = (case label of Num n \<Rightarrow> format_mission_time (Some n) | _ \<Rightarrow> [])"

text \<open>
  The two panels: legend (text, its class, tone of the bar), the range of the y axis when it is
  fixed, the curves (data key, name, colour) with their points, and the lines at the injections. How the
  library draws them is not modelled.
\<close>

record chart_line =
  cl_key :: string
  cl_name :: string
  cl_stroke :: string
  cl_points :: "(rat \<times> rat) list"

record chart_panel =
  ch_title :: string
  ch_legend :: "(string \<times> string \<times> tone) list"
  ch_y_domain :: "(int \<times> int) option"
  ch_lines :: "chart_line list"
  ch_marks :: "(string \<times> rat \<times> string) list"

definition chart_line_of ::
  "string \<Rightarrow> string \<Rightarrow> string \<Rightarrow> (chart_point \<Rightarrow> rat) \<Rightarrow> chart_point list \<Rightarrow> chart_line" where
  "chart_line_of key line_name stroke value points =
     \<lparr>cl_key = key, cl_name = line_name, cl_stroke = stroke, cl_points = map (\<lambda>p. (cp_t p, value p)) points\<rparr>"

definition chart_marks :: "(rat \<times> string) list \<Rightarrow> (string \<times> rat \<times> string) list" where
  "chart_marks injections = map (\<lambda>(t, i). (i, t, ''#e05252'')) injections"

definition altitude_panel :: "chart_point list \<Rightarrow> (rat \<times> string) list \<Rightarrow> chart_panel" where
  "altitude_panel points injections =
     \<lparr>ch_title = ''Altitude and position error'',
      ch_legend = [(''altitude (m)'', ''text-info'', Info), (''position error (m)'', ''text-warn'', Warn)],
      ch_y_domain = None,
      ch_lines = [chart_line_of ''altitude'' ''altitude'' ''#4fb3e8'' cp_altitude points,
                  chart_line_of ''positionError'' ''position error'' ''#e0a52a'' cp_position_error points],
      ch_marks = chart_marks injections\<rparr>"

definition progress_panel :: "chart_point list \<Rightarrow> (rat \<times> string) list \<Rightarrow> chart_panel" where
  "progress_panel points injections =
     \<lparr>ch_title = ''Mission progress and battery'',
      ch_legend = [(''progress (%)'', ''text-info'', Info), (''battery (%)'', ''text-muted'', Dim)],
      ch_y_domain = Some (0, 100),
      ch_lines = [chart_line_of ''progress'' ''progress'' ''#4fb3e8'' cp_progress points,
                  chart_line_of ''battery'' ''battery'' ''#5d6b7a'' cp_battery points],
      ch_marks = chart_marks injections\<rparr>"

definition chart_panels :: "chart_view \<Rightarrow> chart_panel list" where
  "chart_panels v =
     (case v of Chart_empty _ \<Rightarrow> []
      | Chart points injections \<Rightarrow> [altitude_panel points injections, progress_panel points injections])"

text \<open>The bars of the legend have the colours of the curves, in their order, and every curve has all points.\<close>

lemma legend_matches_lines:
  "list_all (\<lambda>c. map (\<lambda>(_, _, t). TONE_HEX t) (ch_legend c) = map cl_stroke (ch_lines c)
       \<and> list_all (\<lambda>l. map fst (cl_points l) = map cp_t points) (ch_lines c))
     (chart_panels (Chart points injections))"
  by (simp add: chart_panels_def altitude_panel_def progress_panel_def chart_line_of_def)

section \<open>Artifacts: artifacts-tab.tsx\<close>

record artifact_row =
  fr_name :: string
  fr_description :: string
  fr_content_type :: string
  fr_size :: string
  fr_sha_title :: string
  fr_sha :: string
  fr_href :: string

definition artifact_row_of :: "string option \<Rightarrow> artifact \<Rightarrow> artifact_row" where
  "artifact_row_of env a =
     \<lparr>fr_name = ar_name a, fr_description = ar_description a, fr_content_type = ar_content_type a,
      fr_size = format_bytes (ar_size_bytes a), fr_sha_title = nullish (ar_sha256 a) [],
      fr_sha = (if truthy (ar_sha256 a) then take 16 (nullish (ar_sha256 a) []) else ''not recorded''),
      fr_href = api_url env (ar_url a)\<rparr>"

definition artifacts_tab ::
  "string option \<Rightarrow> artifact list \<Rightarrow> string \<Rightarrow> bool \<Rightarrow> string option \<times> artifact_row rows" where
  "artifacts_tab env artifacts runId reportAvailable =
     (if reportAvailable then Some (api_url env (''/api/v1/runs/'' @ runId @ ''/report.html'')) else None,
      if artifacts = [] then No_rows ''No artifact stored'' else Rows (map (artifact_row_of env) artifacts))"

section \<open>Provenance: provenance-tab.tsx\<close>

definition LABELS :: "(string \<times> string) list" where
  "LABELS =
     [(''software_version'', ''Software version''), (''scenario_api_version'', ''Scenario API version''),
      (''protocol_version'', ''Stream protocol version''), (''scenario_hash'', ''Scenario content hash''),
      (''scenario_version'', ''Scenario version''), (''adapter'', ''Adapter''),
      (''adapter_version'', ''Adapter version''), (''target_configuration'', ''Target configuration''),
      (''seed'', ''Seed''), (''speed'', ''Simulation speed''), (''git_commit'', ''Git commit''),
      (''image_versions'', ''Image versions''), (''runner_id'', ''Runner''), (''environment'', ''Environment''),
      (''started_at'', ''Started at''), (''ended_at'', ''Ended at''), (''score_profile'', ''Score profile''),
      (''data_origin'', ''Data origin'')]"

definition LABEL_ORDER :: "string list" where "LABEL_ORDER = map fst LABELS"

function render_value :: "jsval \<Rightarrow> string" where
  "render_value Undefined = ''not recorded''"
| "render_value Null = ''not recorded''"
| "render_value (Str s) = (if s = [] then ''not recorded'' else s)"
| "render_value (Num n) = num_str n"
| "render_value (Bool b) = (if b then ''true'' else ''false'')"
| "render_value (Arr vs) = (if vs = [] then ''none'' else join_with '', '' (map render_value vs))"
| "render_value (Obj ob) =
     (if ob = [] then ''none''
      else join_with ''  |  '' (map (\<lambda>e. fst e @ '': '' @ render_value (snd e)) ob))"
  by pat_completeness auto
termination
proof (relation "measure size", goal_cases)
  case (3 ob e)
  then show ?case by (cases e) (force dest: size_list_estimation' [of _ _ _ "size_prod (\<lambda>_. 0) size"])
qed (auto simp: less_Suc_eq_le size_list_estimation')

definition provenance_keys :: "jsval obj \<Rightarrow> string list" where
  "provenance_keys provenance =
     filter (\<lambda>key. key \<in> fst ` set provenance) LABEL_ORDER
     @ filter (\<lambda>key. key \<notin> set LABEL_ORDER) (map fst provenance)"

definition provenance_rows :: "jsval obj \<Rightarrow> (string \<times> string) list" where
  "provenance_rows provenance =
     map (\<lambda>key. (nullish (map_of LABELS key) key, render_value (obj_get provenance key)))
       (provenance_keys provenance)"

section \<open>Properties\<close>

lemma undec_zeros_end: "undec (s @ replicate j (CHR ''0'')) = undec s * 10 ^ j"
proof (induction j)
  case (Suc j)
  have "undec (s @ replicate (Suc j) (CHR ''0'')) = undec ((s @ replicate j (CHR ''0'')) @ [CHR ''0''])"
    by (simp add: replicate_append_same)
  also have "\<dots> = 10 * (undec s * 10 ^ j)" using Suc.IH by (simp only: undec_snoc) (simp add: digit_val_def)
  finally show ?case by simp
qed simp

lemma undec_zeros_front: "undec (replicate j (CHR ''0'') @ s) = undec s"
proof (induction s rule: rev_induct)
  case Nil
  show ?case using undec_zeros_end [of "[]" j] by simp
next
  case (snoc c s)
  then show ?case by (simp only: append_assoc [symmetric] undec_snoc)
qed

lemma zeros_split: "\<exists>j. s = strip_zeros s @ replicate j (CHR ''0'')"
proof -
  have "rev s = takeWhile (\<lambda>c. c = CHR ''0'') (rev s) @ dropWhile (\<lambda>c. c = CHR ''0'') (rev s)" by simp
  then have "s = strip_zeros s @ rev (takeWhile (\<lambda>c. c = CHR ''0'') (rev s))"
    unfolding strip_zeros_def by (metis rev_append rev_rev_ident)
  moreover have "takeWhile (\<lambda>c. c = CHR ''0'') (rev s)
      = replicate (length (takeWhile (\<lambda>c. c = CHR ''0'') (rev s))) (CHR ''0'')"
    by (intro replicate_eqI) (auto dest: set_takeWhileD)
  ultimately show ?thesis by (metis rev_replicate)
qed

lemma dropWhile_zeros:
  "dropWhile (\<lambda>c. c = CHR ''0'') (replicate j (CHR ''0'') @ s) = dropWhile (\<lambda>c. c = CHR ''0'') s"
  by (induction j) simp_all

lemma strip_zeros_end: "strip_zeros (s @ CHR ''.'' # replicate j (CHR ''0'')) = s @ ''.''"
  by (simp add: strip_zeros_def dropWhile_zeros)

lemma strip_zeros_digits:
  assumes "f \<noteq> []" "last f \<noteq> CHR ''0''"
  shows "strip_zeros (s @ f @ replicate j (CHR ''0'')) = s @ f"
proof -
  have "f = butlast f @ [last f]" using assms(1) by simp
  then obtain b where "f = b @ [last f]" by blast
  then obtain b c where f: "f = b @ [c]" "c \<noteq> CHR ''0''" using assms(2) by blast
  show ?thesis by (simp add: strip_zeros_def dropWhile_zeros f)
qed

lemma fixed_digits_split:
  assumes "0 \<le> n" "0 < d"
  obtains ip fp where "fixed_digits d n = ip @ ''.'' @ fp" "ip \<noteq> []" "length fp = d"
    "list_all is_digit ip" "list_all is_digit fp" "undec (ip @ fp) = n"
proof -
  let ?z = "pad_start (d + 1) (CHR ''0'') (dec n)"
  have len: "d + 1 \<le> length ?z" by (simp add: pad_start_def)
  have "list_all is_digit ?z" using dec_digits [OF assms(1)] by (auto simp: pad_start_def list_all_iff is_digit_def)
  then have "list_all is_digit (take (length ?z - d) ?z)" "list_all is_digit (drop (length ?z - d) ?z)"
    by (auto simp: list_all_iff dest: in_set_takeD in_set_dropD)
  moreover have "undec ?z = n" using assms(1) by (simp add: pad_start_def undec_zeros_front)
  ultimately show ?thesis
    using len assms(2) by (intro that [of "take (length ?z - d) ?z" "drop (length ?z - d) ?z"])
      (auto simp: fixed_digits_def Let_def)
qed

lemma parse_stripped:
  assumes "0 \<le> n" "0 < d"
  shows "parse_number (strip_point (strip_zeros (fixed_digits d n))) = to_num (of_int n / 10 ^ d)"
proof -
  obtain ip fp where fd: "fixed_digits d n = ip @ ''.'' @ fp" "ip \<noteq> []" "length fp = d"
    "list_all is_digit ip" "list_all is_digit fp" "undec (ip @ fp) = n"
    using fixed_digits_split [OF assms] by metis
  let ?f = "strip_zeros fp"
  obtain j where j: "fp = ?f @ replicate j (CHR ''0'')" using zeros_split by blast
  then have d: "d = length ?f + j" using fd(3) by (metis length_append length_replicate)
  have n: "n = undec (ip @ ?f) * 10 ^ j" using fd(6) j undec_zeros_end [of "ip @ ?f" j] by simp
  have val: "of_int n / (10 :: rat) ^ d = of_int (undec (ip @ ?f)) / 10 ^ length ?f"
    by (simp add: n d power_add)
  show ?thesis
  proof (cases "?f = []")
    case True
    then have "fixed_digits d n = ip @ CHR ''.'' # replicate j (CHR ''0'')" using fd(1) j by simp
    then have "strip_point (strip_zeros (fixed_digits d n)) = ip"
      by (simp only: strip_zeros_end) (simp add: strip_point_def)
    then show ?thesis using parse_number_digits(1) [OF fd(4,2)] val True by simp
  next
    case False
    have l: "last ?f \<noteq> CHR ''0''"
      using False hd_dropWhile [of "\<lambda>c. c = CHR ''0''" "rev fp"]
      by (simp add: strip_zeros_def last_rev)
    have ld: "is_digit (last ?f)" "list_all is_digit ?f"
      using False fd(5) j by (metis list_all_append list_all_iff last_in_set)+
    have "strip_zeros (fixed_digits d n) = (ip @ ''.'') @ ?f"
      using strip_zeros_digits [OF False l, of "ip @ ''.''" j] fd(1) j by simp
    then have "strip_point (strip_zeros (fixed_digits d n)) = ip @ ''.'' @ ?f"
      using False ld(1) by (auto simp: strip_point_def is_digit_def)
    then show ?thesis using parse_number_digits(2) [OF fd(4,2) ld(2)] val by simp
  qed
qed



lemma chart_from_eq:
  assumes "0 < stride"
  shows "chart_from stride samples index = map (\<lambda>i. chart_point_of (samples ! (index + i * stride)))
    [0..<(length samples - index + (stride - 1)) div stride]"
proof (induction "length samples - index" arbitrary: index rule: less_induct)
  case less
  show ?case
  proof (cases "index < length samples")
    case True
    let ?n = "(length samples - (index + stride) + (stride - 1)) div stride"
    have "(length samples - index + (stride - 1)) div stride = Suc ?n"
    proof (cases "index + stride \<le> length samples")
      case le: True
      then have "length samples - index + (stride - 1) = (length samples - (index + stride) + (stride - 1)) + stride"
        by simp
      then show ?thesis using assms by (simp only: div_add_self2)
    next
      case False
      then have "?n = 0" using assms by simp
      moreover have "(length samples - index + (stride - 1)) div stride = 1"
        using True False assms by (intro div_nat_eqI) simp_all
      ultimately show ?thesis by (simp only: One_nat_def)
    qed
    moreover have "chart_from stride samples index = chart_point_of (samples ! index)
        # map (\<lambda>i. chart_point_of (samples ! (index + stride + i * stride))) [0..<?n]"
      using True assms less.hyps [of "index + stride"] by (subst chart_from.simps) simp
    ultimately show ?thesis
      by (simp only: map_upt_Suc) (simp add: algebra_simps)
  next
    case False
    then show ?thesis using assms by (subst chart_from.simps) simp
  qed
qed

lemma fl_above_int:
  assumes "of_int k < x" "x - of_int k \<ge> 1 / 512" "0 \<le> k" "k \<le> 2 ^ 40"
  shows "of_int k < fl x"
proof -
  have "fl (of_int (512 * k + 1) * pow2 (- 9)) = of_int (512 * k + 1) * pow2 (- 9)"
    using assms(3,4) by (intro fl_exact) simp_all
  moreover have "of_int (512 * k + 1) * pow2 (- 9) = of_int k + (1 / 512 :: rat)"
    by (simp add: pow2_def field_simps)
  moreover have "fl (of_int k + 1 / 512) \<le> fl x" using assms(2) by (intro fl_mono) simp
  ultimately show ?thesis by simp
qed

lemma chart_stride_bounds:
  assumes "n \<le> 2 ^ 32"
  shows "0 < chart_stride n" "n \<le> 320 * chart_stride n" "n \<le> 320 \<Longrightarrow> chart_stride n = 1"
proof -
  show "0 < chart_stride n" by (simp add: chart_stride_def)
  let ?x = "of_nat n / 320 :: rat"
  let ?k = "int (n div 320)"
  have "(of_nat n :: rat) = of_nat (n div 320) * 320 + of_nat (n mod 320)"
    by (metis div_mult_mod_eq of_nat_add of_nat_mult of_nat_numeral)
  then have x: "?x = of_int ?k + of_nat (n mod 320) / 320" by simp
  have "int (n div 320) + (if n mod 320 = 0 then 0 else 1) \<le> \<lceil>fl ?x\<rceil>"
  proof (cases "n mod 320 = 0")
    case True
    have "fl (of_int ?k) = of_int ?k" using assms by (intro fl_of_int) (simp add: zdiv_int)
    then show ?thesis using x True by simp
  next
    case False
    have "of_int ?k < fl ?x"
    proof (rule fl_above_int)
      have "1 / 320 \<le> (of_nat (n mod 320) / 320 :: rat)" using False by (simp add: field_simps)
      moreover have "?x - of_int ?k = of_nat (n mod 320) / 320" using x by (simp only: add_diff_cancel_left')
      ultimately have "?x - of_int ?k \<ge> 1 / 320" by (simp only:)
      then show "?x - of_int ?k \<ge> 1 / 512" "of_int ?k < ?x" by linarith+
      have "n div 320 \<le> 2 ^ 32" using assms by (meson div_le_dividend le_trans)
      also have "\<dots> \<le> (2 :: nat) ^ 40" by simp
      finally show "?k \<le> 2 ^ 40" by simp
    qed simp
    then have "?k < \<lceil>fl ?x\<rceil>" by (simp only: less_ceiling_iff)
    then show ?thesis using False by simp
  qed
  moreover have stride: "int (chart_stride n) = max 1 \<lceil>fl ?x\<rceil>"
    by (simp add: chart_stride_def MAX_POINTS_def)
  ultimately have "int (n div 320) + (if n mod 320 = 0 then 0 else 1) \<le> int (chart_stride n)"
    by (simp only: le_max_iff_disj simp_thms)
  then have "n div 320 + (if n mod 320 = 0 then 0 else 1) \<le> chart_stride n" by (simp split: if_splits)
  moreover have "n = n div 320 * 320 + n mod 320" "n mod 320 < 320" by simp_all
  then have "n \<le> 320 * (n div 320 + (if n mod 320 = 0 then 0 else 1))" by (cases "n mod 320") auto
  ultimately show "n \<le> 320 * chart_stride n" by (meson le_trans mult_le_mono2)
  show "chart_stride n = 1" if "n \<le> 320"
  proof -
    have "?x \<le> 1" using that by simp
    then have "fl ?x \<le> fl 1" by (rule fl_mono)
    then show ?thesis by (simp add: chart_stride_def MAX_POINTS_def ceiling_le_iff)
  qed
qed

lemma blocks_cover:
  fixes n k :: nat
  assumes "0 < k" "n \<le> 320 * k"
  defines "b \<equiv> (n + (k - 1)) div k"
  shows "b \<le> 320" "b * k < n + k" "n \<le> b * k"
proof -
  have m: "n + (k - 1) = b * k + (n + (k - 1)) mod k" "(n + (k - 1)) mod k < k"
    using assms(1) by (simp_all add: b_def del: add_diff_assoc)
  show up: "b * k < n + k" "n \<le> b * k" using m assms(1) by linarith+
  then have "b * k < 321 * k" using assms(2) by linarith
  then have "b < 321" by (simp only: mult_less_cancel2)
  then show "b \<le> 320" by simp
qed

text \<open>
  C30. The telemetry chart draws at most 320 points, evenly spaced over the recording from its
  first sample on: point \<open>i\<close> is sample \<open>i * stride\<close>, no stretch of a whole stride is left
  out, at the end neither, and a recording of up to 320 samples is drawn in full.
\<close>

theorem chart_points_bounded:
  assumes "samples \<noteq> []" "length samples \<le> 2 ^ 32"
  defines "stride \<equiv> chart_stride (length samples)"
  shows "chart_points samples = map (\<lambda>i. chart_point_of (samples ! (i * stride))) [0..<length (chart_points samples)]
    \<and> length (chart_points samples) \<le> 320
    \<and> length (chart_points samples) * stride < length samples + stride
    \<and> length samples \<le> length (chart_points samples) * stride
    \<and> (length samples \<le> 320 \<longrightarrow> chart_points samples = map chart_point_of samples)"
proof -
  note b = chart_stride_bounds [OF assms(2), folded stride_def]
  let ?n = "(length samples + (stride - 1)) div stride"
  have eq: "chart_points samples = map (\<lambda>i. chart_point_of (samples ! (i * stride))) [0..<?n]"
    using assms(1) chart_from_eq [OF b(1), of samples 0] by (simp add: chart_points_def stride_def)
  then have len: "length (chart_points samples) = ?n" by simp
  note cover = blocks_cover [OF b(1,2)]
  have whole: "chart_points samples = map chart_point_of samples" if "length samples \<le> 320"
    unfolding eq b(3) [OF that] by (rule nth_equalityI) simp_all
  show ?thesis
    unfolding len by (intro conjI impI eq cover whole)
qed

theorem chart_points_bounded_witness:
  "\<forall>s. length (chart_points (replicate 1000 s)) = 250 \<and> chart_stride 1000 = 4"
proof
  fix s :: telemetry_sample
  have "\<lceil>fl (1000 / 320)\<rceil> = 4" by code_simp
  then have st: "chart_stride 1000 = 4" by (simp add: chart_stride_def MAX_POINTS_def)
  have "replicate 1000 s \<noteq> []" "length (replicate 1000 s) \<le> 2 ^ 32"
    by (simp_all only: length_replicate replicate_empty) simp_all
  note bounded = chart_points_bounded [OF this, unfolded length_replicate st]
  then have "length (chart_points (replicate 1000 s)) * 4 < 1000 + 4" by (elim conjE)
  moreover have "1000 \<le> length (chart_points (replicate 1000 s)) * 4" using bounded by (elim conjE)
  ultimately show "length (chart_points (replicate 1000 s)) = 250 \<and> chart_stride 1000 = 4" using st by linarith
qed

lemma LABEL_ORDER_distinct: "distinct LABEL_ORDER"
  by (simp add: LABEL_ORDER_def LABELS_def)

text \<open>
  The provenance table leaves nothing out and shows nothing twice: its rows are the recorded
  fields, the known ones first, in the fixed order and under their labels, then the others in the
  order they were recorded in and under their own names.
\<close>

theorem provenance_complete:
  assumes "distinct (map fst provenance)"
  shows "mset (provenance_keys provenance) = mset (map fst provenance)
    \<and> filter (\<lambda>k. map_of LABELS k \<noteq> None) (provenance_keys provenance)
        @ filter (\<lambda>k. map_of LABELS k = None) (map fst provenance) = provenance_keys provenance
    \<and> map snd (provenance_rows provenance) = map (\<lambda>k. render_value (obj_get provenance k)) (provenance_keys provenance)
    \<and> ((k, v) \<in> set provenance \<longrightarrow> (nullish (map_of LABELS k) k, render_value v) \<in> set (provenance_rows provenance))"
proof -
  let ?known = "filter (\<lambda>k. k \<in> fst ` set provenance) LABEL_ORDER"
  let ?rest = "filter (\<lambda>k. k \<notin> set LABEL_ORDER) (map fst provenance)"
  have rest: "?rest = filter (\<lambda>k. map_of LABELS k = None) (map fst provenance)"
    by (intro filter_cong refl) (auto simp: LABEL_ORDER_def map_of_eq_None_iff)
  have keys: "provenance_keys provenance = ?known @ ?rest" by (simp add: provenance_keys_def)
  have "distinct (provenance_keys provenance)"
    using assms LABEL_ORDER_distinct by (auto simp: keys)
  moreover have set: "set (provenance_keys provenance) = set (map fst provenance)" by (auto simp: keys)
  ultimately have "mset (provenance_keys provenance) = mset (map fst provenance)"
    using assms by (simp only: set_eq_iff_mset_eq_distinct [symmetric])
  moreover have lab: "(map_of LABELS k \<noteq> None) = (k \<in> set LABEL_ORDER)" for k
    by (auto simp: LABEL_ORDER_def map_of_eq_None_iff)
  have "filter (\<lambda>k. k \<in> set LABEL_ORDER) ?known = ?known" "filter (\<lambda>k. k \<in> set LABEL_ORDER) ?rest = []"
    by (rule filter_True, simp) (rule filter_False, simp)
  then have "filter (\<lambda>k. map_of LABELS k \<noteq> None) (provenance_keys provenance) = ?known"
    by (simp only: keys filter_append lab append_Nil2)
  then have "filter (\<lambda>k. map_of LABELS k \<noteq> None) (provenance_keys provenance)
      @ filter (\<lambda>k. map_of LABELS k = None) (map fst provenance) = provenance_keys provenance"
    by (simp only: keys rest)
  moreover have "map snd (provenance_rows provenance)
      = map (\<lambda>k. render_value (obj_get provenance k)) (provenance_keys provenance)"
    by (simp add: provenance_rows_def)
  moreover have "(nullish (map_of LABELS k) k, render_value v) \<in> set (provenance_rows provenance)"
    if "(k, v) \<in> set provenance"
  proof -
    have "k \<in> set (provenance_keys provenance)" using that set by (force simp: image_iff)
    moreover have "obj_get provenance k = v" using that assms by (simp add: obj_get_def)
    ultimately show ?thesis by (force simp: provenance_rows_def)
  qed
  ultimately show ?thesis by blast
qed

theorem provenance_complete_witness:
  "provenance_rows [(''host'', Str ''a''), (''seed'', Num (Fin 7)), (''adapter'', Str ''sim'')]
     = [(''Adapter'', ''sim''), (''Seed'', ''7''), (''host'', ''a'')]
   \<and> mset (provenance_keys [(''host'', Str ''a''), (''seed'', Num (Fin 7)), (''adapter'', Str ''sim'')])
     = {#''host'', ''seed'', ''adapter''#}"
proof -
  let ?p = "[(''host'', Str ''a''), (''seed'', Num (Fin 7)), (''adapter'', Str ''sim'')]"
  have "distinct (map fst ?p)" by simp
  then have "mset (provenance_keys ?p) = mset (map fst ?p)"
    by (rule provenance_complete [THEN conjunct1])
  moreover have "rat_str 7 = ''7''" by (simp add: num_str_numeral dec_text)
  then have "provenance_rows ?p = [(''Adapter'', ''sim''), (''Seed'', ''7''), (''host'', ''a'')]"
    by (simp add: provenance_rows_def provenance_keys_def LABEL_ORDER_def LABELS_def obj_get_def)
  ultimately show ?thesis by simp
qed

end
