(* ===== verification/FlownPath.thy ===== *)
theory FlownPath
  imports Events JSNumText
begin

text \<open>
  apps/web/src/components/twin/feed.ts and the flown path of components/twin/paths.tsx. The scene
  pulls the trail in its frame loop and draws only what is new, until the generation of the feed
  changes. The distance of two points is three.js code, a parameter. Points are kept as the
  doubles that are written; the vertex buffer rounds them to single precision.
\<close>

type_synonym point = "rat \<times> rat \<times> rat"

definition to_scene_vector :: "position \<Rightarrow> point" where
  "to_scene_vector p = (px p, pz p, - py p)"

definition MAX_TRAIL_POINTS :: nat where "MAX_TRAIL_POINTS = 6000"
definition MIN_STEP :: rat where "MIN_STEP = fl (4 / 10)"

text \<open>\<open>lastTime\<close> is \<open>None\<close> for minus infinity; \<open>lastPoint\<close> is the last of the points.\<close>

record flown_path =
  fp_points :: "point list"
  fp_last_time :: "rat option"
  fp_generation :: int

definition flown_start :: flown_path where
  "flown_start = \<lparr>fp_points = [], fp_last_time = None, fp_generation = -1\<rparr>"

definition drawn_before :: "flown_path \<Rightarrow> rat \<Rightarrow> bool" where
  "drawn_before s t = (case fp_last_time s of None \<Rightarrow> False | Some l \<Rightarrow> t \<le> l)"

text \<open>One round of the loop over the trail, and whether the loop goes on (\<open>break\<close> ends it).\<close>

definition draw_sample ::
  "(point \<Rightarrow> point \<Rightarrow> rat) \<Rightarrow> telemetry_sample \<Rightarrow> flown_path \<Rightarrow> flown_path \<times> bool" where
  "draw_sample gap x s =
     (if drawn_before s (ts_t x) then (s, True)
      else let s1 = s\<lparr>fp_last_time := Some (ts_t x)\<rparr>;
               p = to_scene_vector (ts_position x)
           in if fp_points s \<noteq> [] \<and> gap (last (fp_points s)) p < MIN_STEP then (s1, True)
              else if length (fp_points s) \<ge> MAX_TRAIL_POINTS then (s1, False)
              else (s1\<lparr>fp_points := fp_points s @ [p]\<rparr>, True))"

fun draw_samples ::
  "(point \<Rightarrow> point \<Rightarrow> rat) \<Rightarrow> telemetry_sample list \<Rightarrow> flown_path \<Rightarrow> flown_path" where
  "draw_samples gap [] s = s"
| "draw_samples gap (x # xs) s =
     (let (s', goes) = draw_sample gap x s in if goes then draw_samples gap xs s' else s')"

definition flown_frame ::
  "(point \<Rightarrow> point \<Rightarrow> rat) \<Rightarrow> int \<Rightarrow> telemetry_sample list \<Rightarrow> flown_path \<Rightarrow> flown_path" where
  "flown_frame gap generation trail s =
     (let s0 = (if generation \<noteq> fp_generation s
        then s\<lparr>fp_generation := generation, fp_points := [], fp_last_time := None\<rparr> else s)
      in if trail = [] then s0 else draw_samples gap trail s0)"

section \<open>Drawing in parts\<close>

definition full :: "flown_path \<Rightarrow> bool" where
  "full s = (MAX_TRAIL_POINTS \<le> length (fp_points s))"

lemma draw_sample_generation: "draw_sample gap x s = (s', goes) \<Longrightarrow> fp_generation s' = fp_generation s"
  by (auto simp: draw_sample_def Let_def split: if_splits)

lemma draw_sample_full: "draw_sample gap x s = (s', goes) \<Longrightarrow> full s \<Longrightarrow> fp_points s' = fp_points s"
  by (auto simp: draw_sample_def full_def Let_def split: if_splits)

lemma draw_sample_break: "draw_sample gap x s = (s', False) \<Longrightarrow> full s'"
  by (auto simp: draw_sample_def full_def Let_def split: if_splits)

lemma draw_sample_time:
  "draw_sample gap x s = (s', goes) \<Longrightarrow> drawn_before s' (ts_t x)"
  "draw_sample gap x s = (s', goes) \<Longrightarrow> drawn_before s t \<Longrightarrow> drawn_before s' t"
  by (auto simp: draw_sample_def drawn_before_def Let_def split: if_splits option.splits)

lemma draw_sample_skip: "drawn_before s (ts_t x) \<Longrightarrow> draw_sample gap x s = (s, True)"
  by (simp add: draw_sample_def)

lemma draw_sample_restart:
  "draw_sample gap x (s\<lparr>fp_generation := g\<rparr>) =
     (fst (draw_sample gap x s)\<lparr>fp_generation := g\<rparr>, snd (draw_sample gap x s))"
  by (auto simp: draw_sample_def drawn_before_def Let_def)

lemma draw_generation [simp]: "fp_generation (draw_samples gap xs s) = fp_generation s"
  by (induction xs arbitrary: s) (auto dest: draw_sample_generation split: prod.splits)

lemma draw_full: "full s \<Longrightarrow> fp_points (draw_samples gap xs s) = fp_points s"
proof (induction xs arbitrary: s)
  case (Cons x xs)
  obtain s' goes where x: "draw_sample gap x s = (s', goes)" by force
  have "fp_points s' = fp_points s" using draw_sample_full [OF x Cons.prems] .
  then show ?case using Cons x by (simp add: full_def)
qed simp

lemma draw_skip:
  "list_all (\<lambda>x. drawn_before s (ts_t x)) xs \<Longrightarrow> draw_samples gap (xs @ ys) s = draw_samples gap ys s"
  by (induction xs) (simp_all add: draw_sample_skip)

lemma drawn_before_mono: "drawn_before s t \<Longrightarrow> drawn_before (draw_samples gap xs s) t"
  by (induction xs arbitrary: s) (auto intro: draw_sample_time(2) split: prod.splits)

lemma draw_covers:
  assumes "\<not> full (draw_samples gap xs s)"
  shows "list_all (\<lambda>x. drawn_before (draw_samples gap xs s) (ts_t x)) xs
    \<and> draw_samples gap (xs @ ys) s = draw_samples gap ys (draw_samples gap xs s)"
  using assms
proof (induction xs arbitrary: s)
  case (Cons x xs)
  obtain s' goes where x: "draw_sample gap x s = (s', goes)" by force
  then have goes using Cons.prems draw_sample_break by (cases goes) auto
  then show ?case using Cons x drawn_before_mono [OF draw_sample_time(1) [OF x]] by simp
qed simp

lemma draw_full_append:
  assumes "full (draw_samples gap xs s)"
  shows "fp_points (draw_samples gap (xs @ ys) s) = fp_points (draw_samples gap xs s)"
  using assms by (induction xs arbitrary: s) (auto simp: draw_full split: prod.splits)

text \<open>Drawing a trail and then the longer trail draws what the longer trail draws at once.\<close>

lemma draw_twice:
  "fp_points (draw_samples gap (xs @ ys) (draw_samples gap xs s)) = fp_points (draw_samples gap (xs @ ys) s)"
proof (cases "full (draw_samples gap xs s)")
  case True
  then show ?thesis by (simp add: draw_full draw_full_append)
next
  case False
  then show ?thesis using draw_covers [OF False] by (simp add: draw_skip)
qed

section \<open>The contract of a feed\<close>

text \<open>
  What the twin sees: the feed starts, moves on, and frames of the twin run in between, in any
  order.
\<close>

inductive watch ::
  "(point \<Rightarrow> point \<Rightarrow> rat) \<Rightarrow> ('s \<Rightarrow> telemetry_sample list) \<Rightarrow> ('s \<Rightarrow> nat) \<Rightarrow> ('s \<Rightarrow> 's \<Rightarrow> bool)
     \<Rightarrow> 's \<Rightarrow> 's \<Rightarrow> flown_path \<Rightarrow> bool"
  for gap trail generation step start where
  watch_start: "watch gap trail generation step start start flown_start"
| watch_step: "watch gap trail generation step start s f \<Longrightarrow> step s s'
     \<Longrightarrow> watch gap trail generation step start s' f"
| watch_frame: "watch gap trail generation step start s f
     \<Longrightarrow> watch gap trail generation step start s (flown_frame gap (int (generation s)) (trail s) f)"

locale twin_feed =
  fixes trail :: "'s \<Rightarrow> telemetry_sample list"
    and generation :: "'s \<Rightarrow> nat"
    and step :: "'s \<Rightarrow> 's \<Rightarrow> bool"
  assumes generation_grows: "step s s' \<Longrightarrow> generation s \<le> generation s'"
    and trail_extends: "step s s' \<Longrightarrow> generation s' = generation s \<Longrightarrow> \<exists>newer. trail s' = trail s @ newer"
begin

text \<open>What the path has drawn of the trail \<open>drawn\<close>, and how it would go on.\<close>

definition in_step :: "(point \<Rightarrow> point \<Rightarrow> rat) \<Rightarrow> 's \<Rightarrow> flown_path \<Rightarrow> bool" where
  "in_step gap s f \<longleftrightarrow> fp_generation f \<le> int (generation s)
     \<and> (fp_generation f = int (generation s) \<longrightarrow>
          (\<exists>drawn rest. trail s = drawn @ rest
             \<and> (\<forall>later. fp_points (draw_samples gap (drawn @ later) f)
                  = fp_points (draw_samples gap (drawn @ later) flown_start))))"

lemma draw_restart:
  "fp_points (draw_samples gap xs \<lparr>fp_points = [], fp_last_time = None, fp_generation = g\<rparr>)
     = fp_points (draw_samples gap xs flown_start)"
proof -
  have "fp_points (draw_samples gap xs (s\<lparr>fp_generation := g\<rparr>)) = fp_points (draw_samples gap xs s)" for s
    by (induction xs arbitrary: s) (auto simp: draw_sample_restart split: prod.splits)
  from this [of flown_start] show ?thesis by (simp add: flown_start_def)
qed

lemma frame_from_scratch:
  assumes "in_step gap s f"
  shows "fp_points (flown_frame gap (int (generation s)) (trail s) f)
      = fp_points (draw_samples gap (trail s) flown_start)"
    and "in_step gap s (flown_frame gap (int (generation s)) (trail s) f)"
proof -
  let ?f0 = "if int (generation s) \<noteq> fp_generation f
    then f\<lparr>fp_generation := int (generation s), fp_points := [], fp_last_time := None\<rparr> else f"
  have frame: "flown_frame gap (int (generation s)) (trail s) f = draw_samples gap (trail s) ?f0"
    by (simp add: flown_frame_def Let_def)
  have same: "fp_points (draw_samples gap (trail s @ later) ?f0)
      = fp_points (draw_samples gap (trail s @ later) flown_start)" for later
  proof (cases "int (generation s) = fp_generation f")
    case True
    then obtain drawn rest where "trail s = drawn @ rest"
      "\<forall>later. fp_points (draw_samples gap (drawn @ later) f)
        = fp_points (draw_samples gap (drawn @ later) flown_start)"
      using assms by (auto simp: in_step_def)
    then show ?thesis using True by simp
  next
    case False
    then show ?thesis
      using draw_restart [of gap "trail s @ later" "int (generation s)"] by (cases f) simp
  qed
  show "fp_points (flown_frame gap (int (generation s)) (trail s) f)
      = fp_points (draw_samples gap (trail s) flown_start)"
    unfolding frame using same [of "[]"] by simp
  have "fp_points (draw_samples gap (trail s @ later) (draw_samples gap (trail s) ?f0))
      = fp_points (draw_samples gap (trail s @ later) flown_start)" for later
    by (simp only: draw_twice same)
  moreover have "fp_generation (draw_samples gap (trail s) ?f0) = int (generation s)"
    by simp
  ultimately show "in_step gap s (flown_frame gap (int (generation s)) (trail s) f)"
    unfolding frame in_step_def by (metis append_Nil2 order_refl)
qed

lemma step_in_step:
  assumes "in_step gap s f" "step s s'"
  shows "in_step gap s' f"
proof (cases "generation s' = generation s")
  case True
  then obtain newer where "trail s' = trail s @ newer" using trail_extends assms(2) by blast
  then have "\<exists>rest'. trail s' = drawn @ rest'" if "trail s = drawn @ rest" for drawn rest
    using that by simp
  then show ?thesis using assms(1) True unfolding in_step_def by metis
next
  case False
  then have "generation s < generation s'" using generation_grows [OF assms(2)] by simp
  then show ?thesis using assms(1) by (simp add: in_step_def)
qed

lemma watch_in_step: "watch gap trail generation step start s f \<Longrightarrow> in_step gap s f"
proof (induction rule: watch.induct)
  case watch_start
  show ?case by (simp add: in_step_def flown_start_def)
qed (auto intro: step_in_step frame_from_scratch(2))

lemma path_from_scratch:
  "watch gap trail generation step start s f
     \<Longrightarrow> fp_points (flown_frame gap (int (generation s)) (trail s) f)
          = fp_points (draw_samples gap (trail s) flown_start)"
  using watch_in_step frame_from_scratch(1) by blast

end

section \<open>A feed that forgets\<close>

text \<open>
  A feed may cut the oldest samples of its trail. As long as the path has drawn every sample that
  is cut, a frame does what it would do on the uncut trail.
\<close>

definition none_missed :: "int \<Rightarrow> telemetry_sample list \<Rightarrow> flown_path \<Rightarrow> bool" where
  "none_missed generation forgotten f \<longleftrightarrow>
     forgotten = [] \<or> fp_generation f = generation \<and> list_all (\<lambda>x. drawn_before f (ts_t x)) forgotten"

inductive watch_window ::
  "(point \<Rightarrow> point \<Rightarrow> rat) \<Rightarrow> ('s \<Rightarrow> telemetry_sample list) \<Rightarrow> ('s \<Rightarrow> telemetry_sample list) \<Rightarrow> ('s \<Rightarrow> nat)
     \<Rightarrow> ('s \<Rightarrow> 's \<Rightarrow> bool) \<Rightarrow> 's \<Rightarrow> 's \<Rightarrow> flown_path \<Rightarrow> bool"
  for gap forgotten trail generation step start where
  window_start: "watch_window gap forgotten trail generation step start start flown_start"
| window_step: "watch_window gap forgotten trail generation step start s f \<Longrightarrow> step s s'
     \<Longrightarrow> watch_window gap forgotten trail generation step start s' f"
| window_frame: "watch_window gap forgotten trail generation step start s f
     \<Longrightarrow> none_missed (int (generation s)) (forgotten s) f
     \<Longrightarrow> watch_window gap forgotten trail generation step start s (flown_frame gap (int (generation s)) (trail s) f)"

lemma frame_window:
  assumes "none_missed g forgotten f"
  shows "flown_frame gap g trail f = flown_frame gap g (forgotten @ trail) f"
proof (cases "forgotten = []")
  case False
  then have f: "fp_generation f = g" "list_all (\<lambda>x. drawn_before f (ts_t x)) forgotten"
    using assms by (auto simp: none_missed_def)
  show ?thesis using False draw_skip [OF f(2), of gap trail] by (simp add: flown_frame_def f(1))
qed simp

lemma window_watch:
  "watch_window gap forgotten trail generation step start s f
     \<Longrightarrow> watch gap (\<lambda>s. forgotten s @ trail s) generation step start s f"
proof (induction rule: watch_window.induct)
  case window_start
  show ?case by (rule watch_start)
next
  case (window_step s f s')
  from watch_step [where step = step, OF window_step.IH window_step.hyps(2)] show ?case .
next
  case (window_frame s f)
  show ?case
    unfolding frame_window [OF window_frame.hyps(2), of gap "trail s"] by (rule watch_frame [OF window_frame.IH])
qed

end
