(* ===== verification/Replay.thy ===== *)
theory Replay
  imports MissionPanels TimelineView JSText FlownPath
begin

text \<open>
  apps/web/src/components/runs/replay-tab.tsx: the replay of a stored recording. The state is the
  React state (cursor, playing, speed), the refs the digital twin reads (time, trail, sample,
  generation) and the animation loop the effect keeps while playing; the actions are the controls,
  the animation frames and a refetch of the recording. Times are doubles.
\<close>

section \<open>State\<close>

definition REPLAY_SPEEDS :: "(string \<times> string) list" where
  "REPLAY_SPEEDS = [(''1'', ''1x''), (''2'', ''2x''), (''5'', ''5x''), (''10'', ''10x'')]"

definition index_at :: "telemetry_sample list \<Rightarrow> rat \<Rightarrow> nat" where
  "index_at samples time =
     (case search_up_to (length samples) samples time 0 (int (length samples)) of
        Some low \<Rightarrow> nat low
      | None \<Rightarrow> 0)"

text \<open>\<open>samples[Math.max(0, indexAt(samples, time) - 1)] ?? null\<close>\<close>

definition sample_shown :: "telemetry_sample list \<Rightarrow> rat \<Rightarrow> telemetry_sample option" where
  "sample_shown samples time = sample_at samples (max 0 (int (index_at samples time) - 1))"

record recording =
  rc_samples :: "telemetry_sample list"
  rc_events :: "run_event list"
  rc_topology :: "topology option"
  rc_duration :: rat

record frame_loop =
  fr_last :: rat
  fr_published :: rat
  fr_factor :: rat

record replay =
  rp_cursor :: rat
  rp_playing :: bool
  rp_speed :: string
  rp_time :: rat
  rp_trail :: "telemetry_sample list"
  rp_sample :: "telemetry_sample option"
  rp_generation :: nat
  rp_loop :: "frame_loop option"

definition apply_cursor :: "recording \<Rightarrow> rat \<Rightarrow> bool \<Rightarrow> replay \<Rightarrow> replay" where
  "apply_cursor r time seek s =
     (let clamped = min (max time 0) (rc_duration r)
      in s\<lparr>rp_time := clamped,
           rp_trail := take (index_at (rc_samples r) clamped) (rc_samples r),
           rp_sample := sample_shown (rc_samples r) clamped,
           rp_generation := (if seek then rp_generation s + 1 else rp_generation s)\<rparr>)"

text \<open>\<open>setCursor(applyCursor(time, true))\<close>\<close>

definition seek_to :: "recording \<Rightarrow> rat \<Rightarrow> replay \<Rightarrow> replay" where
  "seek_to r time s = (let t = apply_cursor r time True s in t\<lparr>rp_cursor := rp_time t\<rparr>)"

text \<open>\<open>Number(speed)\<close>; the speeds on offer are finite.\<close>

definition speed_factor :: "string \<Rightarrow> rat" where
  "speed_factor speed = (case parse_number speed of Fin x \<Rightarrow> x | _ \<Rightarrow> 0)"

text \<open>The effect of the animation, when one of its inputs changed: it stops, or starts afresh.\<close>

definition restart_loop :: "rat \<Rightarrow> replay \<Rightarrow> replay" where
  "restart_loop now s =
     s\<lparr>rp_loop := (if rp_playing s
        then Some \<lparr>fr_last = now, fr_published = 0, fr_factor = speed_factor (rp_speed s)\<rparr> else None)\<rparr>"

definition replay_frame :: "recording \<Rightarrow> rat \<Rightarrow> frame_loop \<Rightarrow> replay \<Rightarrow> replay" where
  "replay_frame r now l s =
     (let delta = fl (fl (now - fr_last l) / 1000);
          s1 = apply_cursor r (fl (rp_time s + fl (delta * fr_factor l))) False s;
          publish = (fl (now - fr_published l) > 100);
          s2 = (if publish then s1\<lparr>rp_cursor := rp_time s1\<rparr> else s1)
      in if rp_time s1 \<ge> rc_duration r
         then s2\<lparr>rp_cursor := rp_time s1, rp_playing := False, rp_loop := None\<rparr>
         else s2\<lparr>rp_loop := Some (l\<lparr>fr_last := now,
                   fr_published := (if publish then now else fr_published l)\<rparr>)\<rparr>)"

datatype replay_action =
    Frame rat
  | Play_or_pause rat
  | Restart_replay
  | Slide "rat option"
  | Set_replay_speed string rat
  | Refetched rat

fun replay_step :: "recording \<Rightarrow> replay_action \<Rightarrow> replay \<Rightarrow> replay" where
  "replay_step r (Frame now) s = (case rp_loop s of None \<Rightarrow> s | Some l \<Rightarrow> replay_frame r now l s)"
| "replay_step r (Play_or_pause now) s =
     (let s1 = (if rp_time s \<ge> rc_duration r then seek_to r 0 s else s)
      in restart_loop now (s1\<lparr>rp_playing := \<not> rp_playing s\<rparr>))"
| "replay_step r Restart_replay s = (seek_to r 0 s)\<lparr>rp_playing := False, rp_loop := None\<rparr>"
| "replay_step r (Slide v) s = (seek_to r (nullish v 0) s)\<lparr>rp_playing := False, rp_loop := None\<rparr>"
| "replay_step r (Set_replay_speed speed now) s =
     (if speed = rp_speed s then s else restart_loop now (s\<lparr>rp_speed := speed\<rparr>))"
| "replay_step r (Refetched now) s = restart_loop now (apply_cursor r (rp_time s) True s)"

text \<open>The mounted component, after its first effects.\<close>

definition replay_start :: "recording \<Rightarrow> replay" where
  "replay_start r =
     apply_cursor r 0 True
       \<lparr>rp_cursor = 0, rp_playing = False, rp_speed = ''1'', rp_time = 0, rp_trail = [],
        rp_sample = None, rp_generation = 0, rp_loop = None\<rparr>"

definition replay_run :: "recording \<Rightarrow> replay_action list \<Rightarrow> replay \<Rightarrow> replay" where
  "replay_run r = fold (replay_step r)"

section \<open>The page\<close>

definition visible_events :: "recording \<Rightarrow> replay \<Rightarrow> run_event list" where
  "visible_events r s = filter (\<lambda>e. ev_simulation_time e \<le> rp_cursor s) (rc_events r)"

record replay_panels =
  rg_playing_text :: string
  rg_time :: string
  rg_duration :: string
  rg_system :: system_panel_view
  rg_alerts :: alerts_view
  rg_event_count :: nat
  rg_feed :: feed_view
  rg_timeline :: "timeline_view option"
  rg_no_track :: bool
  rg_blast :: blast_view

datatype replay_page = No_telemetry | Replay_page replay_panels

definition replay_page_of ::
  "(string \<Rightarrow> string \<Rightarrow> int) \<Rightarrow> rat \<Rightarrow> recording \<Rightarrow> replay \<Rightarrow> replay_page" where
  "replay_page_of collate width r s =
     (let components = component_map (rc_topology r);
          names = component_name_map (rc_topology r);
          visible = visible_events r s;
          sample = sample_shown (rc_samples r) (rp_cursor s);
          health = current_health sample visible;
          tracks = build_timeline collate visible components (max (rp_cursor s) 1) [];
          containment = live_containment_kpis visible components
      in if rc_samples r = [] then No_telemetry
         else Replay_page
          \<lparr>rg_playing_text = (if rp_playing s then ''Pause'' else ''Play''),
           rg_time = format_mission_time (num (rp_cursor s)),
           rg_duration = format_mission_time (num (rc_duration r)),
           rg_system = system_panel (group_by_domain (rc_topology r)) health,
           rg_alerts = active_alerts_view (active_alerts sample names),
           rg_event_count = length visible,
           rg_feed = event_feed (take 80 (rev visible)) ''No event before this time'',
           rg_timeline = (if tracks = [] then None
             else state_timeline width tracks (injection_markers visible) (rp_cursor s) (rc_duration r)),
           rg_no_track = (tracks = []),
           rg_blast = blast_radius
             \<lparr>bp_components = components, bp_injected = set_of_list (lc_injected containment),
              bp_affected = set_of_list (lc_affected containment), bp_health = health,
              bp_boundary = mission_flight_boundary (rc_topology r),
              bp_affected_domains = lc_affected_domains containment,
              bp_flight_domain_affected = lc_flight_domain_affected containment\<rparr>\<rparr>)"

section \<open>What the refs hold\<close>

lemma index_at_filter:
  assumes "length samples < 2 ^ 30" "sorted (map ts_t samples)"
  shows "take (index_at samples t) samples = filter (\<lambda>s. ts_t s \<le> t) samples"
    and "index_at samples t \<le> length samples"
  by (rule search_up_to_exact [OF assms(1), of t], use assms(2) in \<open>simp add: index_at_def\<close>)+

text \<open>
  What the refs hold for a time: the samples up to it and the newest of them, or the first of
  the recording while none of them is reached.
\<close>

definition shows_time :: "recording \<Rightarrow> rat \<Rightarrow> replay \<Rightarrow> bool" where
  "shows_time r t s \<longleftrightarrow>
     rp_time s = t \<and> 0 \<le> t \<and> t \<le> rc_duration r
     \<and> rp_trail s = filter (\<lambda>x. ts_t x \<le> t) (rc_samples r)
     \<and> rp_sample s = (case rc_samples r of [] \<Rightarrow> None
          | x # _ \<Rightarrow> if rp_trail s = [] then Some x else Some (last (rp_trail s)))"

definition recording_ok :: "recording \<Rightarrow> bool" where
  "recording_ok r \<longleftrightarrow>
     length (rc_samples r) < 2 ^ 30 \<and> sorted (map ts_t (rc_samples r)) \<and> 0 \<le> rc_duration r
     \<and> fl (rc_duration r) = rc_duration r"

lemma sample_shown_last:
  assumes "length samples < 2 ^ 30" "sorted (map ts_t samples)"
  shows "sample_shown samples t = (case samples of [] \<Rightarrow> None
    | x # _ \<Rightarrow> if filter (\<lambda>x. ts_t x \<le> t) samples = [] then Some x
               else Some (last (filter (\<lambda>x. ts_t x \<le> t) samples)))"
proof (cases samples)
  case Nil
  then show ?thesis by (simp add: sample_shown_def sample_at_def)
next
  case (Cons x xs)
  define k where "k = index_at samples t"
  have k: "filter (\<lambda>x. ts_t x \<le> t) samples = take k samples" "k \<le> length samples"
    using index_at_filter [OF assms, of t] by (simp_all add: k_def)
  have shown: "sample_shown samples t = sample_at samples (max 0 (int k - 1))"
    by (simp add: sample_shown_def k_def)
  show ?thesis
  proof (cases k)
    case 0
    then show ?thesis unfolding k(1) shown using Cons by (simp add: sample_at_def)
  next
    case (Suc m)
    then have "last (take k samples) = samples ! m" "m < length samples"
      using k(2) by (simp_all add: take_Suc_conv_app_nth)
    then show ?thesis
      unfolding k(1) shown using Suc Cons by (simp add: sample_at_def)
  qed
qed

lemma apply_cursor_shows:
  assumes "recording_ok r"
  shows "shows_time r (min (max time 0) (rc_duration r)) (apply_cursor r time seek s)"
  using assms
  by (auto simp: recording_ok_def apply_cursor_def Let_def shows_time_def index_at_filter
      sample_shown_last split: list.split)

section \<open>Properties\<close>

text \<open>The speed control only offers its options, and the slider only doubles.\<close>

definition offered_action :: "replay_action \<Rightarrow> bool" where
  "offered_action a =
     (case a of Set_replay_speed speed _ \<Rightarrow> speed \<in> set (map fst REPLAY_SPEEDS)
      | Slide (Some v) \<Rightarrow> fl v = v | _ \<Rightarrow> True)"

definition replay_ok :: "recording \<Rightarrow> replay \<Rightarrow> bool" where
  "replay_ok r s \<longleftrightarrow>
     shows_time r (rp_time s) s \<and> fl (rp_time s) = rp_time s
     \<and> 0 \<le> rp_cursor s \<and> rp_cursor s \<le> rc_duration r
     \<and> rp_speed s \<in> set (map fst REPLAY_SPEEDS)
     \<and> (rp_playing s \<longleftrightarrow> rp_loop s \<noteq> None)
     \<and> (\<forall>l. rp_loop s = Some l \<longrightarrow> fr_factor l = speed_factor (rp_speed s))"

lemma shows_time_cong:
  "shows_time r t (s\<lparr>rp_cursor := c\<rparr>) = shows_time r t s"
  "shows_time r t (s\<lparr>rp_playing := p\<rparr>) = shows_time r t s"
  "shows_time r t (s\<lparr>rp_speed := v\<rparr>) = shows_time r t s"
  "shows_time r t (s\<lparr>rp_loop := l\<rparr>) = shows_time r t s"
  by (simp_all add: shows_time_def split: list.split)

lemma apply_cursor_fields [simp]:
  "rp_cursor (apply_cursor r t seek s) = rp_cursor s"
  "rp_playing (apply_cursor r t seek s) = rp_playing s"
  "rp_speed (apply_cursor r t seek s) = rp_speed s"
  "rp_loop (apply_cursor r t seek s) = rp_loop s"
  "rp_time (apply_cursor r t seek s) = min (max t 0) (rc_duration r)"
  "rp_generation (apply_cursor r t seek s) = (if seek then rp_generation s + 1 else rp_generation s)"
  by (simp_all add: apply_cursor_def Let_def)

lemma fl_min_max: "fl t = t \<Longrightarrow> fl b = b \<Longrightarrow> fl (min (max t 0) b) = min (max t 0) b"
  by (simp add: min_def max_def)

lemma apply_cursor_ok:
  assumes "recording_ok r" "replay_ok r s" "fl t = t"
  shows "replay_ok r (apply_cursor r t seek s)" "replay_ok r (seek_to r t s)"
  using assms fl_min_max [OF assms(3), of "rc_duration r"] apply_cursor_shows [OF assms(1), of t]
  by (auto simp: replay_ok_def seek_to_def Let_def shows_time_cong recording_ok_def)

lemma replay_ok_fields:
  "replay_ok r s \<Longrightarrow> replay_ok r (s\<lparr>rp_playing := False, rp_loop := None\<rparr>)"
  "replay_ok r s \<Longrightarrow> replay_ok r (restart_loop now (s\<lparr>rp_playing := p\<rparr>))"
  "replay_ok r s \<Longrightarrow> v \<in> set (map fst REPLAY_SPEEDS) \<Longrightarrow> replay_ok r (restart_loop now (s\<lparr>rp_speed := v\<rparr>))"
  "replay_ok r s \<Longrightarrow> replay_ok r (restart_loop now s)"
  by (auto simp: replay_ok_def restart_loop_def shows_time_cong)

lemma replay_frame_ok:
  assumes "recording_ok r" "replay_ok r s" "rp_loop s = Some l"
  shows "replay_ok r (replay_frame r now l s)"
proof -
  let ?s1 = "apply_cursor r (fl (rp_time s + fl (fl (fl (now - fr_last l) / 1000) * fr_factor l))) False s"
  have s1: "replay_ok r ?s1" by (rule apply_cursor_ok [OF assms(1,2)]) simp
  then have range: "0 \<le> rp_time ?s1" "rp_time ?s1 \<le> rc_duration r"
    unfolding replay_ok_def shows_time_def by blast+
  have "rp_playing s" "fr_factor l = speed_factor (rp_speed s)"
    using assms(2,3) by (auto simp: replay_ok_def)
  then show ?thesis
    using s1 range by (auto simp: replay_frame_def Let_def replay_ok_def shows_time_cong simp del: apply_cursor_fields(5))
qed

lemma replay_step_ok:
  assumes "recording_ok r" "replay_ok r s" "offered_action a"
  shows "replay_ok r (replay_step r a s)"
proof -
  have "fl (rp_time s) = rp_time s" using assms(2) by (simp add: replay_ok_def)
  then show ?thesis
    using assms by (cases a) (auto simp: Let_def offered_action_def nullish_def replay_frame_ok apply_cursor_ok
        replay_ok_fields split: option.splits)
qed

lemma replay_start_ok: "recording_ok r \<Longrightarrow> replay_ok r (replay_start r)"
  using apply_cursor_shows [of r 0 True]
  by (auto simp: replay_ok_def replay_start_def REPLAY_SPEEDS_def recording_ok_def)


definition two_samples :: recording where
  "two_samples =
     \<lparr>rc_samples = [sample_example\<lparr>ts_t := 1\<rparr>, sample_example\<lparr>ts_t := 2\<rparr>], rc_events = [],
      rc_topology = None, rc_duration = 3\<rparr>"

lemma two_samples_ok: "recording_ok two_samples"
  by (simp add: recording_ok_def two_samples_def fl_simps)


section \<open>The contract of the digital twin\<close>

text \<open>
  The twin draws the trail incrementally and starts again only when the generation changes. A
  frame is timely when the clock did not go back.
\<close>

definition timely :: "replay_action \<Rightarrow> replay \<Rightarrow> bool" where
  "timely a s = (case a of Frame now \<Rightarrow> (case rp_loop s of None \<Rightarrow> True | Some l \<Rightarrow> fr_last l \<le> now)
                 | _ \<Rightarrow> True)"

lemma filter_le_prefix:
  assumes "a \<le> b" "sorted (map f xs)"
  shows "\<exists>ys. filter (\<lambda>x. f x \<le> b) xs = filter (\<lambda>x. f x \<le> a) xs @ ys"
  using assms
proof (induction xs)
  case (Cons x xs)
  show ?case
  proof (cases "f x \<le> a")
    case True
    then show ?thesis using Cons by auto
  next
    case False
    then have "filter (\<lambda>x. f x \<le> a) (x # xs) = []"
      using Cons.prems by (auto simp: filter_empty_conv)
    then show ?thesis by simp
  qed
qed simp

lemma speed_factor_offered:
  assumes "v \<in> set (map fst REPLAY_SPEEDS)"
  shows "1 \<le> speed_factor v"
proof -
  have "list_all (\<lambda>v. 1 \<le> speed_factor v) (map fst REPLAY_SPEEDS)" by code_simp
  then show ?thesis using assms by (simp only: list_all_iff)
qed

lemma replay_frame_fields:
  "rp_time (replay_frame r now l s) = min (max (fl (rp_time s + fl (fl (fl (now - fr_last l) / 1000) * fr_factor l))) 0)
     (rc_duration r)"
  "rp_generation (replay_frame r now l s) = rp_generation s"
  by (simp_all add: replay_frame_def Let_def)

lemma frame_later:
  assumes "replay_ok r s" "rp_loop s = Some l" "fr_last l \<le> now"
  shows "rp_time s \<le> rp_time (replay_frame r now l s)"
proof -
  have "0 \<le> fr_factor l"
    using assms(1,2) speed_factor_offered by (fastforce simp: replay_ok_def)
  then have "0 \<le> fl (fl (fl (now - fr_last l) / 1000) * fr_factor l)"
    using assms(3) by (intro fl_nonneg mult_nonneg_nonneg divide_nonneg_nonneg) simp_all
  then have "fl (rp_time s) \<le> fl (rp_time s + fl (fl (fl (now - fr_last l) / 1000) * fr_factor l))"
    by (intro fl_mono) simp
  then show ?thesis using assms(1) by (simp add: replay_frame_fields replay_ok_def shows_time_def)
qed

lemma replay_trail_extends:
  assumes "recording_ok r" "replay_ok r s" "offered_action a" "timely a s"
    and "rp_generation (replay_step r a s) = rp_generation s"
  shows "\<exists>newer. rp_trail (replay_step r a s) = rp_trail s @ newer"
proof -
  let ?t = "replay_step r a s"
  have ok: "replay_ok r ?t" by (rule replay_step_ok [OF assms(1-3)])
  have "rp_time s \<le> rp_time ?t"
    using assms by (cases a) (auto simp: timely_def seek_to_def restart_loop_def Let_def frame_later
        split: option.splits)
  then obtain newer where "filter (\<lambda>x. ts_t x \<le> rp_time ?t) (rc_samples r)
      = filter (\<lambda>x. ts_t x \<le> rp_time s) (rc_samples r) @ newer"
    using filter_le_prefix [of "rp_time s" "rp_time ?t" ts_t "rc_samples r"] assms(1)
    by (auto simp: recording_ok_def)
  then show ?thesis using ok assms(2) by (simp add: replay_ok_def shows_time_def)
qed

lemma replay_generation_grows: "rp_generation s \<le> rp_generation (replay_step r a s)"
  by (cases a) (auto simp: seek_to_def restart_loop_def Let_def replay_frame_fields split: option.split)

text \<open>The steps of a replay as a feed; its frames come in the order of time.\<close>

definition feed_step :: "recording \<Rightarrow> replay \<Rightarrow> replay \<Rightarrow> bool" where
  "feed_step r s s' \<longleftrightarrow> recording_ok r \<and> replay_ok r s
     \<and> (\<exists>a. offered_action a \<and> timely a s \<and> s' = replay_step r a s)"

interpretation replay_feed: twin_feed rp_trail rp_generation "feed_step r" for r
proof
  show "rp_generation s \<le> rp_generation s'" if "feed_step r s s'" for s s'
    using that replay_generation_grows by (auto simp: feed_step_def)
  show "\<exists>newer. rp_trail s' = rp_trail s @ newer"
    if "feed_step r s s'" "rp_generation s' = rp_generation s" for s s'
    using that replay_trail_extends by (auto simp: feed_step_def)
qed

lemma watch_ok:
  assumes "recording_ok r" "watch gap rp_trail rp_generation (feed_step r) (replay_start r) s f"
  shows "replay_ok r s"
  using assms(2) by induction (auto simp: feed_step_def replay_start_ok [OF assms(1)] intro: replay_step_ok)



section \<open>Playing to the end\<close>

fun spaced :: "rat \<Rightarrow> rat list \<Rightarrow> bool" where
  "spaced prev [] = True"
| "spaced prev (now # nows) = (prev + 1 \<le> now \<and> spaced now nows)"

lemma fl_grid: "\<bar>m\<bar> \<le> 2 ^ 53 \<Longrightarrow> fl (of_int m / 2 ^ 20) = of_int m / 2 ^ 20"
  using fl_exact [of m "-20"] by (simp add: pow2_def field_simps)

lemma fl_advance:
  assumes "0 \<le> j" "j \<le> 2 ^ 52" "of_int j / 2 ^ 20 \<le> x" "1000 / 2 ^ 20 \<le> inc"
  shows "of_int (j + 1000) / 2 ^ 20 \<le> fl (x + inc)"
proof -
  have "of_int (j + 1000) / 2 ^ 20 \<le> x + inc" using assms(3,4) by (simp add: add_divide_distrib)
  then have "fl (of_int (j + 1000) / 2 ^ 20) \<le> fl (x + inc)" by (rule fl_mono)
  moreover have "fl (of_int (j + 1000) / 2 ^ 20 :: rat) = of_int (j + 1000) / 2 ^ 20"
    using assms(1,2) by (intro fl_grid) simp
  ultimately show ?thesis by metis
qed

lemma frame_increment:
  assumes "prev + 1 \<le> now" "1 \<le> factor"
  shows "1000 / 2 ^ 20 \<le> fl (fl (fl (now - prev) / 1000) * factor)"
proof -
  have g: "fl (1000 / 2 ^ 20) = 1000 / 2 ^ 20" using fl_grid [of 1000] by simp
  have "1 \<le> fl (now - prev)" using fl_mono [of 1 "now - prev"] assms(1) by simp
  then have "1000 / 2 ^ 20 \<le> fl (now - prev) / 1000" by (simp add: field_simps)
  from fl_mono [OF this] have "1000 / 2 ^ 20 \<le> fl (fl (now - prev) / 1000)" unfolding g .
  then have "1000 / 2 ^ 20 * 1 \<le> fl (fl (now - prev) / 1000) * factor"
    using assms(2) by (intro mult_mono) auto
  then have "1000 / 2 ^ 20 \<le> fl (fl (now - prev) / 1000) * factor" by simp
  from fl_mono [OF this] show ?thesis unfolding g .
qed

lemma frames_stopped: "rp_loop s = None \<Longrightarrow> replay_run r (map Frame nows) s = s"
  unfolding replay_run_def by (induction nows) simp_all

definition at_end :: "recording \<Rightarrow> replay \<Rightarrow> bool" where
  "at_end r s \<longleftrightarrow> \<not> rp_playing s \<and> rp_time s = rc_duration r \<and> rp_cursor s = rc_duration r"

lemma frame_stops:
  assumes "rc_duration r \<le> rp_time (replay_frame r now l s)"
  shows "at_end r (replay_frame r now l s)" "rp_loop (replay_frame r now l s) = None"
  using assms unfolding replay_frame_fields by (auto simp: at_end_def replay_frame_def Let_def)

lemma frame_continues:
  assumes "rp_time (replay_frame r now l s) < rc_duration r"
  shows "rp_loop (replay_frame r now l s) = Some (l\<lparr>fr_last := now, fr_published :=
      (if fl (now - fr_published l) > 100 then now else fr_published l)\<rparr>)"
  using assms unfolding replay_frame_fields by (auto simp: replay_frame_def Let_def)

lemma frames_reach_end:
  assumes "rp_loop s = Some l" "1 \<le> fr_factor l" "spaced (fr_last l) nows"
    and "rp_time s < rc_duration r" "0 \<le> j" "of_int j / 2 ^ 20 \<le> rp_time s"
    and "0 < rc_duration r" "rc_duration r \<le> 2 ^ 30"
    and "rc_duration r * 2 ^ 20 \<le> of_int j + 1000 * of_nat (length nows)"
  shows "at_end r (replay_run r (map Frame nows) s)"
  using assms
proof (induction nows arbitrary: s l j)
  case Nil
  then have "rc_duration r \<le> of_int j / 2 ^ 20" by (simp add: field_simps)
  with Nil show ?case by simp
next
  case (Cons now nows)
  let ?t = "replay_frame r now l s"
  let ?inc = "fl (fl (fl (now - fr_last l) / 1000) * fr_factor l)"
  have "(of_int j :: rat) < 2 ^ 50"
    using Cons.prems(4,6,8) by (simp add: field_simps)
  then have "(of_int j :: rat) < of_int (2 ^ 50)" by simp
  then have j: "j < 2 ^ 50" by (simp only: of_int_less_iff)
  have "1000 / 2 ^ 20 \<le> ?inc" using Cons.prems(2,3) by (intro frame_increment) simp_all
  then have adv: "of_int (j + 1000) / 2 ^ 20 \<le> fl (rp_time s + ?inc)"
    using Cons.prems(5,6) j by (intro fl_advance) simp_all
  have step: "replay_run r (map Frame (now # nows)) s = replay_run r (map Frame nows) ?t"
    using Cons.prems(1) by (simp add: replay_run_def)
  show ?case
  proof (cases "rp_time ?t \<ge> rc_duration r")
    case True
    from frame_stops [OF this] show ?thesis unfolding step by (simp add: frames_stopped)
  next
    case False
    then have t: "fl (rp_time s + ?inc) < rc_duration r" "rp_time ?t = max (fl (rp_time s + ?inc)) 0"
      by (auto simp: replay_frame_fields min_def max_def split: if_splits)
    have "rp_loop ?t = Some (l\<lparr>fr_last := now, fr_published :=
        (if fl (now - fr_published l) > 100 then now else fr_published l)\<rparr>)"
      using False by (simp add: frame_continues)
    moreover have "of_int (j + 1000) / 2 ^ 20 \<le> rp_time ?t" using adv t(2) by simp
    ultimately show ?thesis
      unfolding step using Cons.prems False by (intro Cons.IH [where j = "j + 1000" and l = "l\<lparr>fr_last := now,
        fr_published := (if fl (now - fr_published l) > 100 then now else fr_published l)\<rparr>"]) simp_all
  qed
qed

text \<open>
  C24. Playing reaches the end of the recording: from every state the controls can lead to, with
  frames at least one millisecond apart, pressing play stops by itself, with the cursor on the
  end, after at most 1049 frames per second of the recording (at most 2^30 seconds).
\<close>

theorem replay_reaches_end:
  assumes "recording_ok r" "list_all offered_action actions" "0 < rc_duration r" "rc_duration r \<le> 2 ^ 30"
    and "\<not> rp_playing (replay_run r actions (replay_start r))"
    and "spaced now nows" "1049 * rc_duration r \<le> of_nat (length nows)"
  shows "at_end r (replay_run r (actions @ Play_or_pause now # map Frame nows) (replay_start r))"
proof -
  define s where "s = replay_run r actions (replay_start r)"
  have ok: "replay_ok r s" unfolding s_def
    using assms(2) replay_start_ok [OF assms(1)] unfolding replay_run_def
    by (induction actions arbitrary: s rule: rev_induct) (simp_all add: replay_step_ok [OF assms(1)])
  define u where "u = replay_step r (Play_or_pause now) s"
  have time: "0 \<le> rp_time s" using ok by (simp add: replay_ok_def shows_time_def)
  have "1 \<le> speed_factor (rp_speed s)" using ok by (simp add: replay_ok_def speed_factor_offered)
  moreover have "rp_loop u = Some \<lparr>fr_last = now, fr_published = 0, fr_factor = speed_factor (rp_speed s)\<rparr>"
    "rp_time u < rc_duration r" "0 \<le> rp_time u"
    using assms(3,5) time by (auto simp: u_def restart_loop_def seek_to_def Let_def s_def)
  moreover have "rc_duration r * 2 ^ 20 \<le> 1000 * of_nat (length nows)"
    using assms(3,7) by simp
  ultimately have "at_end r (replay_run r (map Frame nows) u)"
    using assms(3,4,6) by (intro frames_reach_end [where j = 0 and s = u and
        l = "\<lparr>fr_last = now, fr_published = 0, fr_factor = speed_factor (rp_speed s)\<rparr>"]) simp_all
  then show ?thesis by (simp add: replay_run_def u_def s_def)
qed

lemma spaced_upt: "spaced (of_nat k) (map of_nat [Suc k..<n])"
proof (induction "n - Suc k" arbitrary: k)
  case (Suc m)
  then have "[Suc k..<n] = Suc k # [Suc (Suc k)..<n]" by (intro upt_conv_Cons) simp
  moreover have "spaced (of_nat (Suc k)) (map of_nat [Suc (Suc k)..<n])" using Suc by (intro Suc(1)) simp
  ultimately show ?case by simp
qed simp

theorem replay_reaches_end_witness:
  "at_end two_samples (replay_run two_samples
     ([Set_replay_speed ''2'' 0] @ Play_or_pause 0 # map Frame (map of_nat [1..<3200])) (replay_start two_samples))"
proof (rule replay_reaches_end [OF two_samples_ok])
  show "list_all offered_action [Set_replay_speed ''2'' 0]" by (simp add: offered_action_def REPLAY_SPEEDS_def)
  show "0 < rc_duration two_samples" "rc_duration two_samples \<le> 2 ^ 30"
    "1049 * rc_duration two_samples \<le> of_nat (length (map of_nat [1..<3200]))"
    by (simp_all add: two_samples_def)
  show "\<not> rp_playing (replay_run two_samples [Set_replay_speed ''2'' 0] (replay_start two_samples))"
    by (simp add: replay_run_def replay_start_def restart_loop_def)
  show "spaced 0 (map of_nat [1..<3200])" using spaced_upt [of 0 3200] by simp
qed

text \<open>
  The panels follow the cursor, which a frame publishes only every 100 ms, and pausing does not
  publish it: a paused replay can show the panels of an earlier time than the twin, by up to a
  second at 10x.
\<close>

lemma paused_panels_lag:
  "let s = replay_run (two_samples\<lparr>rc_duration := 9\<rparr>)
         [Set_replay_speed ''10'' 0, Play_or_pause 1000, Frame 1150, Frame 1240, Play_or_pause 1250]
         (replay_start two_samples)
   in \<not> rp_playing s \<and> rp_cursor s = 3 / 2 \<and> 23 / 10 < rp_time s"
  by code_simp

end
