(* ===== verification/RunDetail.thy ===== *)
theory RunDetail
  imports RunAnalysis Replay RunsPage MissionControl
begin

text \<open>
  app/runs/[id]/run-detail-view.tsx: the page of one run. It asks for the run, its events, its
  telemetry and its metrics, and composes the header, the summary and the seven tabs.
\<close>

section \<open>Queries\<close>

text \<open>What the query library hands out for a query.\<close>

record 'a fetched =
  qf_data :: "'a option"
  qf_error :: "thrown option"
  qf_loading :: bool

record page_queries =
  pq_run :: query
  pq_events :: query
  pq_telemetry :: query
  pq_metrics :: query
  pq_system :: query

definition run_page_queries :: "string \<Rightarrow> run_detail option \<Rightarrow> page_queries" where
  "run_page_queries runId run =
     \<lparr>pq_run = use_run (Some runId) True,
      pq_events = use_run_events (Some runId) (run \<noteq> None) 5000,
      pq_telemetry = use_run_telemetry (Some runId) (run \<noteq> None) 3000,
      pq_metrics = use_run_metrics (Some runId)
        (case run of None \<Rightarrow> False | Some r \<Rightarrow> rs_state r = RS_COMPLETED),
      pq_system = use_system_info\<rparr>"

record detail_inputs =
  dn_system :: "system_data option"
  dn_cancel_pending :: bool
  dn_run :: "run_detail fetched"
  dn_events :: "run_event list fetched"
  dn_telemetry :: "telemetry_sample list fetched"
  dn_metrics :: "metrics_response fetched"

section \<open>Header and summary\<close>

text \<open>A summary item: label, value and tone.\<close>

definition summary_grid :: "report_summary \<Rightarrow> (string \<times> string \<times> tone option) list" where
  "summary_grid s =
     [(''Mission complete'', bool_text (rp_mission_complete s),
       Some (if rp_mission_complete s then Ok else Warn)),
      (''Faults injected / applied'',
       int_text (rp_faults_injected s) @ '' / '' @ int_text (rp_faults_applied s), None),
      (''Critical failures'', int_text (rp_critical_failures s),
       Some (if rp_critical_failures s > 0 then Bad else Ok)),
      (''Recovered subsystems'', int_text (rp_recovered_subsystems s), None),
      (''Degraded transitions'', int_text (rp_degraded_transitions s), None),
      (''Loss of control'', bool_text (rp_loss_of_control s), Some (if rp_loss_of_control s then Bad else Ok)),
      (''Safety preservation'', rp_safety_preservation s,
       Some (if rp_safety_preservation s = ''PASS'' then Ok else Bad)),
      (''Fault containment'', rp_fault_containment s,
       Some (if rp_fault_containment s = ''PASS'' then Ok else Bad)),
      (''Mean time to recovery'', optional_seconds (rp_mean_time_to_recovery s), None),
      (''Affected domains'', int_text (rp_affected_domains s) @ '' / 7'', None)]"

text \<open>\<open>s.replace("sha256:", "")\<close>\<close>

fun remove_first :: "string \<Rightarrow> string \<Rightarrow> string" where
  "remove_first needle [] = []"
| "remove_first needle (c # s) =
     (if starts_with needle (c # s) then drop (length needle) (c # s) else c # remove_first needle s)"

definition adapter_entry :: "system_data option \<Rightarrow> run_detail \<Rightarrow> adapter_info option" where
  "adapter_entry sys run =
     (case sys of None \<Rightarrow> None | Some s \<Rightarrow> find (\<lambda>a. ai_name a = rs_adapter run) (sy_adapters s))"

text \<open>The fields of the header; \<open>None\<close> as text is a date that cannot be rendered.\<close>

record header_field =
  hf_label :: string
  hf_hint :: "string option"
  hf_text :: "string option"
  hf_link :: "string option"

abbreviation plain_field :: "string \<Rightarrow> string \<Rightarrow> header_field" where
  "plain_field l t \<equiv> \<lparr>hf_label = l, hf_hint = None, hf_text = Some t, hf_link = None\<rparr>"

definition date_field :: "(string \<Rightarrow> string option) \<Rightarrow> string \<Rightarrow> string option \<Rightarrow> header_field" where
  "date_field to_iso label date =
     \<lparr>hf_label = label, hf_hint = None, hf_text = format_date_time to_iso date, hf_link = None\<rparr>"

definition header_fields ::
  "(string \<Rightarrow> string option) \<Rightarrow> system_data option \<Rightarrow> run_detail \<Rightarrow> header_field list" where
  "header_fields to_iso sys run =
     (let adapter = adapter_entry sys run
      in [(plain_field ''Adapter'' (case adapter of None \<Rightarrow> rs_adapter run | Some a \<Rightarrow> ai_display_name a))
            \<lparr>hf_hint := map_option ai_description adapter\<rparr>,
          plain_field ''Data origin'' (case adapter of None \<Rightarrow> ''unknown'' | Some a \<Rightarrow> ai_data_origin a),
          plain_field ''Vehicle'' (rs_vehicle run),
          plain_field ''Seed'' (int_text (rs_seed run)),
          plain_field ''Speed'' (rat_str (rs_speed run) @ ''x''),
          plain_field ''Runner'' (nullish (rs_runner_id run) ''not assigned''),
          plain_field ''Hard gate'' (bd_text (result_badge (rs_hard_gate_result run))),
          plain_field ''Simulation duration'' (format_duration (num (rs_last_simulation_time run))),
          date_field to_iso ''Created'' (Some (rs_created_at run)),
          date_field to_iso ''Started'' (rs_started_at run),
          date_field to_iso ''Ended'' (rs_ended_at run),
          plain_field ''Events'' (int_text (rs_event_count run)),
          plain_field ''Telemetry samples'' (int_text (rs_sample_count run)),
          plain_field ''Scenario version'' (''v'' @ rs_scenario_version run),
          (plain_field ''Scenario hash'' (take 12 (remove_first ''sha256:'' (rs_scenario_hash run))))
            \<lparr>hf_hint := Some (rs_scenario_hash run)\<rparr>,
          if truthy (rs_replay_source_run_id run)
          then (plain_field ''Replay source'' (short_id (nullish (rs_replay_source_run_id run) [])))
                 \<lparr>hf_link := Some (''/runs/'' @ nullish (rs_replay_source_run_id run) [])\<rparr>
          else plain_field ''Replay source'' ''original run''])"

text \<open>The buttons of the header: links (text, address, new window) and the cancel button.\<close>

record header_view =
  hv_title :: string
  hv_id :: "string \<times> string"
  hv_state :: badge
  hv_result :: badge
  hv_score :: "string option"
  hv_label :: "string option"
  hv_mission_link :: "string \<times> bool"
  hv_cancel :: "(string \<times> bool) option"
  hv_report :: "string option"
  hv_reason :: "(tone \<times> string) option"

definition run_active :: "run_detail \<Rightarrow> bool" where
  "run_active run = (rs_state run \<in> set ACTIVE_RUN_STATES \<or> rs_state run = RS_QUEUED)"

definition report_url :: "string option \<Rightarrow> run_detail \<Rightarrow> string option" where
  "report_url env run =
     (if rd_report_available run then Some (api_url env (''/api/v1/runs/'' @ rs_id run @ ''/report.html''))
      else None)"

definition header_view_of :: "string option \<Rightarrow> bool \<Rightarrow> run_detail \<Rightarrow> header_view" where
  "header_view_of env cancelling run =
     \<lparr>hv_title = rs_scenario_name run,
      hv_id = (short_id (rs_id run), rs_id run),
      hv_state = run_state_badge (rs_state run),
      hv_result = result_badge (rs_result run),
      hv_score = map_option (\<lambda>x. format_score (num x)) (rs_resilience_score run),
      hv_label = (if rs_label run \<noteq> [] then Some (rs_label run) else None),
      hv_mission_link = (''/mission-control?run='' @ rs_id run, run_active run),
      hv_cancel = (if run_active run
         then Some (if cancelling then ''Cancelling'' else ''Cancel run'', cancelling) else None),
      hv_report = report_url env run,
      hv_reason = (if rs_reason run \<noteq> []
         then Some (case rs_state run of RS_FAILED \<Rightarrow> Bad | RS_CANCELLED \<Rightarrow> Warn | _ \<Rightarrow> Info, rs_reason run)
         else None)\<rparr>"

section \<open>Tabs\<close>

datatype summary_view = Summary_note string | Summary "(string \<times> string \<times> tone option) list"

datatype analysis_view =
    Analysis_loading
  | Analysis_note tone string
  | Analysis string score_table "(string \<times> string \<times> badge) list" "assertion_row rows"

definition analysis_of :: "run_detail \<Rightarrow> metrics_response fetched \<Rightarrow> analysis_view" where
  "analysis_of run q =
     (let completed = (rs_state run = RS_COMPLETED)
      in if qf_loading q \<and> completed then Analysis_loading
         else case qf_data q of
           Some m \<Rightarrow> Analysis (''profile '' @ pf_name (sr_profile (mx_score m)))
             (score_breakdown (mx_score m)) (hard_gates (mx_score m)) (assertions_table (mx_assertions m))
         | None \<Rightarrow>
             if completed then Analysis_note Warn ''The analysis is not available for this run.''
             else Analysis_note Info ''Metrics, score and assertions are computed once the run completes.'')"

text \<open>The replay of the page and the key that identifies it: a new key starts a new replay.\<close>

record replay_props =
  rq_key :: string
  rq_recording :: recording
  rq_planned :: "planned_path option"

definition replay_props_of ::
  "system_data option \<Rightarrow> run_detail \<Rightarrow> telemetry_sample list \<Rightarrow> run_event list \<Rightarrow> replay_props" where
  "replay_props_of sys run samples events =
     \<lparr>rq_key = rs_id run @ ''-'' @ dec (int (length samples)),
      rq_recording = \<lparr>rc_samples = samples, rc_events = events,
        rc_topology = map_option sy_topology sys, rc_duration = max (rs_last_simulation_time run) 1\<rparr>,
      rq_planned = rd_planned_path run\<rparr>"

record detail_page =
  vw_header :: header_view
  vw_fields :: "header_field list"
  vw_summary :: summary_view
  vw_chart :: "chart_view option"
  vw_analysis :: analysis_view
  vw_replay :: "replay_props option"
  vw_events :: "run_event list option"
  vw_metrics :: "metrics_view + string"
  vw_artifacts :: "string option \<times> artifact_row rows"
  vw_provenance :: "string \<times> (string \<times> string) list"
  vw_scenario :: "string \<times> string"
  vw_footer :: "string option"

text \<open>\<open>Page_throws\<close>: a date of the run is not one, and rendering it throws.\<close>

datatype run_page_view = Page_error error_view | Page_loading string | Page_throws | Page detail_page

definition run_page_of ::
  "(string \<Rightarrow> string option) \<Rightarrow> (string \<Rightarrow> string \<Rightarrow> int) \<Rightarrow> string option \<Rightarrow> detail_inputs \<Rightarrow> run_page_view" where
  "run_page_of to_iso collate env i =
     (case qf_error (dn_run i) of
        Some e \<Rightarrow> Page_error (error_state ''Run not found'' e True)
      | None \<Rightarrow>
     (case qf_data (dn_run i) of
        None \<Rightarrow> Page_loading ''Loading run''
      | Some run \<Rightarrow>
     (let events = nullish (qf_data (dn_events i)) [];
          samples = nullish (qf_data (dn_telemetry i)) [];
          fs = header_fields to_iso (dn_system i) run
      in if list_ex (\<lambda>f. hf_text f = None) fs then Page_throws
         else Page
           \<lparr>vw_header = header_view_of env (dn_cancel_pending i) run,
            vw_fields = fs,
            vw_summary = (case rs_summary run of
                Some s \<Rightarrow> Summary (summary_grid s)
              | None \<Rightarrow> Summary_note ''The summary is produced by the analysis once the run completes.''),
            vw_chart = (if qf_loading (dn_telemetry i) then None else Some (telemetry_chart samples events)),
            vw_analysis = analysis_of run (dn_metrics i),
            vw_replay = (if qf_loading (dn_telemetry i) then None
                         else Some (replay_props_of (dn_system i) run samples events)),
            vw_events = (if qf_loading (dn_events i) then None else Some events),
            vw_metrics = (case qf_data (dn_metrics i) of
                Some m \<Rightarrow> Inl (metrics_tab collate (mx_metrics m))
              | None \<Rightarrow> Inr ''Metrics are computed by the analysis once the run completes.''),
            vw_artifacts = artifacts_tab env (rd_artifacts run) (rs_id run) (rd_report_available run),
            vw_provenance = (dec (int (length (provenance_keys (rd_provenance run)))) @ '' recorded fields'',
                             provenance_rows (rd_provenance run)),
            vw_scenario = (''/scenarios/'' @ rs_scenario_name run, rd_scenario_document run),
            vw_footer = (if is_terminal_run_state (rs_state run) then None
              else Some ''This run is still active. The page refreshes every few seconds.'')\<rparr>)))"

section \<open>Properties\<close>


lemma footer_while_polled:
  assumes "run_page_of to_iso collate env i = Page v" "qf_data (dn_run i) = Some run"
  shows "vw_footer v \<noteq> None \<longleftrightarrow> \<not> is_terminal_run_state (rs_state run)"
  using assms by (auto simp: run_page_of_def Let_def split: option.splits if_splits)

end
