(* ===== verification/ComparePage.thy ===== *)
theory ComparePage
  imports RunDialog RunDetail
begin

text \<open>
  app/compare/compare-view.tsx: two runs picked in the address of the page and the comparison the
  server makes of them. The address holds the state; each side has a picker of its own
  (components/compare/run-picker.tsx, in \<open>RunDialog\<close>).
\<close>

section \<open>Selection\<close>

text \<open>The search parameters of an address, in order; \<open>get\<close> reads the first of a name.\<close>

type_synonym search_params = "(string \<times> string) list"

text \<open>\<open>params.set(k, v)\<close>: replaces the first, drops the others, or appends.\<close>

fun params_set :: "string \<Rightarrow> string \<Rightarrow> search_params \<Rightarrow> search_params" where
  "params_set k v [] = [(k, v)]"
| "params_set k v (p # ps) =
     (if fst p = k then (k, v) # filter (\<lambda>q. fst q \<noteq> k) ps else p # params_set k v ps)"

record compare_state =
  cm_params :: search_params
  cm_baseline :: run_picker
  cm_candidate :: run_picker

definition picker_start :: run_picker where
  "picker_start = \<lparr>pk_open = False, pk_search = []\<rparr>"

definition compare_start :: "search_params \<Rightarrow> compare_state" where
  "compare_start params = \<lparr>cm_params = params, cm_baseline = picker_start, cm_candidate = picker_start\<rparr>"

datatype side = Baseline | Candidate

fun side_key :: "side \<Rightarrow> string" where
  "side_key Baseline = ''baseline''"
| "side_key Candidate = ''candidate''"

definition select_run :: "side \<Rightarrow> string option \<Rightarrow> search_params \<Rightarrow> search_params" where
  "select_run role picked params =
     (case picked of None \<Rightarrow> params | Some runId \<Rightarrow> params_set (side_key role) runId params)"

definition compare_step :: "side \<times> picker_action \<Rightarrow> compare_state \<Rightarrow> compare_state" where
  "compare_step act s =
     (case fst act of
        Baseline \<Rightarrow> let p = picker_step (snd act) (cm_baseline s)
          in s\<lparr>cm_baseline := fst p, cm_params := select_run Baseline (snd p) (cm_params s)\<rparr>
      | Candidate \<Rightarrow> let p = picker_step (snd act) (cm_candidate s)
          in s\<lparr>cm_candidate := fst p, cm_params := select_run Candidate (snd p) (cm_params s)\<rparr>)"

definition compare_query :: "search_params \<Rightarrow> query" where
  "compare_query params =
     (let baseline = map_of params ''baseline''; candidate = map_of params ''candidate''
      in (simple_query [Str ''compare'', id_value baseline, id_value candidate]
            (truthy baseline \<and> truthy candidate) ''/api/v1/compare''
            [(''baseline'', Str (nullish baseline [])), (''candidate'', Str (nullish candidate []))])
         \<lparr>qy_retry := Some 0\<rparr>)"

text \<open>The runs on offer: the last fifty completed ones.\<close>

definition completed_runs_query :: "run_summary list option \<Rightarrow> query" where
  "completed_runs_query =
     use_runs \<lparr>rf_state = Some ''COMPLETED'', rf_scenario = None, rf_adapter = None, rf_result = None,
               rf_limit = Some 50, rf_offset = None\<rparr>"

section \<open>The comparison\<close>

datatype overall_verdict =
  OV_regression | OV_improvement | OV_unchanged | OV_mixed | OV_not_comparable

fun overall_str :: "overall_verdict \<Rightarrow> string" where
  "overall_str OV_regression = ''regression''"
| "overall_str OV_improvement = ''improvement''"
| "overall_str OV_unchanged = ''unchanged''"
| "overall_str OV_mixed = ''mixed''"
| "overall_str OV_not_comparable = ''not_comparable''"

fun VERDICT_SENTENCE :: "verdict \<Rightarrow> string" where
  "VERDICT_SENTENCE V_improvement = ''The candidate improved on the baseline.''"
| "VERDICT_SENTENCE V_regression = ''The candidate regressed against the baseline.''"
| "VERDICT_SENTENCE V_unchanged = ''No metric moved between the two runs.''"
| "VERDICT_SENTENCE V_changed = ''Metrics moved without a preferred direction.''"
| "VERDICT_SENTENCE V_not_comparable = ''These runs cannot be compared on equal terms.''"

record metric_comparison =
  mc_key :: string
  mc_label :: string
  mc_unit :: metric_unit
  mc_better :: better
  mc_baseline :: metric_value
  mc_candidate :: metric_value
  mc_delta :: "rat option"
  mc_verdict :: verdict

record dimension_comparison =
  dc_label :: string
  dc_weight :: rat
  dc_baseline :: "rat option"
  dc_candidate :: "rat option"
  dc_delta :: "rat option"
  dc_verdict :: verdict

record assertion_comparison =
  ac_expression :: string
  ac_severity :: string
  ac_baseline :: "string option"
  ac_candidate :: "string option"
  ac_verdict :: verdict

record compare_response =
  xr_baseline :: run_summary
  xr_candidate :: run_summary
  xr_baseline_events :: "run_event list"
  xr_candidate_events :: "run_event list"
  xr_metrics :: "metric_comparison list"
  xr_dimensions :: "dimension_comparison list"
  xr_assertions :: "assertion_comparison list"
  xr_improvements :: int
  xr_regressions :: int
  xr_same_scenario :: bool
  xr_same_scenario_hash :: bool
  xr_verdict :: overall_verdict

definition verdict_badge :: "verdict \<Rightarrow> badge" where
  "verdict_badge v = plain_badge (VERDICT_LABEL v) (verdict_tone v)"

record verdict_banner =
  vb_badge :: badge
  vb_sentence :: string
  vb_counts :: "string \<times> string"
  vb_scenario :: badge
  vb_document :: badge

definition verdict_sentence :: "overall_verdict \<Rightarrow> string" where
  "verdict_sentence v =
     (case v of
        OV_mixed \<Rightarrow> ''Some metrics improved while others regressed.''
      | OV_improvement \<Rightarrow> VERDICT_SENTENCE V_improvement
      | OV_regression \<Rightarrow> VERDICT_SENTENCE V_regression
      | OV_unchanged \<Rightarrow> VERDICT_SENTENCE V_unchanged
      | OV_not_comparable \<Rightarrow> VERDICT_SENTENCE V_not_comparable)"

definition verdict_banner_of :: "compare_response \<Rightarrow> verdict_banner" where
  "verdict_banner_of d =
     \<lparr>vb_badge = plain_badge (to_upper (replace_first (CHR ''_'') (CHR '' '') (overall_str (xr_verdict d))))
        (case xr_verdict d of OV_improvement \<Rightarrow> Ok | OV_regression \<Rightarrow> Bad | OV_mixed \<Rightarrow> Warn | _ \<Rightarrow> Dim),
      vb_sentence = verdict_sentence (xr_verdict d),
      vb_counts = (int_text (xr_improvements d) @ '' improvements'', int_text (xr_regressions d) @ '' regressions''),
      vb_scenario = (if xr_same_scenario d then plain_badge ''SAME SCENARIO'' Ok
                     else plain_badge ''DIFFERENT SCENARIO'' Warn),
      vb_document = (if xr_same_scenario_hash d then plain_badge ''SAME DOCUMENT'' Ok
                     else plain_badge ''DIFFERENT DOCUMENT'' Warn)\<rparr>"

record run_card =
  rk_role :: string
  rk_link :: "string \<times> string"
  rk_scenario :: "string \<times> string"
  rk_adapter :: string
  rk_score :: string

fun benchmark_str :: "benchmark_result \<Rightarrow> string" where
  "benchmark_str BR_passed = ''passed''"
| "benchmark_str BR_failed = ''failed''"
| "benchmark_str BR_inconclusive = ''inconclusive''"

definition run_card_of :: "string \<Rightarrow> run_summary \<Rightarrow> run_card" where
  "run_card_of role run =
     \<lparr>rk_role = role, rk_link = (short_id (rs_id run), ''/runs/'' @ rs_id run),
      rk_scenario = (rs_scenario_name run, ''v'' @ rs_scenario_version run),
      rk_adapter = rs_adapter run @ '', seed '' @ int_text (rs_seed run) @ '', speed ''
        @ rat_str (rs_speed run) @ ''x'',
      rk_score = (case rs_resilience_score run of None \<Rightarrow> ''n/a'' | Some x \<Rightarrow> rat_str x)
        @ '' ('' @ (case rs_result run of None \<Rightarrow> ''not analyzed'' | Some b \<Rightarrow> benchmark_str b) @ '')''\<rparr>"

record metric_line =
  ml_label :: string
  ml_tip :: "string \<times> string"
  ml_baseline :: string
  ml_candidate :: string
  ml_delta :: "string \<times> tone"
  ml_verdict :: badge

definition metric_line_of :: "metric_comparison \<Rightarrow> metric_line" where
  "metric_line_of m =
     \<lparr>ml_label = mc_label m, ml_tip = (mc_key m, BETTER_LABEL (mc_better m)),
      ml_baseline = format_metric_value (mc_baseline m) (mc_unit m),
      ml_candidate = format_metric_value (mc_candidate m) (mc_unit m),
      ml_delta = (format_metric_delta (map_option Fin (mc_delta m)) (mc_unit m), verdict_tone (mc_verdict m)),
      ml_verdict = verdict_badge (mc_verdict m)\<rparr>"

text \<open>The bars of a score dimension, in percent of \<open>Math.max(weight, 1)\<close>.\<close>

definition bar_width :: "rat \<Rightarrow> rat option \<Rightarrow> rat" where
  "bar_width weight points = fl (fl (nullish points 0 / max weight 1) * 100)"

record dimension_line =
  dl_label :: "string \<times> string"
  dl_baseline :: "rat \<times> string"
  dl_candidate :: "rat \<times> string \<times> tone"
  dl_delta :: "string \<times> tone"
  dl_verdict :: badge

definition dimension_line_of :: "dimension_comparison \<Rightarrow> dimension_line" where
  "dimension_line_of d =
     \<lparr>dl_label = (dc_label d, ''w'' @ rat_str (dc_weight d)),
      dl_baseline = (bar_width (dc_weight d) (dc_baseline d), to_fixed 1 (nullish (dc_baseline d) 0)),
      dl_candidate = (bar_width (dc_weight d) (dc_candidate d), to_fixed 1 (nullish (dc_candidate d) 0),
        case dc_verdict d of V_regression \<Rightarrow> Bad | V_improvement \<Rightarrow> Ok | _ \<Rightarrow> Info),
      dl_delta = (case dc_delta d of None \<Rightarrow> ''n/a''
         | Some x \<Rightarrow> (if x > 0 then ''+'' else []) @ to_fixed 2 x, verdict_tone (dc_verdict d)),
      dl_verdict = verdict_badge (dc_verdict d)\<rparr>"

definition assertion_lines ::
  "assertion_comparison list \<Rightarrow> (string \<times> string \<times> string \<times> string \<times> badge) rows" where
  "assertion_lines xs =
     (if xs = [] then No_rows ''Neither run evaluated an assertion.''
      else Rows (map (\<lambda>a. (ac_expression a, ac_severity a, nullish (ac_baseline a) ''n/a'',
        nullish (ac_candidate a) ''n/a'', verdict_badge (ac_verdict a))) xs))"

definition compared_events :: "run_event list \<Rightarrow> string \<times> event_row rows" where
  "compared_events events =
     (dec (int (length events)) @ '' events'',
      if events = [] then No_rows ''No event recorded.'' else Rows (map event_row_of events))"

record comparison_view =
  cv_banner :: verdict_banner
  cv_cards :: "run_card list"
  cv_metrics :: "metric_line list"
  cv_dimensions :: "dimension_line list"
  cv_assertions :: "(string \<times> string \<times> string \<times> string \<times> badge) rows"
  cv_events :: "(string \<times> string \<times> event_row rows) list"

definition comparison_of :: "compare_response \<Rightarrow> comparison_view" where
  "comparison_of d =
     \<lparr>cv_banner = verdict_banner_of d,
      cv_cards = [run_card_of ''Baseline'' (xr_baseline d), run_card_of ''Candidate'' (xr_candidate d)],
      cv_metrics = map metric_line_of (xr_metrics d),
      cv_dimensions = map dimension_line_of (xr_dimensions d),
      cv_assertions = assertion_lines (xr_assertions d),
      cv_events = [(''Baseline events'', compared_events (xr_baseline_events d)),
                   (''Candidate events'', compared_events (xr_candidate_events d))]\<rparr>"

datatype compare_body =
    Compare_pick string string
  | Compare_error error_view
  | Compare_loading
  | Compared comparison_view

record compare_page =
  cy_baseline :: picker_view
  cy_candidate :: picker_view
  cy_body :: compare_body

definition compare_page_of ::
  "(string \<Rightarrow> int) \<Rightarrow> int \<Rightarrow> run_summary list option \<Rightarrow> compare_response fetched \<Rightarrow> compare_state \<Rightarrow> compare_page" where
  "compare_page_of date_ms now runs q s =
     (let offered = nullish runs [];
          baseline = map_of (cm_params s) ''baseline''; candidate = map_of (cm_params s) ''candidate''
      in \<lparr>cy_baseline = picker_view_of date_ms now offered baseline ''Select the reference run'' (cm_baseline s),
          cy_candidate = picker_view_of date_ms now offered candidate ''Select the run under test'' (cm_candidate s),
          cy_body =
            (if \<not> truthy baseline \<or> \<not> truthy candidate
             then Compare_pick ''Pick two completed runs''
               ''A comparison needs a baseline and a candidate. Runs of the same scenario and the same content hash are the only ones that compare on strictly equal terms.''
             else case qf_error q of
               Some e \<Rightarrow> Compare_error (error_state ''Comparison unavailable'' e True)
             | None \<Rightarrow>
                 if qf_loading q then Compare_loading
                 else case qf_data q of None \<Rightarrow> Compare_loading | Some d \<Rightarrow> Compared (comparison_of d))\<rparr>)"

section \<open>Properties\<close>

lemma map_of_params_set: "map_of (params_set k v ps) = (map_of ps)(k \<mapsto> v)"
proof (induction ps)
  case (Cons p ps)
  have "map_of (filter (\<lambda>q. fst q \<noteq> k) ps) j = map_of ps j" if "j \<noteq> k" for j
    using that by (induction ps) auto
  with Cons show ?case by (cases p) (auto simp: fun_eq_iff)
qed simp

text \<open>The last run picked on a side.\<close>

definition last_picked :: "side \<Rightarrow> (side \<times> picker_action) list \<Rightarrow> string option" where
  "last_picked role acts =
     at_last (List.map_filter (\<lambda>(r, a). case a of Pick_run i \<Rightarrow> if r = role then Some i else None | _ \<Rightarrow> None) acts)"

lemma last_picked_snoc:
  "last_picked role (acts @ [(r, a)]) =
     (case a of Pick_run i \<Rightarrow> if r = role then Some i else last_picked role acts | _ \<Rightarrow> last_picked role acts)"
  by (cases a) (auto simp: last_picked_def List.map_filter_def at_last_def)

lemma compare_step_params:
  "map_of (cm_params (compare_step (r, a) s)) =
     (case a of Pick_run i \<Rightarrow> (map_of (cm_params s))(side_key r \<mapsto> i) | _ \<Rightarrow> map_of (cm_params s))"
  by (cases r; cases a) (simp_all add: compare_step_def select_run_def map_of_params_set)

text \<open>
  C33. Whatever is done with the two pickers, in any order, the comparison asked for is that of the
  runs picked last on either side (or of those in the address the page was opened with), it is
  asked for exactly when both are known, and no other parameter of the address is touched.
\<close>

theorem compare_selection:
  fixes acts :: "(side \<times> picker_action) list" and params :: search_params
  defines "picked \<equiv> \<lambda>role. case last_picked role acts of Some i \<Rightarrow> Some i | None \<Rightarrow> map_of params (side_key role)"
    and "final \<equiv> cm_params (fold compare_step acts (compare_start params))"
  shows "qy_enabled (compare_query final) = (truthy (picked Baseline) \<and> truthy (picked Candidate))
    \<and> qy_params (compare_query final)
        = [(''baseline'', Str (nullish (picked Baseline) [])), (''candidate'', Str (nullish (picked Candidate) []))]
    \<and> map_of final k = (if k = ''baseline'' then picked Baseline else if k = ''candidate'' then picked Candidate
                         else map_of params k)"
proof -
  have key: "map_of final k = (if k = ''baseline'' then picked Baseline else if k = ''candidate'' then picked Candidate
                         else map_of params k)" for k
    unfolding final_def picked_def
  proof (induction acts rule: rev_induct)
    case Nil
    show ?case by (simp add: last_picked_def List.map_filter_def compare_start_def)
  next
    case (snoc act acts)
    obtain r a where act: "act = (r, a)" by (cases act)
    show ?case
      using snoc.IH by (cases r; cases a) (auto simp: act compare_step_params last_picked_snoc)
  qed
  then show ?thesis by (simp add: compare_query_def simple_query_def Let_def)
qed

text \<open>
  The bars of a score dimension are to scale: points between zero and the weight of the
  dimension give a bar between nothing and the full width, and more points never a shorter one.
\<close>

theorem compare_bars_to_scale:
  assumes "0 \<le> a" "a \<le> b" "b \<le> weight"
  shows "0 \<le> bar_width weight (Some a) \<and> bar_width weight (Some a) \<le> bar_width weight (Some b)
    \<and> bar_width weight (Some b) \<le> 100 \<and> bar_width weight None = 0"
proof -
  have "b / max weight 1 \<le> 1" using assms by (simp add: divide_le_eq_1 max_def)
  then have "fl (b / max weight 1) * 100 \<le> 100"
    using fl_mono [of "b / max weight 1" 1] by simp
  then have "bar_width weight (Some b) \<le> fl 100" unfolding bar_width_def by (intro fl_mono) simp
  moreover have "bar_width weight (Some a) \<le> bar_width weight (Some b)"
    using assms by (auto simp: bar_width_def intro!: fl_mono divide_right_mono)
  moreover have "0 \<le> bar_width weight (Some a)"
    using assms by (auto simp: bar_width_def intro!: fl_nonneg mult_nonneg_nonneg divide_nonneg_nonneg)
  ultimately show ?thesis by (simp add: fl_simps bar_width_def)
qed

theorem compare_bars_to_scale_witness:
  "bar_width 20 (Some 5) = 25 \<and> bar_width 20 (Some 5) \<le> bar_width 20 (Some 15)
   \<and> bar_width 20 (Some 15) \<le> 100"
proof -
  have "bar_width 20 (Some 5) = 25" by code_simp
  then show ?thesis using compare_bars_to_scale [of 5 15 20] by simp
qed

end
