(* ===== verification/TopologyGraph.thy ===== *)
theory TopologyGraph
  imports Topology JSNumOrder
begin

text \<open>
  components/system/topology-graph.tsx: the drawing of the system topology. Domains are bands,
  components boxes, dependencies curves and trust boundaries lines between bands. Coordinates are
  doubles.
\<close>

section \<open>Layout\<close>

definition LABEL_COLUMN :: rat where "LABEL_COLUMN = 132"
definition BAND_HEIGHT :: rat where "BAND_HEIGHT = 86"
definition NODE_HEIGHT :: rat where "NODE_HEIGHT = 30"
definition NODE_MAX_WIDTH :: rat where "NODE_MAX_WIDTH = 150"
definition TOP_PAD :: rat where "TOP_PAD = 14"

lemmas graph_sizes = LABEL_COLUMN_def BAND_HEIGHT_def NODE_HEIGHT_def NODE_MAX_WIDTH_def TOP_PAD_def

fun ZONE_COLOR :: "trust_zone \<Rightarrow> string" where
  "ZONE_COLOR TZ_external = ''#8b9bab''"
| "ZONE_COLOR TZ_mission = ''#4fb3e8''"
| "ZONE_COLOR TZ_flight_critical = ''#e0a52a''"

fun zone_str :: "trust_zone \<Rightarrow> string" where
  "zone_str TZ_external = ''external''"
| "zone_str TZ_mission = ''mission''"
| "zone_str TZ_flight_critical = ''flight_critical''"

record placed =
  gn_id :: string
  gn_name :: string
  gn_x :: rat
  gn_y :: rat
  gn_width :: rat
  gn_zone :: trust_zone
  gn_critical :: bool

text \<open>\<open>byDomain\<close>: the components of every domain, in the order of the topology.\<close>

definition by_domain :: "topology \<Rightarrow> (domain \<times> component list) list" where
  "by_domain t = foldl add_to_group [] (tp_components t)"

definition band_components :: "topology \<Rightarrow> domain \<Rightarrow> component list" where
  "band_components t d = nullish (map_of (by_domain t) d) []"

definition graph_bands :: "topology \<Rightarrow> domain list" where
  "graph_bands t = filter (\<lambda>d. map_of (by_domain t) d \<noteq> None) DOMAIN_ORDER"

definition graph_plot :: "rat \<Rightarrow> rat" where
  "graph_plot width = max 240 (fl (fl (width - LABEL_COLUMN) - 16))"

definition node_width :: "rat \<Rightarrow> rat" where
  "node_width slot = min NODE_MAX_WIDTH (max 84 (fl (slot - 14)))"

definition node_of :: "rat \<Rightarrow> nat \<Rightarrow> nat \<Rightarrow> component \<Rightarrow> placed" where
  "node_of slot band index c =
     \<lparr>gn_id = co_id c, gn_name = co_name c,
      gn_x = fl (fl (LABEL_COLUMN + fl (slot * of_nat index)) + fl (fl (slot - node_width slot) / 2)),
      gn_y = TOP_PAD + of_nat band * BAND_HEIGHT + (BAND_HEIGHT - NODE_HEIGHT) / 2,
      gn_width = node_width slot, gn_zone = co_trust_zone c, gn_critical = co_critical c\<rparr>"

definition band_nodes :: "rat \<Rightarrow> nat \<Rightarrow> component list \<Rightarrow> placed list" where
  "band_nodes plot band cs =
     (let slot = fl (plot / of_nat (length cs))
      in map (\<lambda>(index, c). node_of slot band index c) (enumerate 0 cs))"

definition graph_nodes :: "topology \<Rightarrow> rat \<Rightarrow> placed list" where
  "graph_nodes t width =
     concat (map (\<lambda>(band, d). band_nodes (graph_plot width) band (band_components t d))
       (enumerate 0 (graph_bands t)))"

definition graph_height :: "topology \<Rightarrow> rat" where
  "graph_height t = TOP_PAD * 2 + of_nat (length (graph_bands t)) * BAND_HEIGHT"

text \<open>\<open>findIndex\<close>: \<open>None\<close> stands for -1.\<close>

fun find_index :: "('a \<Rightarrow> bool) \<Rightarrow> 'a list \<Rightarrow> nat option" where
  "find_index P [] = None"
| "find_index P (x # xs) = (if P x then Some 0 else map_option Suc (find_index P xs))"

definition boundary_band :: "topology \<Rightarrow> trust_boundary \<Rightarrow> nat option" where
  "boundary_band t b =
     find_index (\<lambda>d. list_ex (\<lambda>c. co_trust_zone c = tb_downstream_zone b) (band_components t d)) (graph_bands t)"

definition boundary_rows :: "topology \<Rightarrow> (string \<times> nat) list" where
  "boundary_rows t =
     foldl (\<lambda>rows b. case boundary_band t b of
              Some index \<Rightarrow> if index > 0 then AList.update (tb_id b) index rows else rows
            | None \<Rightarrow> rows) [] (tp_trust_boundaries t)"

section \<open>Drawing\<close>

record band_view =
  gb_y :: rat
  gb_fill :: string
  gb_label :: string

definition band_view_of :: "nat \<Rightarrow> domain \<Rightarrow> band_view" where
  "band_view_of index d =
     \<lparr>gb_y = TOP_PAD + of_nat index * BAND_HEIGHT,
      gb_fill = (if even index then ''#0b1118'' else ''#0e151d''),
      gb_label = to_upper (DOMAIN_LABEL d)\<rparr>"

record edge_view =
  ge_from :: "rat \<times> rat"
  ge_to :: "rat \<times> rat"
  ge_mid :: rat
  ge_crosses :: bool
  ge_title :: string

definition node_index :: "placed list \<Rightarrow> (string \<times> placed) list" where
  "node_index nodes = map_set_all gn_id [] nodes"

text \<open>The middle of a box; \<open>midY\<close> bends the curve.\<close>

definition node_middle :: "placed \<Rightarrow> rat \<times> rat" where
  "node_middle n = (fl (gn_x n + fl (gn_width n / 2)), fl (gn_y n + NODE_HEIGHT / 2))"

definition edge_view_of :: "(string \<times> placed) list \<Rightarrow> dependency \<Rightarrow> edge_view option" where
  "edge_view_of nodes d =
     (case (map_of nodes (dp_provider d), map_of nodes (dp_dependent d)) of
        (Some from_node, Some to_node) \<Rightarrow> Some
          \<lparr>ge_from = node_middle from_node, ge_to = node_middle to_node,
           ge_mid = fl (fl (snd (node_middle from_node) + snd (node_middle to_node)) / 2),
           ge_crosses = dp_crosses_trust_boundary d,
           ge_title = dp_provider d @ '' '' @ dp_relation d @ '' '' @ dp_dependent d\<rparr>
      | _ \<Rightarrow> None)"

record line_view =
  gl_y :: rat
  gl_text :: string

definition line_view_of :: "(string \<times> nat) list \<Rightarrow> trust_boundary \<Rightarrow> line_view option" where
  "line_view_of rows b =
     map_option (\<lambda>index. \<lparr>gl_y = TOP_PAD + of_nat index * BAND_HEIGHT,
        gl_text = tb_name b @ (if truthy (tb_enforcement_point b)
          then ''  |  enforced at '' @ nullish (tb_enforcement_point b) [] else [])\<rparr>)
       (map_of rows (tb_id b))"

record node_view =
  gv_box :: placed
  gv_stroke :: "string \<times> rat"
  gv_text :: string
  gv_title :: string

definition node_view_of :: "placed \<Rightarrow> node_view" where
  "node_view_of n =
     \<lparr>gv_box = n,
      gv_stroke = (ZONE_COLOR (gn_zone n), if gn_critical n then fl (16 / 10) else 1),
      gv_text = (if length (gn_name n) > 20 then take 19 (gn_name n) @ ''.'' else gn_name n),
      gv_title = gn_name n @ '' ('' @ gn_id n @ ''), trust zone '' @ zone_str (gn_zone n)
        @ (if gn_critical n then '', flight critical'' else [])\<rparr>"

record graph_view =
  gr_height :: rat
  gr_bands :: "band_view list"
  gr_edges :: "edge_view list"
  gr_lines :: "line_view list"
  gr_nodes :: "node_view list"

text \<open>\<open>None\<close> is the placeholder shown while the width is not known.\<close>

definition topology_graph :: "topology \<Rightarrow> rat \<Rightarrow> graph_view option" where
  "topology_graph t width =
     (let nodes = graph_nodes t width
      in if width > 0 then Some
           \<lparr>gr_height = graph_height t,
            gr_bands = map (\<lambda>(index, d). band_view_of index d) (enumerate 0 (graph_bands t)),
            gr_edges = List.map_filter (edge_view_of (node_index nodes)) (tp_dependencies t),
            gr_lines = List.map_filter (line_view_of (boundary_rows t)) (tp_trust_boundaries t),
            gr_nodes = map node_view_of nodes\<rparr>
         else None)"

definition zone_legend :: "(string \<times> string) list" where
  "zone_legend = map (\<lambda>z. (''trust zone '' @ zone_str z, ZONE_COLOR z)) [TZ_external, TZ_mission, TZ_flight_critical]"

section \<open>Properties\<close>

lemma band_components_eq: "band_components t d = filter (\<lambda>c. co_domain c = d) (tp_components t)"
  by (simp add: band_components_def by_domain_def map_of_groups Let_def)

lemma graph_bands_eq: "graph_bands t = filter (\<lambda>d. d \<in> co_domain ` set (tp_components t)) DOMAIN_ORDER"
  unfolding graph_bands_def by (intro filter_cong refl)
    (auto simp: by_domain_def map_of_groups Let_def filter_empty_conv)

lemma map_enumerate_snd: "map (\<lambda>(i, x). f x) (enumerate n xs) = map f xs"
  by (induction xs arbitrary: n) simp_all

lemma band_nodes_ids: "map gn_id (band_nodes plot band cs) = map co_id cs"
proof -
  have "map gn_id (band_nodes plot band cs) = map (\<lambda>(i, c). co_id c) (enumerate 0 cs)"
    by (simp add: band_nodes_def Let_def node_of_def split_def)
  then show ?thesis by (simp only: map_enumerate_snd)
qed

text \<open>
  Every component of the topology is drawn exactly once, in its domain's band, and the bands
  stand in the fixed order of the domains.
\<close>

theorem graph_nodes_complete:
  "mset (map gn_id (graph_nodes t width)) = mset (map co_id (tp_components t))
   \<and> concat (map (band_components t) (graph_bands t))
       = concat (map dg_components (group_by_domain (Some t)))"
proof -
  have grp: "concat (map (band_components t) (graph_bands t)) = concat (map dg_components (group_by_domain (Some t)))"
    by (simp add: group_by_domain_partition [THEN conjunct1] graph_bands_eq components_of_def
        band_components_eq [abs_def] comp_def)
  have "map gn_id (graph_nodes t width)
      = concat (map (\<lambda>(band, d). map co_id (band_components t d)) (enumerate 0 (graph_bands t)))"
    by (simp add: graph_nodes_def map_concat comp_def split_def band_nodes_ids)
  also have "\<dots> = map co_id (concat (map (band_components t) (graph_bands t)))"
    by (simp only: map_enumerate_snd) (simp add: map_concat comp_def)
  finally have "mset (map gn_id (graph_nodes t width))
      = image_mset co_id (mset (concat (map dg_components (group_by_domain (Some t)))))"
    by (simp only: grp mset_map)
  also have "mset (concat (map dg_components (group_by_domain (Some t)))) = mset (tp_components t)"
    using group_by_domain_partition [THEN conjunct2, THEN conjunct1, of "Some t"]
    by (simp only: components_of_def option.case)
  finally show ?thesis using grp by (simp only: mset_map simp_thms)
qed

text \<open>Two boxes next to each other, and one above the other.\<close>

definition apart :: "placed \<Rightarrow> placed \<Rightarrow> bool" where
  "apart a b = (gn_y a = gn_y b \<and> gn_x a + gn_width a + 12 \<le> gn_x b \<or> gn_y a + NODE_HEIGHT + 50 \<le> gn_y b)"

lemma node_x_bounds:
  assumes "0 \<le> slot" "slot * of_nat index \<le> 32768" "slot \<le> 32768"
  defines "off \<equiv> fl (fl (slot - node_width slot) / 2)"
  shows "\<bar>gn_x (node_of slot band index c) - (132 + slot * of_nat index + off)\<bar> \<le> 3 / 1000"
    and "\<bar>off - (slot - node_width slot) / 2\<bar> \<le> 2 / 1000"
proof -
  let ?s = "slot * of_nat index"
  have nw: "0 \<le> node_width slot" "node_width slot \<le> 150" by (simp_all add: node_width_def graph_sizes)
  then have d: "\<bar>slot - node_width slot\<bar> \<le> 65536" using assms(1,3) by linarith
  have s: "0 \<le> ?s" using assms(1) by simp
  have e0: "\<bar>fl (slot - node_width slot) - (slot - node_width slot)\<bar> \<le> 1 / 1000"
    using d by (intro fl_close) linarith
  then have h: "\<bar>fl (slot - node_width slot) / 2\<bar> \<le> 65536" using d by linarith
  then have e: "\<bar>off - fl (slot - node_width slot) / 2\<bar> \<le> 1 / 1000"
    unfolding off_def by (intro fl_close) linarith
  show "\<bar>off - (slot - node_width slot) / 2\<bar> \<le> 2 / 1000"
    using e e0 unfolding diff_divide_distrib by linarith
  have e1: "\<bar>fl ?s - ?s\<bar> \<le> 1 / 1000" using s assms(2) by (intro fl_close) linarith
  then have e2: "\<bar>fl (132 + fl ?s) - (132 + fl ?s)\<bar> \<le> 1 / 1000"
    using s assms(2) by (intro fl_close) linarith
  have e3: "\<bar>fl (fl (132 + fl ?s) + off) - (fl (132 + fl ?s) + off)\<bar> \<le> 1 / 1000"
    using e1 e2 e h s assms(2) by (intro fl_close) linarith
  have "gn_x (node_of slot band index c) = fl (fl (132 + fl ?s) + off)"
    by (simp add: node_of_def off_def graph_sizes)
  then show "\<bar>gn_x (node_of slot band index c) - (132 + ?s + off)\<bar> \<le> 3 / 1000"
    using e1 e2 e3 by linarith
qed

lemma slot_bounds:
  assumes "0 < n" "98 * of_nat n \<le> plot" "plot \<le> 10000"
  defines "slot \<equiv> fl (plot / of_nat n)"
  shows "98 \<le> slot" "slot * of_nat n \<le> plot + 1" "slot \<le> 10001"
    "node_width slot \<le> slot - 13" "84 \<le> node_width slot"
proof -
  have ge: "98 \<le> plot / of_nat n" using assms(1,2) by (simp add: field_simps)
  then show lo: "98 \<le> slot" using fl_mono [OF ge] by (simp add: slot_def fl_simps)
  have n1: "1 \<le> (of_nat n :: rat)" using assms(1) by simp
  have "plot / of_nat n \<le> plot / 1" using n1 assms by (intro divide_left_mono) auto
  then have hi: "plot / of_nat n \<le> 10000" using assms(3) by simp
  have c: "\<bar>slot - plot / of_nat n\<bar> \<le> 1 / 1000"
    unfolding slot_def using hi ge by (intro fl_close) linarith
  then show up: "slot \<le> 10001" using hi by linarith
  have "slot * of_nat n \<le> (plot / of_nat n + 1 / 1000) * of_nat n"
    using c n1 by (intro mult_right_mono) linarith+
  also have "\<dots> = plot + of_nat n / 1000" using assms(1) by (simp add: field_simps)
  also have "\<dots> \<le> plot + 1" using assms(2,3) by simp
  finally show "slot * of_nat n \<le> plot + 1" .
  have "\<bar>fl (slot - 14) - (slot - 14)\<bar> \<le> 1 / 1000" using lo up by (intro fl_close) linarith
  then have "fl (slot - 14) \<le> slot - 13" by linarith
  moreover have "fl (slot - 14) \<ge> 84" using fl_mono [of 84 "slot - 14"] lo by (simp add: fl_simps)
  ultimately show "node_width slot \<le> slot - 13" "84 \<le> node_width slot"
    by (simp_all add: node_width_def NODE_MAX_WIDTH_def min_le_iff_disj)
qed

text \<open>Where a node of a band is, up to the rounding of its coordinates.\<close>

lemma band_node_bounds:
  fixes slot plot :: rat and k :: nat
  defines "slot \<equiv> fl (plot / of_nat k)"
  assumes "98 * of_nat k \<le> plot" "plot \<le> 10000" "i < k"
  shows "98 \<le> slot" "node_width slot \<le> slot - 13" "84 \<le> node_width slot" "slot * of_nat i + slot \<le> plot + 1"
    "\<bar>gn_x (node_of slot band i c) - (132 + slot * of_nat i + fl (fl (slot - node_width slot) / 2))\<bar> \<le> 3 / 1000"
    "\<bar>fl (fl (slot - node_width slot) / 2) - (slot - node_width slot) / 2\<bar> \<le> 2 / 1000"
    "gn_width (node_of slot band i c) = node_width slot" "gn_y (node_of slot band i c) = 42 + 86 * of_nat band"
proof -
  have "0 < k" using assms(4) by linarith
  from slot_bounds [OF this assms(2,3), folded slot_def]
  have b: "98 \<le> slot" "node_width slot \<le> slot - 13" "84 \<le> node_width slot"
    and k: "slot * of_nat k \<le> plot + 1" "slot \<le> 10001" by blast+
  show "98 \<le> slot" "node_width slot \<le> slot - 13" "84 \<le> node_width slot" by (fact b)+
  have "of_nat (Suc i) \<le> (of_nat k :: rat)" using assms(4) by (simp only: of_nat_le_iff)
  then have "slot * of_nat (Suc i) \<le> slot * of_nat k" using b(1) by (intro mult_left_mono) linarith+
  then show le: "slot * of_nat i + slot \<le> plot + 1" using k(1) by (simp add: algebra_simps)
  have "0 \<le> slot" "slot * of_nat i \<le> 32768" "slot \<le> 32768" using le b(1) k(2) assms(3) by linarith+
  from node_x_bounds [OF this]
  show "\<bar>gn_x (node_of slot band i c) - (132 + slot * of_nat i + fl (fl (slot - node_width slot) / 2))\<bar> \<le> 3 / 1000"
    "\<bar>fl (fl (slot - node_width slot) / 2) - (slot - node_width slot) / 2\<bar> \<le> 2 / 1000" by blast+
qed (simp_all add: node_of_def graph_sizes)

lemma band_nodes_nth:
  "i < length cs \<Longrightarrow> band_nodes plot band cs ! i = node_of (fl (plot / of_nat (length cs))) band i (cs ! i)"
  "length (band_nodes plot band cs) = length cs"
  by (simp_all add: band_nodes_def Let_def nth_enumerate_eq)

lemma band_nodes_sorted:
  assumes "98 * of_nat (length cs) \<le> plot" "plot \<le> 10000"
  shows "sorted_wrt apart (band_nodes plot band cs)"
    and "\<forall>a \<in> set (band_nodes plot band cs). gn_y a = 42 + 86 * of_nat band
      \<and> 132 \<le> gn_x a \<and> gn_x a + gn_width a \<le> 132 + plot + 10"
proof -
  let ?slot = "fl (plot / of_nat (length cs))"
  note at = band_node_bounds [OF assms]
  show "sorted_wrt apart (band_nodes plot band cs)"
    unfolding sorted_wrt_iff_nth_less band_nodes_nth(2)
  proof (intro allI impI)
    fix i j assume ij: "i < j" "j < length cs"
    then have "of_nat (Suc i) \<le> (of_nat j :: rat)" by (simp only: of_nat_le_iff)
    then have "?slot * of_nat (Suc i) \<le> ?slot * of_nat j"
      using at(1) [OF ij(2)] by (intro mult_left_mono) linarith+
    then have "?slot * of_nat i + ?slot \<le> ?slot * of_nat j" by (simp add: algebra_simps)
    then have "gn_x (node_of ?slot band i (cs ! i)) + node_width ?slot + 13 - 6 / 1000
        \<le> gn_x (node_of ?slot band j (cs ! j))"
      using at(5) [OF less_trans [OF ij], of band "cs ! i"] at(5) [OF ij(2), of band "cs ! j"] at(2) [OF ij(2)]
      by linarith
    then show "apart (band_nodes plot band cs ! i) (band_nodes plot band cs ! j)"
      using ij by (simp add: apart_def band_nodes_nth at(7,8))
  qed
  show "\<forall>a \<in> set (band_nodes plot band cs). gn_y a = 42 + 86 * of_nat band
      \<and> 132 \<le> gn_x a \<and> gn_x a + gn_width a \<le> 132 + plot + 10"
  proof
    fix a assume "a \<in> set (band_nodes plot band cs)"
    then obtain i where i: "i < length cs" "a = node_of ?slot band i (cs ! i)"
      by (metis in_set_conv_nth band_nodes_nth)
    have "0 \<le> ?slot * of_nat i" using at(1) [OF i(1)] by simp
    then show "gn_y a = 42 + 86 * of_nat band \<and> 132 \<le> gn_x a \<and> gn_x a + gn_width a \<le> 132 + plot + 10"
      using at(2,4,6) [OF i(1)] at(5) [OF i(1), of band "cs ! i"]
      unfolding i(2) at(7,8) [OF i(1)] diff_divide_distrib by (intro conjI refl) linarith+
  qed
qed

text \<open>The boxes of the bands from number \<open>n\<close> on, which are \<open>m\<close> bands.\<close>

definition inside_bands :: "rat \<Rightarrow> nat \<Rightarrow> nat \<Rightarrow> placed \<Rightarrow> bool" where
  "inside_bands plot n m a =
     (42 + 86 * of_nat n \<le> gn_y a \<and> gn_y a + 44 \<le> 86 * of_nat (n + m)
      \<and> 132 \<le> gn_x a \<and> gn_x a + gn_width a \<le> 132 + plot + 10)"

lemma inside_bands_Suc: "inside_bands plot (Suc n) m a \<Longrightarrow> inside_bands plot n (Suc m) a"
  by (auto simp: inside_bands_def algebra_simps)

lemma stacked_bands:
  assumes "\<And>d. 98 * of_nat (length (f d)) \<le> plot" "plot \<le> 10000"
  shows "sorted_wrt apart (concat (map (\<lambda>(band, d). band_nodes plot band (f d)) (enumerate n ds)))
    \<and> list_all (inside_bands plot n (length ds))
        (concat (map (\<lambda>(band, d). band_nodes plot band (f d)) (enumerate n ds)))"
proof (induction ds arbitrary: n)
  case (Cons d ds)
  note band = band_nodes_sorted [OF assms(1) [of d] assms(2), of n]
  let ?rest = "concat (map (\<lambda>(band, d). band_nodes plot band (f d)) (enumerate (Suc n) ds))"
  have len: "0 \<le> (of_nat (length ds) :: rat)" by simp
  have here: "list_all (inside_bands plot n (length (d # ds))) (band_nodes plot n (f d))"
    using band(2) len by (auto simp: list_all_iff inside_bands_def algebra_simps)
  have rest: "list_all (inside_bands plot n (length (d # ds))) ?rest"
    using Cons.IH [of "Suc n", THEN conjunct2] inside_bands_Suc by (simp add: list.pred_mono_strong)
  have "apart a b" if "a \<in> set (band_nodes plot n (f d))" "b \<in> set ?rest" for a b
  proof -
    have "inside_bands plot (Suc n) (length ds) b"
      using Cons.IH [of "Suc n", THEN conjunct2] that(2) unfolding list_all_iff by blast
    then show ?thesis using band(2) that(1) by (auto simp: apart_def inside_bands_def graph_sizes algebra_simps)
  qed
  then show ?case
    using band(1) Cons.IH [of "Suc n"] here rest by (simp add: sorted_wrt_append)
qed simp


lemma find_index_Some:
  "find_index P xs = Some k \<longleftrightarrow> k < length xs \<and> P (xs ! k) \<and> (\<forall>j < k. \<not> P (xs ! j))"
proof (induction xs arbitrary: k)
  case (Cons x xs)
  then show ?case by (cases k) (auto simp: All_less_Suc2)
qed simp

lemma map_of_boundary_rows:
  assumes "distinct (map tb_id (tp_trust_boundaries t))" "b \<in> set (tp_trust_boundaries t)"
  shows "map_of (boundary_rows t) (tb_id b) = (case boundary_band t b of
    Some k \<Rightarrow> if k > 0 then Some k else None | None \<Rightarrow> None)"
proof -
  let ?step = "\<lambda>rows b. case boundary_band t b of
              Some index \<Rightarrow> if index > 0 then AList.update (tb_id b) index rows else rows
            | None \<Rightarrow> rows"
  have "map_of (foldl ?step rows bs) (tb_id b) = (if b \<in> set bs
      then (case boundary_band t b of Some k \<Rightarrow> if k > 0 then Some k else None | None \<Rightarrow> None)
      else map_of rows (tb_id b))"
    if "distinct (map tb_id bs)" "b \<in> set bs \<or> tb_id b \<notin> tb_id ` set bs"
      "b \<in> set bs \<Longrightarrow> map_of rows (tb_id b) = None" for rows bs
    using that
  proof (induction bs arbitrary: rows)
    case (Cons c bs)
    show ?case
    proof (cases "c = b")
      case True
      then have "b \<notin> set bs" "tb_id b \<notin> tb_id ` set bs" using Cons.prems(1) by auto
      then show ?thesis using Cons True by (auto simp: AList.update_conv' split: option.splits)
    next
      case False
      have "tb_id c \<noteq> tb_id b" using Cons.prems(1,2) False by auto
      then have "map_of (?step rows c) (tb_id b) = map_of rows (tb_id b)"
        by (simp add: AList.update_conv' split: option.splits)
      then show ?thesis using Cons False by auto
    qed
  qed simp
  from this [of "tp_trust_boundaries t" "[]"] show ?thesis
    using assms by (simp add: boundary_rows_def)
qed

text \<open>
  C20. A trust boundary is drawn where it belongs: every component in a band above its line is
  outside the zone it protects, and the band under the line has a component inside. It is left out
  exactly when no component is in that zone or when one is in the topmost band, above which
  there is nothing to separate from.
\<close>

theorem boundary_line_separates:
  assumes "distinct (map tb_id (tp_trust_boundaries t))" "b \<in> set (tp_trust_boundaries t)"
  defines "inside \<equiv> \<lambda>d. \<exists>c \<in> set (tp_components t). co_domain c = d \<and> co_trust_zone c = tb_downstream_zone b"
  shows "(case map_of (boundary_rows t) (tb_id b) of
      Some k \<Rightarrow> 0 < k \<and> k < length (graph_bands t) \<and> inside (graph_bands t ! k)
        \<and> (\<forall>j < k. \<not> inside (graph_bands t ! j))
    | None \<Rightarrow> (\<forall>d. \<not> inside d) \<or> inside (hd (graph_bands t)))"
proof -
  have P: "list_ex (\<lambda>c. co_trust_zone c = tb_downstream_zone b) (band_components t d) = inside d" for d
    by (auto simp: band_components_eq inside_def list_ex_iff)
  have bb: "boundary_band t b = find_index inside (graph_bands t)" by (simp add: boundary_band_def P)
  have none: "find_index inside ds = None \<longleftrightarrow> (\<forall>d \<in> set ds. \<not> inside d)" for ds by (induction ds) auto
  have bands: "inside d \<Longrightarrow> d \<in> set (graph_bands t)" for d by (auto simp: graph_bands_eq inside_def)
  show ?thesis
  proof (cases "find_index inside (graph_bands t)")
    case None
    then have "\<not> inside d" for d using bands none [of "graph_bands t"] by blast
    then show ?thesis using None map_of_boundary_rows [OF assms(1,2)] by (simp add: bb)
  next
    case (Some k)
    then have k: "k < length (graph_bands t)" "inside (graph_bands t ! k)" "\<forall>j < k. \<not> inside (graph_bands t ! j)"
      by (auto simp: find_index_Some)
    show ?thesis
    proof (cases k)
      case 0
      then have "inside (hd (graph_bands t))" using k by (metis hd_conv_nth list.size(3) not_less_zero)
      then show ?thesis using Some 0 map_of_boundary_rows [OF assms(1,2)] by (simp add: bb)
    next
      case (Suc m)
      then show ?thesis using Some k map_of_boundary_rows [OF assms(1,2)] by (simp add: bb)
    qed
  qed
qed

text \<open>A gateway in front of the flight core, for the witnesses.\<close>

definition two_zones :: topology where
  "two_zones =
     \<lparr>tp_id = ''t'', tp_name = ''two zones'', tp_vehicle_class = ''quad'',
      tp_components =
        [\<lparr>co_id = ''flight'', co_name = ''Flight core'', co_description = [], co_category = [],
          co_domain = Flight_control, co_trust_zone = TZ_flight_critical, co_critical = True,
          co_healthy_state = NOMINAL\<rparr>,
         \<lparr>co_id = ''gcs'', co_name = ''Ground station'', co_description = [], co_category = [],
          co_domain = External, co_trust_zone = TZ_external, co_critical = False,
          co_healthy_state = NOMINAL\<rparr>],
      tp_dependencies = [],
      tp_trust_boundaries =
        [\<lparr>tb_id = ''b'', tb_name = ''Boundary'', tb_description = [], tb_upstream_zone = TZ_external,
          tb_downstream_zone = TZ_flight_critical, tb_enforcement_point = None\<rparr>]\<rparr>"

lemma two_zones_bands: "graph_bands two_zones = [External, Flight_control]"
  by (simp add: graph_bands_eq two_zones_def DOMAIN_ORDER_def)


theorem boundary_line_separates_witness:
  "boundary_rows two_zones = [(''b'', 1)] \<and> graph_bands two_zones ! 1 = Flight_control
   \<and> (\<exists>b. b \<in> set (tp_trust_boundaries two_zones) \<and> map_of (boundary_rows two_zones) (tb_id b) = Some 1
        \<and> (\<exists>c \<in> set (tp_components two_zones). co_domain c = Flight_control \<and> co_trust_zone c = tb_downstream_zone b))"
proof -
  have rows: "boundary_rows two_zones = [(''b'', 1)]"
    by (simp add: boundary_rows_def boundary_band_def two_zones_bands band_components_eq)
      (simp add: two_zones_def)
  let ?b = "hd (tp_trust_boundaries two_zones)"
  have b: "distinct (map tb_id (tp_trust_boundaries two_zones))" "?b \<in> set (tp_trust_boundaries two_zones)"
    by (simp_all add: two_zones_def)
  have id: "tb_id ?b = ''b''" by (simp add: two_zones_def)
  from boundary_line_separates [OF b, unfolded rows id]
  have "\<exists>c \<in> set (tp_components two_zones). co_domain c = Flight_control \<and> co_trust_zone c = tb_downstream_zone ?b"
    by (simp add: two_zones_bands)
  then show ?thesis using b(2) rows id two_zones_bands by auto
qed

end
