(* ===== verification/SystemPage.thy ===== *)
theory SystemPage
  imports RunDetail EventEditor TopologyGraph
begin

text \<open>
  app/system/system-view.tsx: versions, health, adapters, runners, trust boundaries, score profiles,
  fault catalog and effect descriptors of the platform, as tables.
\<close>

section \<open>The system record\<close>

text \<open>
  \<open>SystemInfo\<close>: the parts Mission Control reads (\<open>system_data\<close>) and the ones only this page shows.
  A catalog entry has the fields the editors read and three more.
\<close>

record platform_health =
  ph_artifact_store :: bool
  ph_bus :: bool
  ph_database :: bool

record catalog_row = catalog_entry +
  ce_domain :: string
  ce_trust_zone :: string
  ce_healthy_state :: component_state

record system_info = system_data +
  si_catalog :: "catalog_row list"
  si_counts :: "(string \<times> int) list"
  si_effects :: "effect_descriptor list"
  si_environment :: string
  si_git_commit :: "string option"
  si_health :: platform_health
  si_protocol_version :: string
  si_report_schema_version :: string
  si_scenario_api_version :: string
  si_score_profiles :: "score_profile list"
  si_software_version :: string

section \<open>Panels\<close>

fun ADAPTER_STATUS_TONE :: "adapter_status \<Rightarrow> tone" where
  "ADAPTER_STATUS_TONE AS_available = Ok"
| "ADAPTER_STATUS_TONE AS_experimental = Warn"
| "ADAPTER_STATUS_TONE AS_planned = Dim"

fun adapter_status_str :: "adapter_status \<Rightarrow> string" where
  "adapter_status_str AS_available = ''available''"
| "adapter_status_str AS_experimental = ''experimental''"
| "adapter_status_str AS_planned = ''planned''"

definition platform_healthy :: "system_info \<Rightarrow> bool" where
  "platform_healthy s =
     (let h = si_health s in ph_database h \<and> ph_bus h \<and> ph_artifact_store h)"

definition version_fields :: "system_info \<Rightarrow> (string \<times> string) list" where
  "version_fields s =
     [(''Software'', si_software_version s), (''Scenario API'', si_scenario_api_version s),
      (''Report schema'', si_report_schema_version s), (''Stream protocol'', si_protocol_version s),
      (''Git commit'', nullish (si_git_commit s) ''not recorded''), (''Environment'', si_environment s)]"

definition health_rows :: "platform_health \<Rightarrow> (string \<times> badge) list" where
  "health_rows h =
     map (\<lambda>(label, ok). (label, if ok then plain_badge ''READY'' Ok else plain_badge ''UNAVAILABLE'' Bad))
       [(''Database'', ph_database h), (''Message bus'', ph_bus h), (''Artifact store'', ph_artifact_store h)]"

text \<open>\<open>s.replace(/_/g, " ")\<close>\<close>

definition spaced_words :: "string \<Rightarrow> string" where
  "spaced_words s = map (\<lambda>c. if c = CHR ''_'' then CHR '' '' else c) s"

definition count_rows :: "(string \<times> int) list \<Rightarrow> (string \<times> string) list" where
  "count_rows xs = map (\<lambda>(key, value). (spaced_words key, int_text value)) xs"

record adapter_row =
  aq_name :: "string \<times> string"
  aq_tip :: "string \<times> string option"
  aq_kind :: string
  aq_badges :: "badge \<times> badge"
  aq_origin :: string
  aq_runners :: string

definition online_badge :: "bool \<Rightarrow> string \<Rightarrow> tone \<Rightarrow> badge" where
  "online_badge online offline tone =
     (if online then plain_badge ''ONLINE'' Ok else plain_badge offline tone)"

definition adapter_row_of :: "adapter_info \<Rightarrow> adapter_row" where
  "adapter_row_of a =
     \<lparr>aq_name = (ai_display_name a, ai_name a),
      aq_tip = (ai_description a, if ai_requirements a \<noteq> [] then Some (''Requires: '' @ ai_requirements a) else None),
      aq_kind = ai_kind a,
      aq_badges = (plain_badge (to_upper (adapter_status_str (ai_status a))) (ADAPTER_STATUS_TONE (ai_status a)),
                   online_badge (ai_online a) ''OFFLINE'' Dim),
      aq_origin = ai_data_origin a,
      aq_runners = (if ai_runners a \<noteq> [] then join_with '', '' (ai_runners a) else ''none'')\<rparr>"

record runner_row =
  rx_id :: string
  rx_version :: string
  rx_adapters :: string
  rx_active :: string
  rx_heartbeat :: "string \<times> string"
  rx_state :: badge

definition runner_row_of :: "(string \<Rightarrow> int) \<Rightarrow> int \<Rightarrow> runner_info \<Rightarrow> runner_row" where
  "runner_row_of date_ms now r =
     \<lparr>rx_id = ri_runner_id r, rx_version = ri_version r, rx_adapters = join_with '', '' (ri_adapters r),
      rx_active = nullish (ri_active_run_id r) ''idle'',
      rx_heartbeat = (relative_time date_ms now (Some (ri_last_heartbeat_at r)), ri_last_heartbeat_at r),
      rx_state = online_badge (ri_online r) ''STALE'' Bad\<rparr>"

definition runner_table :: "(string \<Rightarrow> int) \<Rightarrow> int \<Rightarrow> runner_info list \<Rightarrow> runner_row rows" where
  "runner_table date_ms now rs =
     (if rs = [] then No_rows ''No runner has registered. Queued runs will wait until one comes online.''
      else Rows (map (runner_row_of date_ms now) rs))"

record boundary_card =
  bc_name :: string
  bc_zones :: string
  bc_enforcement :: "string option"
  bc_description :: string

definition boundary_card_of :: "trust_boundary \<Rightarrow> boundary_card" where
  "boundary_card_of b =
     \<lparr>bc_name = tb_name b,
      bc_zones = zone_str (tb_upstream_zone b) @ '' to '' @ zone_str (tb_downstream_zone b),
      bc_enforcement = (if truthy (tb_enforcement_point b)
        then Some (''enforcement point '' @ nullish (tb_enforcement_point b) []) else None),
      bc_description = tb_description b\<rparr>"

text \<open>A weight: its name, its text and whether it is faded.\<close>

record profile_card =
  fc_name :: string
  fc_sum :: badge
  fc_description :: string
  fc_weights :: "(string \<times> string \<times> bool) list"
  fc_parameters :: "string option"

definition by_weight :: "string \<times> rat \<Rightarrow> string \<times> rat \<Rightarrow> rat" where
  "by_weight a b = fl (snd b - snd a)"

definition profile_card_of :: "score_profile \<Rightarrow> profile_card" where
  "profile_card_of p =
     (let weight_sum = sum_doubles (map snd (pf_weights p))
      in \<lparr>fc_name = pf_name p,
          fc_sum = plain_badge (''weights sum '' @ rat_str weight_sum) (if weight_sum = 100 then Ok else Bad),
          fc_description = pf_description p,
          fc_weights = map (\<lambda>(dimension, weight). (spaced_words dimension, rat_str weight, weight = 0))
            (js_sort by_weight (pf_weights p)),
          fc_parameters = map_option (\<lambda>k. ''mttr target '' @ rat_str (sk_mttr_target k) @ ''s, limit ''
            @ rat_str (sk_mttr_limit k) @ ''s, containment penalty '' @ rat_str (sk_containment_penalty k)
            @ '' per domain'') (pf_parameters p)\<rparr>)"

text \<open>\<open>DOMAIN_LABEL[entry.domain] ?? entry.domain\<close> for a domain that comes as text.\<close>

fun domain_str :: "domain \<Rightarrow> string" where
  "domain_str External = ''external''"
| "domain_str Communications = ''communications''"
| "domain_str Navigation = ''navigation''"
| "domain_str Mission_compute = ''mission_compute''"
| "domain_str Flight_control = ''flight_control''"
| "domain_str Actuation = ''actuation''"
| "domain_str Power = ''power''"

definition domain_text :: "string \<Rightarrow> string" where
  "domain_text s = (case find (\<lambda>d. domain_str d = s) DOMAIN_ORDER of Some d \<Rightarrow> DOMAIN_LABEL d | None \<Rightarrow> s)"

record catalog_view =
  cw_critical :: "string option"
  cw_name :: "string \<times> string"
  cw_domain :: string
  cw_category :: string
  cw_zone :: string
  cw_healthy :: badge
  cw_effects :: "string list + string"

definition catalog_view_of :: "catalog_row \<Rightarrow> catalog_view" where
  "catalog_view_of e =
     \<lparr>cw_critical = (if ce_critical e
        then Some ''Flight critical: losing this component means losing the flight-critical function.'' else None),
      cw_name = (ce_name e, ce_subsystem e), cw_domain = domain_text (ce_domain e),
      cw_category = ce_category e, cw_zone = ce_trust_zone e,
      cw_healthy = component_state_badge (Some (ce_healthy_state e)),
      cw_effects = (if ce_effects e = [] then Inr ''none'' else Inl (map effect_str (ce_effects e)))\<rparr>"

definition parameter_bounds :: "parameter_spec \<Rightarrow> string" where
  "parameter_bounds p =
     join_with '', '' (List.map_filter id
       [map_option (\<lambda>x. ''min '' @ num_str x) (ps_minimum p), map_option (\<lambda>x. ''max '' @ num_str x) (ps_maximum p)])"

definition parameter_text :: "parameter_spec \<Rightarrow> string" where
  "parameter_text p =
     ps_name p @ '' ('' @ ps_type p
       @ (if parameter_bounds p \<noteq> [] then '', '' @ parameter_bounds p else []) @ '')''"

record effect_row =
  ex_effect :: string
  ex_description :: string
  ex_transient :: badge
  ex_duration :: string
  ex_parameters :: string

definition effect_row_of :: "effect_descriptor \<Rightarrow> effect_row" where
  "effect_row_of d =
     \<lparr>ex_effect = effect_str (ef_effect d), ex_description = ef_description d,
      ex_transient = (if ef_transient d then plain_badge ''TRANSIENT'' Info else plain_badge ''PERSISTENT'' Dim),
      ex_duration = (if ef_duration_required d then ''yes'' else ''no''),
      ex_parameters = (if ef_parameters d = [] then ''none''
        else join_with ''  |  '' (map parameter_text (ef_parameters d)))\<rparr>"

section \<open>The page\<close>

record system_page =
  sx_badge :: badge
  sx_environment :: string
  sx_versions :: "(string \<times> string) list"
  sx_health :: "(string \<times> badge) list"
  sx_counts :: "(string \<times> string) list"
  sx_adapters :: "adapter_row list"
  sx_runners :: "runner_row rows"
  sx_topology :: string
  sx_graph :: "graph_view option"
  sx_boundaries :: "boundary_card list"
  sx_profiles :: "profile_card list"
  sx_catalog :: "catalog_view list"
  sx_effects :: "effect_row list"

datatype system_view = System_error error_view | System_loading | System system_page

definition system_page_of :: "(string \<Rightarrow> int) \<Rightarrow> int \<Rightarrow> rat \<Rightarrow> system_info \<Rightarrow> system_page" where
  "system_page_of date_ms now width s =
     (let tp = sy_topology s
      in \<lparr>sx_badge = (if platform_healthy s then plain_badge ''PLATFORM HEALTHY'' Ok
                      else plain_badge ''PLATFORM DEGRADED'' Bad),
          sx_environment = si_environment s,
          sx_versions = version_fields s,
          sx_health = health_rows (si_health s),
          sx_counts = count_rows (si_counts s),
          sx_adapters = map adapter_row_of (sy_adapters s),
          sx_runners = runner_table date_ms now (sy_runners s),
          sx_topology = tp_name tp @ '', '' @ dec (int (length (tp_components tp))) @ '' components, ''
            @ dec (int (length (tp_dependencies tp))) @ '' dependencies'',
          sx_graph = topology_graph tp width,
          sx_boundaries = map boundary_card_of (tp_trust_boundaries tp),
          sx_profiles = map profile_card_of (si_score_profiles s),
          sx_catalog = map catalog_view_of (si_catalog s),
          sx_effects = map effect_row_of (si_effects s)\<rparr>)"

definition system_view_of ::
  "(string \<Rightarrow> int) \<Rightarrow> int \<Rightarrow> rat \<Rightarrow> system_info fetched \<Rightarrow> system_view" where
  "system_view_of date_ms now width q =
     (case qf_error q of
        Some e \<Rightarrow> System_error (error_state ''Platform unavailable'' e True)
      | None \<Rightarrow> (case qf_data q of
            None \<Rightarrow> System_loading
          | Some s \<Rightarrow> System (system_page_of date_ms now width s)))"

section \<open>Properties\<close>

lemma foldl_doubles:
  "a + sum_list ns \<le> 2 ^ 53 \<Longrightarrow>
     foldl (\<lambda>s x. fl (s + x)) (of_nat a) (map of_nat ns) = of_nat (a + sum_list ns)"
proof (induction ns arbitrary: a)
  case (Cons n ns)
  then have "fl (of_nat (a + n)) = of_nat (a + n)" by (intro fl_of_nat) simp
  then have "fl (of_nat a + of_nat n) = of_nat (a + n)" by (simp only: of_nat_add)
  then show ?case using Cons.IH [of "a + n"] Cons.prems by (simp add: add.assoc del: of_nat_add)
qed simp

lemma sum_doubles_nat: "sum_list ns \<le> 2 ^ 53 \<Longrightarrow> sum_doubles (map of_nat ns) = of_nat (sum_list ns)"
  using foldl_doubles [of 0 ns] by (simp add: sum_doubles_def)

lemma by_weight_nat:
  assumes "n \<le> 2 ^ 53" "m \<le> 2 ^ 53" "snd a = of_nat n" "snd b = of_nat m"
  shows "by_weight a b \<le> 0 \<longleftrightarrow> snd b \<le> snd a"
proof -
  have "fl (of_int (int m - int n)) = of_int (int m - int n)" 
  proof (rule fl_of_int)
    have "int n \<le> 2 ^ 53" "int m \<le> 2 ^ 53" using assms(1,2) by simp_all
    then show "\<bar>int m - int n\<bar> \<le> 2 ^ 53" by simp
  qed
  then show ?thesis using assms(3,4) by (simp add: by_weight_def)
qed

text \<open>
  C25. A score profile, whose weights are whole numbers, is shown with every weight once, the heaviest
  first and equal ones in the profile's order, and its badge is green exactly when the weights
  add up to 100.
\<close>

theorem profile_card_exact:
  assumes "map snd (pf_weights p) = map of_nat ns" "sum_list ns \<le> 2 ^ 53"
  shows "(\<exists>ws. fc_weights (profile_card_of p) = map (\<lambda>(d, w). (spaced_words d, rat_str w, w = 0)) ws
        \<and> mset ws = mset (pf_weights p) \<and> sorted_wrt (\<lambda>a b. snd b \<le> snd a) ws
        \<and> (filter (\<lambda>x. snd x = w) ws = filter (\<lambda>x. snd x = w) (pf_weights p)))
    \<and> (bd_tone (fc_sum (profile_card_of p)) = Ok \<longleftrightarrow> sum_list ns = 100)"
proof -
  let ?key = "by_key (\<lambda>x :: string \<times> rat. - snd x)"
  have nat: "\<exists>n. snd a = of_nat n \<and> n \<le> 2 ^ 53" if "a \<in> set (pf_weights p)" for a
  proof -
    have "snd a \<in> of_nat ` set ns" using that assms(1) by (metis image_eqI list.set_map)
    then show ?thesis using assms(2) member_le_sum_list [of _ ns] by (fastforce intro: le_trans)
  qed
  have "by_weight a b \<le> 0 \<longleftrightarrow> ?key a b \<le> 0" if ab: "a \<in> set (pf_weights p)" "b \<in> set (pf_weights p)" for a b
  proof -
    obtain n m where "snd a = of_nat n" "n \<le> 2 ^ 53" "snd b = of_nat m" "m \<le> 2 ^ 53"
      using nat [OF ab(1)] nat [OF ab(2)] by blast
    from by_weight_nat [OF this(2,4,1,3)] show ?thesis by simp
  qed
  then have sort: "js_sort by_weight (pf_weights p) = js_sort ?key (pf_weights p)" by (rule js_sort_cong)
  have "sorted_wrt (\<lambda>a b. snd b \<le> snd a) (js_sort ?key (pf_weights p))"
    using by_key.sorted_js_sort [of "\<lambda>x :: string \<times> rat. - snd x" "pf_weights p"] by simp
  moreover have "filter (\<lambda>x. snd x = w) (js_sort ?key (pf_weights p)) = filter (\<lambda>x. snd x = w) (pf_weights p)"
    unfolding by_key.filter_js_sort by (rule js_sort_id, rule sorted_wrt_all) auto
  moreover have "bd_tone (fc_sum (profile_card_of p)) = Ok \<longleftrightarrow> sum_list ns = 100"
  proof -
    have "sum_doubles (map snd (pf_weights p)) = of_nat (sum_list ns)" using assms by (simp add: sum_doubles_nat)
    then show ?thesis by (simp add: profile_card_of_def Let_def)
  qed
  ultimately show ?thesis
    by (intro conjI exI [of _ "js_sort ?key (pf_weights p)"]) (simp_all add: profile_card_of_def Let_def sort)
qed

theorem profile_card_exact_witness:
  "let p = \<lparr>pf_description = [], pf_name = ''default'', pf_parameters = None,
            pf_weights = [(''safety'', 40), (''time'', 60)]\<rparr>
   in fc_weights (profile_card_of p) = [(''time'', ''60'', False), (''safety'', ''40'', False)]
      \<and> bd_tone (fc_sum (profile_card_of p)) = Ok"
proof -
  let ?p = "\<lparr>pf_description = [], pf_name = ''default'', pf_parameters = None,
            pf_weights = [(''safety'', 40), (''time'', 60)]\<rparr>"
  have "map snd (pf_weights ?p) = map of_nat [40, 60]" "sum_list [40, 60 :: nat] \<le> 2 ^ 53" by simp_all
  from profile_card_exact [OF this] have "bd_tone (fc_sum (profile_card_of ?p)) = Ok" by simp
  moreover have "fc_weights (profile_card_of ?p) = [(''time'', ''60'', False), (''safety'', ''40'', False)]"
    by (simp add: profile_card_of_def Let_def by_weight_def num_str_numeral dec_text spaced_words_def fl_simps)
  ultimately show ?thesis by (simp only: Let_def simp_thms)
qed

end
