(* ===== verification/AppFrame.thy ===== *)
theory AppFrame
  imports SystemPage ClientState
begin

text \<open>
  components/layout/app-shell.tsx and platform-status.tsx, components/ui/segmented.tsx and
  app/settings/settings-view.tsx: the navigation bar, the status light of the platform and the
  settings page, whose controls drive the settings store of \<open>ClientState\<close>.
\<close>

section \<open>Navigation\<close>

definition NAV :: "(string \<times> string) list" where
  "NAV =
     [(''/mission-control'', ''Mission Control''), (''/scenarios'', ''Scenarios''), (''/runs'', ''Runs''),
      (''/compare'', ''Compare''), (''/reports'', ''Reports''), (''/system'', ''System''), (''/settings'', ''Settings'')]"

definition nav_active :: "string \<Rightarrow> string \<Rightarrow> bool" where
  "nav_active pathname href = (pathname = href \<or> starts_with (href @ ''/'') pathname)"

definition nav_items :: "string \<Rightarrow> (string \<times> string \<times> bool) list" where
  "nav_items pathname = map (\<lambda>(href, label). (href, label, nav_active pathname href)) NAV"

section \<open>Platform status\<close>

record platform_status =
  lt_version :: string
  lt_tone :: tone
  lt_label :: string
  lt_runners :: "string option"

definition platform_status_of :: "system_info fetched \<Rightarrow> platform_status" where
  "platform_status_of q =
     (let runners = (case qf_data q of None \<Rightarrow> 0 | Some s \<Rightarrow> length (filter ri_online (sy_runners s)));
          healthy = (case qf_data q of None \<Rightarrow> False | Some s \<Rightarrow> platform_healthy s);
          failed = (qf_error q \<noteq> None)
      in \<lparr>lt_version = ''v'' @ (case qf_data q of None \<Rightarrow> ''0.1.0'' | Some s \<Rightarrow> si_software_version s),
          lt_tone = (if failed then Bad else if qf_loading q then Dim
                     else if healthy \<and> runners > 0 then Ok else Warn),
          lt_label = (if failed then ''API UNREACHABLE'' else if qf_loading q then ''CONNECTING''
                      else if runners = 0 then ''NO RUNNER ONLINE''
                      else if healthy then ''PLATFORM NOMINAL'' else ''PLATFORM DEGRADED''),
          lt_runners = (if qf_data q \<noteq> None \<and> runners > 0
            then Some (dec (int runners) @ '' runner'' @ (if runners = 1 then [] else ''s'')) else None)\<rparr>)"

section \<open>Segmented controls\<close>

text \<open>An option: value, label and title. Clicking the active segment reports the empty value, which is ignored.\<close>

record segment =
  sm_value :: string
  sm_label :: string
  sm_title :: "string option"

definition segmented_change :: "(string \<Rightarrow> 'a) \<Rightarrow> string \<Rightarrow> 'a option" where
  "segmented_change onValueChange next_value = (if next_value \<noteq> [] then Some (onValueChange next_value) else None)"

text \<open>What the toggle group reports when a segment is clicked.\<close>

definition segment_clicked :: "string \<Rightarrow> string \<Rightarrow> string" where
  "segment_clicked current clicked = (if clicked = current then [] else clicked)"

section \<open>Settings page\<close>

fun camera_str :: "camera_mode \<Rightarrow> string" where
  "camera_str Cam_chase = ''chase''"
| "camera_str Cam_orbit = ''orbit''"
| "camera_str Cam_top = ''top''"
| "camera_str Cam_fpv = ''fpv''"

abbreviation option_of :: "string \<Rightarrow> string \<Rightarrow> segment" where
  "option_of v l \<equiv> \<lparr>sm_value = v, sm_label = l, sm_title = None\<rparr>"

definition CAMERA_OPTIONS :: "segment list" where
  "CAMERA_OPTIONS =
     [option_of ''chase'' ''Chase'', option_of ''orbit'' ''Orbit'', option_of ''top'' ''Top'', option_of ''fpv'' ''FPV'']"

definition RATE_OPTIONS :: "segment list" where
  "RATE_OPTIONS =
     [\<lparr>sm_value = ''5'', sm_label = ''5 Hz'', sm_title = Some ''Lightest on the browser''\<rparr>,
      \<lparr>sm_value = ''10'', sm_label = ''10 Hz'', sm_title = Some ''Default''\<rparr>,
      \<lparr>sm_value = ''20'', sm_label = ''20 Hz'', sm_title = Some ''Smoothest readouts''\<rparr>]"

definition speed_options :: "segment list" where
  "speed_options = map (\<lambda>x. option_of (dec (demo_factor x)) (dec (demo_factor x) @ ''x'')) DEMO_SPEEDS"

text \<open>
  \<open>Number(value) as DemoSpeed\<close> and its like: a text that names no member of the type is not in the
  model (\<open>None\<close>); the controls never report one.
\<close>

definition to_demo_speed :: "string \<Rightarrow> demo_speed option" where
  "to_demo_speed v = find (\<lambda>x. parse_number v = Fin (of_int (demo_factor x))) DEMO_SPEEDS"

definition to_telemetry_rate :: "string \<Rightarrow> telemetry_rate option" where
  "to_telemetry_rate v = find (\<lambda>x. parse_number v = Fin (of_int (telemetry_hz x))) [Rate_5, Rate_10, Rate_20]"

definition to_camera :: "string \<Rightarrow> camera_mode option" where
  "to_camera v = find (\<lambda>x. camera_str x = v) [Cam_chase, Cam_orbit, Cam_top, Cam_fpv]"

datatype settings_control =
    Click_speed string | Click_rate string | Click_camera string
  | Switch_logs bool | Switch_motion bool | Restore_defaults

definition control_action :: "settings \<Rightarrow> settings_control \<Rightarrow> settings_action option" where
  "control_action s c =
     (case c of
        Click_speed v \<Rightarrow> Option.bind (segmented_change to_demo_speed
          (segment_clicked (dec (demo_factor (sg_demo_speed s))) v)) (map_option Set_demo_speed)
      | Click_rate v \<Rightarrow> Option.bind (segmented_change to_telemetry_rate
          (segment_clicked (dec (telemetry_hz (sg_telemetry_rate s))) v)) (map_option Set_telemetry_rate)
      | Click_camera v \<Rightarrow> Option.bind (segmented_change to_camera
          (segment_clicked (camera_str (sg_camera_mode s)) v)) (map_option Set_camera_mode)
      | Switch_logs b \<Rightarrow> Some (Set_show_log_events b)
      | Switch_motion b \<Rightarrow> Some (Set_reduced_motion b)
      | Restore_defaults \<Rightarrow> Some Reset_settings)"

definition settings_control_step :: "settings_control \<Rightarrow> settings \<Rightarrow> settings" where
  "settings_control_step c s = (case control_action s c of Some a \<Rightarrow> settings_step a s | None \<Rightarrow> s)"

record settings_page =
  sq_speed :: "string \<times> segment list"
  sq_rate :: "string \<times> segment list"
  sq_camera :: "string \<times> segment list"
  sq_logs :: "bool \<times> string"
  sq_motion :: "bool \<times> string"
  sq_connection :: "(string \<times> string) list"

definition settings_page_of :: "string option \<Rightarrow> location option \<Rightarrow> settings \<Rightarrow> settings_page" where
  "settings_page_of env window s =
     \<lparr>sq_speed = (dec (demo_factor (sg_demo_speed s)), speed_options),
      sq_rate = (dec (telemetry_hz (sg_telemetry_rate s)), RATE_OPTIONS),
      sq_camera = (camera_str (sg_camera_mode s), CAMERA_OPTIONS),
      sq_logs = (sg_show_log_events s, if sg_show_log_events s then ''shown'' else ''hidden''),
      sq_motion = (sg_reduced_motion s, if sg_reduced_motion s then ''on'' else ''off''),
      sq_connection =
        [(''API base'', if API_BASE env \<noteq> [] then API_BASE env else ''same origin as this page''),
         (''Run stream'', stream_url env window ''{run_id}''),
         (''OpenAPI documentation'', api_url env ''/api/docs''),
         (''OpenAPI schema'', api_url env ''/api/openapi.json'')]\<rparr>"

section \<open>Properties\<close>

lemma none_marked:
  "(\<And>y. y \<in> set xs \<Longrightarrow> \<not> P (fst y)) \<Longrightarrow>
     (\<Sum>i \<leftarrow> map (\<lambda>(href, label). (href, label, P href)) xs. if snd (snd i) then 1 else 0) = (0 :: nat)"
  by (induction xs) (auto simp: split_def)

lemma nav_active_first:
  assumes "nav_active pathname a" "CHR ''/'' \<notin> set (tl a)" "hd a = CHR ''/''" "a \<noteq> []"
  shows "a = CHR ''/'' # takeWhile (\<lambda>c. c \<noteq> CHR ''/'') (tl pathname)"
proof -
  obtain t where a: "a = CHR ''/'' # t" using assms(3,4) by (cases a) auto
  obtain r where "pathname = a @ r" "r = [] \<or> hd r = CHR ''/''"
    using assms(1) by (auto simp: nav_active_def starts_with_iff)
  then have "tl pathname = t @ r" "r = [] \<or> hd r = CHR ''/''" using a by auto
  moreover have "takeWhile (\<lambda>c. c \<noteq> CHR ''/'') (t @ r) = t"
    using assms(2) a \<open>r = [] \<or> hd r = CHR ''/''\<close>
    by (subst takeWhile_append2) (auto, cases r, auto)
  ultimately show ?thesis using a by simp
qed

text \<open>
  The navigation marks at most one entry: the page itself or the section it lies in, and no page
  outside of the sections marks any.
\<close>

theorem nav_marks_one:
  "(\<Sum>i \<leftarrow> nav_items pathname. if snd (snd i) then 1 else 0) \<le> (1 :: nat)
   \<and> list_all (\<lambda>(href, label). (href, label, True) \<in> set (nav_items href)
        \<and> (href, label, True) \<in> set (nav_items (href @ ''/'' @ below))) NAV"
proof -
  have sep: "\<not> (nav_active pathname a \<and> nav_active pathname b)"
    if "a \<noteq> b" "CHR ''/'' \<notin> set (tl a)" "CHR ''/'' \<notin> set (tl b)" "hd a = CHR ''/''" "hd b = CHR ''/''"
      "a \<noteq> []" "b \<noteq> []" for a b
  proof
    assume both: "nav_active pathname a \<and> nav_active pathname b"
    show False using nav_active_first [of pathname a] nav_active_first [of pathname b] both that by metis
  qed
  have at_most: "(\<Sum>i \<leftarrow> map (\<lambda>(href, label). (href, label, nav_active pathname href)) xs. if snd (snd i) then 1 else 0) \<le> (1 :: nat)"
    if "distinct (map fst xs)" "list_all (\<lambda>x. CHR ''/'' \<notin> set (tl (fst x)) \<and> hd (fst x) = CHR ''/'' \<and> fst x \<noteq> []) xs" for xs
    using that
  proof (induction xs)
    case (Cons x xs)
    show ?case
    proof (cases "nav_active pathname (fst x)")
      case True
      have "\<not> nav_active pathname (fst y)" if "y \<in> set xs" for y
        using sep [of "fst x" "fst y"] True Cons.prems that by (auto simp: list_all_iff)
      then have "(\<Sum>i \<leftarrow> map (\<lambda>(href, label). (href, label, nav_active pathname href)) xs. if snd (snd i) then 1 else 0) = (0 :: nat)"
        by (intro none_marked)
      then show ?thesis using True by (simp add: split_def)
    next
      case False
      then show ?thesis using Cons by (simp add: split_def)
    qed
  qed simp
  have "(href, label, True) \<in> set (nav_items (href @ r))"
    if "(href, label) \<in> set NAV" "r = [] \<or> r = ''/'' @ below" for href label r
    using that by (force simp: nav_items_def nav_active_def starts_with_iff)
  then have "list_all (\<lambda>(href, label). (href, label, True) \<in> set (nav_items href)
        \<and> (href, label, True) \<in> set (nav_items (href @ ''/'' @ below))) NAV"
    by (force simp: list_all_iff)
  moreover have "(\<Sum>i \<leftarrow> nav_items pathname. if snd (snd i) then 1 else 0) \<le> (1 :: nat)"
    unfolding nav_items_def by (rule at_most) (simp_all add: NAV_def)
  ultimately show ?thesis by (rule conjI [rotated])
qed

text \<open>
  Every segment of the settings page does what it says: after a click on one that the page
  shows, the store holds the value of the segment and the page shows it as the active one, whether
  or not it was active before; the other settings stay.
\<close>

theorem settings_controls_exact:
  fixes s :: settings and env :: "string option" and window :: "location option"
  defines "page \<equiv> settings_page_of env window"
  shows "list_all (\<lambda>o1. fst (sq_speed (page (settings_control_step (Click_speed (sm_value o1)) s))) = sm_value o1)
      (snd (sq_speed (page s)))
    \<and> list_all (\<lambda>o1. fst (sq_rate (page (settings_control_step (Click_rate (sm_value o1)) s))) = sm_value o1)
      (snd (sq_rate (page s)))
    \<and> list_all (\<lambda>o1. fst (sq_camera (page (settings_control_step (Click_camera (sm_value o1)) s))) = sm_value o1)
      (snd (sq_camera (page s)))
    \<and> (settings_control_step (Click_speed v) s) \<lparr>sg_demo_speed := sg_demo_speed s\<rparr> = s
    \<and> (settings_control_step (Click_rate v) s) \<lparr>sg_telemetry_rate := sg_telemetry_rate s\<rparr> = s
    \<and> (settings_control_step (Click_camera v) s) \<lparr>sg_camera_mode := sg_camera_mode s\<rparr> = s"
proof -
  have d: "dec 1 = ''1''" "dec 2 = ''2''" "dec 5 = ''5''" "dec 10 = ''10''" "dec 20 = ''20''" by (simp_all add: dec_text)
  have n: "parse_number ''1'' = Fin 1" "parse_number ''2'' = Fin 2" "parse_number ''5'' = Fin 5"
    "parse_number ''10'' = Fin 10" "parse_number ''20'' = Fin 20"
    using parse_number_dec [of 1] parse_number_dec [of 2] parse_number_dec [of 5] parse_number_dec [of 10]
      parse_number_dec [of 20] by (simp_all add: d)
  note defs = settings_control_step_def control_action_def segmented_change_def segment_clicked_def
    settings_page_of_def
  have "list_all (\<lambda>o1. fst (sq_speed (page (settings_control_step (Click_speed (sm_value o1)) s))) = sm_value o1)
      (snd (sq_speed (page s)))"
    by (cases "sg_demo_speed s")
      (simp_all add: page_def defs speed_options_def DEMO_SPEEDS_def to_demo_speed_def d n)
  moreover have "list_all (\<lambda>o1. fst (sq_rate (page (settings_control_step (Click_rate (sm_value o1)) s))) = sm_value o1)
      (snd (sq_rate (page s)))"
    by (cases "sg_telemetry_rate s") (simp_all add: page_def defs RATE_OPTIONS_def to_telemetry_rate_def d n)
  moreover have "list_all (\<lambda>o1. fst (sq_camera (page (settings_control_step (Click_camera (sm_value o1)) s))) = sm_value o1)
      (snd (sq_camera (page s)))"
    by (cases "sg_camera_mode s") (simp_all add: page_def defs CAMERA_OPTIONS_def to_camera_def)
  ultimately show ?thesis
    by (simp add: settings_control_step_def control_action_def segmented_change_def split: option.splits)
qed

end
