(* ===== verification/JSONText.thy ===== *)
theory JSONText
  imports JSValue
begin

text \<open>
  \<open>JSON.stringify(value, null, 2)\<close> of a value of unknown shape (\<open>json_text\<close>).
\<close>

section \<open>Writing\<close>

definition hex_char :: "int \<Rightarrow> char" where
  "hex_char n = (if n < 10 then digit_char n else char_of (87 + n))"

definition json_char :: "char \<Rightarrow> string" where
  "json_char c =
     (let n = (of_char c :: int); backslash = CHR 0x5C
      in if n = 34 then [backslash, c] else if n = 92 then [backslash, c]
         else if n = 8 then [backslash, CHR ''b''] else if n = 9 then [backslash, CHR ''t'']
         else if n = 10 then [backslash, CHR ''n''] else if n = 12 then [backslash, CHR ''f'']
         else if n = 13 then [backslash, CHR ''r'']
         else if n < 32 then [backslash, CHR ''u'', CHR ''0'', CHR ''0'', hex_char (n div 16), hex_char (n mod 16)]
         else [c])"

definition json_quote :: "string \<Rightarrow> string" where
  "json_quote s = [CHR 0x22] @ concat (map json_char s) @ [CHR 0x22]"

abbreviation line_break :: string where "line_break \<equiv> [CHR 0x0A]"

text \<open>\<open>indent\<close> is the current indentation. Undefined elements are null, undefined properties are left out.\<close>

function json_text :: "string \<Rightarrow> jsval \<Rightarrow> string" where
  "json_text indent Undefined = ''null''"
| "json_text indent Null = ''null''"
| "json_text indent (Bool b) = (if b then ''true'' else ''false'')"
| "json_text indent (Num n) = (if is_finite n then num_str n else ''null'')"
| "json_text indent (Str s) = json_quote s"
| "json_text indent (Arr vs) =
     (if vs = [] then ''[]''
      else ''['' @ line_break
        @ join_with ('','' @ line_break) (map (\<lambda>v. indent @ ''  '' @ json_text (indent @ ''  '') v) vs)
        @ line_break @ indent @ '']'')"
| "json_text indent (Obj ob) =
     (if list_all (\<lambda>e. snd e = Undefined) ob then ''{}''
      else ''{'' @ line_break
        @ join_with ('','' @ line_break)
            (map (\<lambda>e. indent @ ''  '' @ json_quote (fst e) @ '': '' @ json_text (indent @ ''  '') (snd e))
              (filter (\<lambda>e. snd e \<noteq> Undefined) ob))
        @ line_break @ indent @ ''}'')"
  by pat_completeness auto
termination
proof (relation "measure (\<lambda>(i, v). size v)", goal_cases)
  case (3 indent ob e)
  then show ?case by (cases e) (force dest: size_list_estimation' [of _ _ _ "size_prod (\<lambda>_. 0) size"])
qed (auto simp: less_Suc_eq_le size_list_estimation')

section \<open>Reading the text of a string\<close>

text \<open>What a reader of JSON text makes of an escaped string, after RFC 8259.\<close>

definition escape_value :: "char \<Rightarrow> char option" where
  "escape_value c =
     (if c = CHR 0x22 \<or> c = CHR 0x5C \<or> c = CHR ''/'' then Some c
      else if c = CHR ''b'' then Some (CHR 0x08) else if c = CHR ''t'' then Some (CHR 0x09)
      else if c = CHR ''n'' then Some (CHR 0x0A) else if c = CHR ''f'' then Some (CHR 0x0C)
      else if c = CHR ''r'' then Some (CHR 0x0D) else None)"

fun json_unquote :: "string \<Rightarrow> (string \<times> string) option" where
  "json_unquote [] = None"
| "json_unquote (c # s) =
     (if c = CHR 0x22 then Some ([], s)
      else if c = CHR 0x5C then
        (case s of
           [] \<Rightarrow> None
         | d # r \<Rightarrow>
             if d = CHR ''u'' then
               (case r of
                  h1 # h2 # h3 # h4 # r' \<Rightarrow>
                    map_option (\<lambda>(t, rest). (char_of (((hex_val h1 * 16 + hex_val h2) * 16 + hex_val h3) * 16 + hex_val h4) # t, rest))
                      (json_unquote r')
                | _ \<Rightarrow> None)
             else (case escape_value d of
                     None \<Rightarrow> None
                   | Some x \<Rightarrow> map_option (\<lambda>(t, rest). (x # t, rest)) (json_unquote r)))
      else if (of_char c :: int) < 32 then None
      else map_option (\<lambda>(t, rest). (c # t, rest)) (json_unquote s))"

text \<open>Every escape is read back: \<open>\u00xx\<close> for the control characters without a short one.\<close>

definition control_read_back :: "nat \<Rightarrow> bool" where
  "control_read_back n =
     (case json_char (char_of n) of
        [a, d] \<Rightarrow> a = CHR 0x5C \<and> d \<noteq> CHR ''u'' \<and> escape_value d = Some (char_of n)
      | [a, u, h1, h2, h3, h4] \<Rightarrow> a = CHR 0x5C \<and> u = CHR ''u''
          \<and> char_of (((hex_val h1 * 16 + hex_val h2) * 16 + hex_val h3) * 16 + hex_val h4) = (char_of n :: char)
      | _ \<Rightarrow> False)"

lemma controls_read_back: "list_all control_read_back [0..<32]"
  by code_simp

lemma char_ge_32:
  assumes "32 \<le> (of_char c :: int)"
  shows "json_char c = (if c = CHR 0x22 \<or> c = CHR 0x5C then [CHR 0x5C, c] else [c])"
proof -
  have "(of_char c :: int) = of_char d \<longleftrightarrow> c = d" for d by simp
  from this [of "CHR 0x22"] this [of "CHR 0x5C"] show ?thesis
    using assms by (simp add: json_char_def Let_def)
qed

lemma json_char_read_back:
  "json_unquote (json_char c @ s) = map_option (\<lambda>(t, rest). (c # t, rest)) (json_unquote s)"
proof (cases "32 \<le> (of_char c :: int)")
  case True
  then show ?thesis by (auto simp: char_ge_32 escape_value_def)
next
  case False
  then have "of_char c < (32 :: nat)" by (metis of_nat_of_char linorder_not_le of_nat_less_numeral_iff)
  then have "control_read_back (of_char c)" using controls_read_back by (simp add: list_all_iff del: upt_conv_Cons)
  then consider d where "json_char c = [CHR 0x5C, d]" "d \<noteq> CHR ''u''" "escape_value d = Some c"
    | h1 h2 h3 h4 where "json_char c = [CHR 0x5C, CHR ''u'', h1, h2, h3, h4]"
      "char_of (((hex_val h1 * 16 + hex_val h2) * 16 + hex_val h3) * 16 + hex_val h4) = c"
    by (auto simp: control_read_back_def simp del: of_nat_of_char split: list.split_asm)
  then show ?thesis by cases simp_all
qed

text \<open>The text of a string in a report is read back as the string, whatever follows it.\<close>

lemma json_string_read_back:
  "\<exists>q. json_text indent (Str s) = CHR 0x22 # q \<and> json_unquote (q @ rest) = Some (s, rest)"
proof -
  have "json_unquote (concat (map json_char s) @ CHR 0x22 # rest) = Some (s, rest)" for s
    by (induction s) (simp_all add: json_char_read_back)
  then show ?thesis by (simp add: json_quote_def)
qed

end
