(* ===== verification/ReportsPage.thy ===== *)
theory ReportsPage
  imports AppFrame JSONText
begin

text \<open>
  app/reports/reports-view.tsx and components/reports/json-section.tsx: the completed runs, the
  report of the selected one as collapsible sections of JSON text, and its artifacts. The report
  is a value of unknown shape, shown by \<open>JSON.stringify(value, null, 2)\<close>.
\<close>

section \<open>Sections: json-section.tsx\<close>

record json_section =
  js_title :: string
  js_description :: "string option"
  js_open :: bool
  js_empty :: bool
  js_body :: "string option"

definition json_section_of :: "string \<Rightarrow> string option \<Rightarrow> jsval \<Rightarrow> bool \<Rightarrow> json_section" where
  "json_section_of title description value is_open =
     (let is_empty = (value = Undefined \<or> value = Null)
      in \<lparr>js_title = title, js_description = description, js_open = is_open, js_empty = is_empty,
          js_body = (if is_open \<and> \<not> is_empty then Some (json_text [] value) else None)\<rparr>)"

text \<open>The sections of a report: title, property and description.\<close>

definition REPORT_SECTIONS :: "(string \<times> string \<times> string option) list" where
  "REPORT_SECTIONS =
     [(''Summary'', ''summary'', Some ''Headline figures generated from observed events''),
      (''Score'', ''score'', Some ''Weighted dimensions and hard gates''),
      (''Metrics'', ''metrics'', Some ''Every computed metric group''),
      (''Assertions'', ''assertions'', Some ''Declared assertions and their outcome''),
      (''Scenario'', ''scenario'', None), (''Target'', ''target'', None), (''Provenance'', ''provenance'', None),
      (''Subsystem timeline'', ''subsystem_timeline'', None), (''Events'', ''events'', None),
      (''Topology'', ''topology'', None)]"

text \<open>The open sections by title; only the summary starts open.\<close>

definition sections_start :: "string list" where "sections_start = [''Summary'']"

definition toggle_section :: "string \<Rightarrow> string list \<Rightarrow> string list" where
  "toggle_section title opened = (if title \<in> set opened then removeAll title opened else title # opened)"

section \<open>The page\<close>

definition as_record :: "jsval \<Rightarrow> jsval obj option" where
  "as_record v = (case v of Obj ob \<Rightarrow> Some ob | _ \<Rightarrow> None)"

definition as_text :: "jsval \<Rightarrow> string option" where
  "as_text v = (case v of Str s \<Rightarrow> Some s | _ \<Rightarrow> None)"

record report_headline =
  rl_title :: string
  rl_result :: "badge option"
  rl_score :: "string option"
  rl_schema :: "string option"

text \<open>\<open>None\<close> for the schema line: the date of the report is not one, and rendering it throws.\<close>

definition report_headline_of :: "(string \<Rightarrow> string option) \<Rightarrow> jsval obj \<Rightarrow> report_headline" where
  "report_headline_of to_iso ob =
     (let scenario = as_record (obj_get ob ''scenario'')
      in \<lparr>rl_title = nullish (Option.bind scenario (\<lambda>s. as_text (obj_get s ''name''))) ''Report'',
          rl_result = (case as_text (obj_get ob ''result'') of
              Some r \<Rightarrow> if r = [] then None
                else Some (result_badge (Some (if r = ''passed'' then BR_passed else if r = ''failed'' then BR_failed
                                          else BR_inconclusive)))
            | None \<Rightarrow> None),
          rl_score = (case obj_get ob ''resilience_score'' of Num n \<Rightarrow> Some (format_score (Some n)) | _ \<Rightarrow> None),
          rl_schema = map_option (\<lambda>d. ''schema '' @ nullish (as_text (obj_get ob ''schema_version'')) ''unknown''
            @ '' generated '' @ d) (format_date_time to_iso (as_text (obj_get ob ''generated_at'')))\<rparr>)"

definition report_query :: "string option \<Rightarrow> query" where
  "report_query runId =
     (simple_query [Str ''report'', id_value runId] (truthy runId) ''/api/v1/runs/{run_id}/report''
        [(''run_id'', Str (nullish runId []))])
       \<lparr>qy_retry := Some 0, qy_stale_time := 300000\<rparr>"

record report_row =
  tr_href :: string
  tr_selected :: bool
  tr_id :: string
  tr_scenario :: string
  tr_result :: badge
  tr_score :: string
  tr_adapter :: string
  tr_created :: "string \<times> string"

definition report_row_of :: "(string \<Rightarrow> int) \<Rightarrow> int \<Rightarrow> string option \<Rightarrow> run_summary \<Rightarrow> report_row" where
  "report_row_of date_ms now selected run =
     \<lparr>tr_href = ''/reports?run='' @ rs_id run, tr_selected = (Some (rs_id run) = selected),
      tr_id = short_id (rs_id run), tr_scenario = rs_scenario_name run, tr_result = result_badge (rs_result run),
      tr_score = ''score '' @ format_score (map_option Fin (rs_resilience_score run)), tr_adapter = rs_adapter run,
      tr_created = (relative_time date_ms now (Some (rs_created_at run)), rs_created_at run)\<rparr>"

datatype reports_list =
    Reports_error error_view
  | Reports_loading
  | Reports_empty string string
  | Reports "report_row list"

definition reports_list_of ::
  "(string \<Rightarrow> int) \<Rightarrow> int \<Rightarrow> string option \<Rightarrow> run_summary list fetched \<Rightarrow> reports_list" where
  "reports_list_of date_ms now selected q =
     (case qf_error q of
        Some e \<Rightarrow> Reports_error (error_state ''Request failed'' e True)
      | None \<Rightarrow>
          if qf_loading q then Reports_loading
          else if nullish (qf_data q) [] = []
          then Reports_empty ''No completed run''
            ''A report is generated once a run completes and the analysis finishes.''
          else Reports (map (report_row_of date_ms now selected) (nullish (qf_data q) [])))"

record report_body =
  rb_headline :: report_headline
  rb_sections :: "json_section list"
  rb_artifacts :: "(string \<times> string \<times> string \<times> string) rows option"

datatype report_panel =
    Report_none string string
  | Report_error error_view
  | Report_loading string
  | Report_unexpected string string
  | Report report_body

text \<open>\<open>None\<close> as artifacts: the run is still loading.\<close>

definition report_artifacts :: "string option \<Rightarrow> run_detail fetched \<Rightarrow> (string \<times> string \<times> string \<times> string) rows option" where
  "report_artifacts env q =
     (let artifacts = (case qf_data q of None \<Rightarrow> [] | Some r \<Rightarrow> rd_artifacts r)
      in if qf_loading q then None
         else Some (if artifacts = [] then No_rows ''No artifact stored.''
           else Rows (map (\<lambda>a. (ar_name a, ar_description a, format_bytes (ar_size_bytes a), api_url env (ar_url a))) artifacts)))"

definition report_panel_of ::
  "(string \<Rightarrow> string option) \<Rightarrow> string option \<Rightarrow> string option \<Rightarrow> string list \<Rightarrow> jsval fetched \<Rightarrow> run_detail fetched
    \<Rightarrow> report_panel" where
  "report_panel_of to_iso env selected opened report detail =
     (if \<not> truthy selected
      then Report_none ''Select a run''
        ''Pick a completed run on the left to read its canonical JSON report or open the standalone HTML report.''
      else case qf_error report of
        Some e \<Rightarrow> Report_error (error_state ''Report not ready'' e True)
      | None \<Rightarrow>
          if qf_loading report then Report_loading ''Loading report''
          else case Option.bind (qf_data report) as_record of
            None \<Rightarrow> Report_unexpected ''Unexpected report format''
              ''The report endpoint did not return a JSON object for this run.''
          | Some ob \<Rightarrow> Report
              \<lparr>rb_headline = report_headline_of to_iso ob,
               rb_sections = map (\<lambda>(title, key, description).
                 json_section_of title description (obj_get ob key) (title \<in> set opened)) REPORT_SECTIONS,
               rb_artifacts = report_artifacts env detail\<rparr>)"

record reports_page =
  pp_count :: string
  pp_list :: reports_list
  pp_links :: "(string \<times> string) list"
  pp_panel :: report_panel

definition reports_page_of ::
  "(string \<Rightarrow> int) \<Rightarrow> int \<Rightarrow> (string \<Rightarrow> string option) \<Rightarrow> string option \<Rightarrow> string option \<Rightarrow> string list
    \<Rightarrow> run_summary list fetched \<Rightarrow> jsval fetched \<Rightarrow> run_detail fetched \<Rightarrow> reports_page" where
  "reports_page_of date_ms now to_iso env selected opened runs report detail =
     \<lparr>pp_count = dec (int (length (nullish (qf_data runs) []))) @ '' completed runs'',
      pp_list = reports_list_of date_ms now selected runs,
      pp_links = (if truthy selected then
          [(''Run analysis'', ''/runs/'' @ nullish selected []),
           (''report.json'', api_url env (''/api/v1/runs/'' @ nullish selected [] @ ''/artifacts/report.json'')),
           (''Open HTML report'', api_url env (''/api/v1/runs/'' @ nullish selected [] @ ''/report.html''))]
        else []),
      pp_panel = report_panel_of to_iso env selected opened report detail\<rparr>"

end
