(* ===== verification/TwinScene.thy ===== *)
theory TwinScene
  imports AppFrame FlownPath
begin

text \<open>
  components/twin: scene.tsx (extent of the mission, camera, compass), vehicle.tsx (pose of the
  vehicle), the planned route and the safe zone of paths.tsx, label-sprite.ts and the readouts of
  twin-canvas.tsx. What three.js computes on vectors is a parameter, as are sine and cosine; the
  state that the frame loops keep between frames is explicit.
\<close>

type_synonym vector = "jsnum \<times> jsnum \<times> jsnum"

abbreviation fin :: "point \<Rightarrow> vector" where
  "fin p \<equiv> (Fin (fst p), Fin (fst (snd p)), Fin (snd (snd p)))"

text \<open>\<open>v.lerp(w, a)\<close>, \<open>v.addScaledVector(w, a)\<close>, \<open>v.add(w)\<close>, and the camera after \<open>controls.update()\<close> around a target.\<close>

record vector_ops =
  lerp :: "vector \<Rightarrow> vector \<Rightarrow> jsnum \<Rightarrow> vector"
  add_scaled :: "vector \<Rightarrow> vector \<Rightarrow> jsnum \<Rightarrow> vector"
  add_vector :: "vector \<Rightarrow> vector \<Rightarrow> vector"
  orbit_update :: "vector \<Rightarrow> vector \<Rightarrow> vector"
  math_sin :: "rat \<Rightarrow> rat"
  math_cos :: "rat \<Rightarrow> rat"

section \<open>Camera: scene.tsx\<close>

definition heading_vector :: "vector_ops \<Rightarrow> rat \<Rightarrow> vector" where
  "heading_vector three yaw_angle = (Fin (math_sin three yaw_angle), Fin 0, Fin (- math_cos three yaw_angle))"

record scene_extent =
  xt_center :: vector
  xt_radius :: jsnum

definition widen :: "jsnum \<times> jsnum \<times> jsnum \<times> jsnum \<Rightarrow> position \<Rightarrow> jsnum \<times> jsnum \<times> jsnum \<times> jsnum" where
  "widen = (\<lambda>(minX, maxX, minZ, maxZ) w.
     (num_min minX (Fin (px w)), num_max maxX (Fin (px w)),
      num_min minZ (Fin (- py w)), num_max maxZ (Fin (- py w))))"

definition path_extent :: "planned_path option \<Rightarrow> scene_extent" where
  "path_extent path =
     (let waypoints = (case path of None \<Rightarrow> [] | Some p \<Rightarrow> pp_waypoints p)
      in if waypoints = [] then \<lparr>xt_center = (Fin 0, Fin 0, Fin 0), xt_radius = Fin 120\<rparr>
         else let (minX, maxX, minZ, maxZ) = foldl widen (PosInf, NegInf, PosInf, NegInf) waypoints
              in \<lparr>xt_center = (num_div (num_add minX maxX) 2, Fin 0, num_div (num_add minZ maxZ) 2),
                  xt_radius = num_max (Fin 60)
                    (num_mul (num_max (num_sub maxX minX) (num_sub maxZ minZ)) (Fin (fl (72 / 100))))\<rparr>)"

text \<open>The vectors the camera keeps, its position and what it looks at; the target of the orbit controls once they exist.\<close>

record camera_rig =
  cr_vehicle :: vector
  cr_heading :: vector
  cr_desired :: vector
  cr_focus :: vector
  cr_camera :: vector
  cr_looks_at :: vector
  cr_controls :: "vector option"

definition rig_start :: "vector \<Rightarrow> vector \<Rightarrow> camera_rig" where
  "rig_start camera looks_at =
     (let zero = (Fin 0, Fin 0, Fin 0)
      in \<lparr>cr_vehicle = zero, cr_heading = zero, cr_desired = zero, cr_focus = zero, cr_camera = camera,
          cr_looks_at = looks_at, cr_controls = None\<rparr>)"

definition rig_sample :: "vector_ops \<Rightarrow> scene_extent \<Rightarrow> telemetry_sample option \<Rightarrow> camera_rig \<Rightarrow> camera_rig" where
  "rig_sample three extent sample rig =
     (case sample of
        Some s \<Rightarrow> rig\<lparr>cr_vehicle := fin (to_scene_vector (ts_position s)),
                     cr_heading := heading_vector three (yaw (ts_attitude s))\<rparr>
      | None \<Rightarrow> rig\<lparr>cr_vehicle := xt_center extent, cr_heading := (Fin 0, Fin 0, Fin (- 1))\<rparr>)"

definition rig_aim :: "vector_ops \<Rightarrow> camera_mode \<Rightarrow> scene_extent \<Rightarrow> camera_rig \<Rightarrow> camera_rig" where
  "rig_aim three mode extent rig =
     (if mode = Cam_top then
        (let (cx, _, cz) = xt_center extent
         in rig\<lparr>cr_desired := (cx, num_mul (xt_radius extent) (Fin (fl (155 / 100))), num_add cz (Fin (fl (1 / 100)))),
                cr_focus := xt_center extent\<rparr>)
      else if mode = Cam_fpv then
        rig\<lparr>cr_desired := add_vector three (add_scaled three (cr_vehicle rig) (cr_heading rig) (Fin (fl (22 / 10))))
              (Fin 0, Fin (fl (11 / 10)), Fin 0),
            cr_focus := add_scaled three (cr_vehicle rig) (cr_heading rig) (Fin 60)\<rparr>
      else
        rig\<lparr>cr_desired := add_vector three (add_scaled three (cr_vehicle rig) (cr_heading rig) (Fin (- 22)))
              (Fin 0, Fin 11, Fin 0),
            cr_focus := add_scaled three (cr_vehicle rig) (cr_heading rig) (Fin 8)\<rparr>)"

definition smoothing :: "jsnum \<Rightarrow> rat \<Rightarrow> jsnum" where
  "smoothing delta rate = num_min (Fin 1) (num_mul delta (Fin rate))"

definition camera_frame ::
  "vector_ops \<Rightarrow> camera_mode \<Rightarrow> planned_path option \<Rightarrow> telemetry_sample option \<Rightarrow> jsnum \<Rightarrow> camera_rig \<Rightarrow> camera_rig" where
  "camera_frame three mode path sample delta rig =
     (let extent = path_extent path;
          s1 = rig_sample three extent sample rig;
          pace = smoothing delta (fl (34 / 10))
      in if mode = Cam_orbit then
           (case cr_controls s1 of
              None \<Rightarrow> s1
            | Some t \<Rightarrow> (let t' = lerp three t (cr_vehicle s1) pace
                         in s1\<lparr>cr_controls := Some t', cr_camera := orbit_update three t' (cr_camera s1),
                               cr_looks_at := t'\<rparr>))
         else let s2 = rig_aim three mode extent s1
              in s2\<lparr>cr_camera := lerp three (cr_camera s2) (cr_desired s2) (if mode = Cam_fpv then smoothing delta 9 else pace),
                    cr_looks_at := cr_focus s2\<rparr>)"

definition COMPASS_MARKS :: "(string \<times> vector) list" where
  "COMPASS_MARKS =
     [(''N'', fin (0, 6, - 150)), (''E'', fin (150, 6, 0)), (''S'', fin (0, 6, 150)), (''W'', fin (- 150, 6, 0))]"

text \<open>The orbit controls: enabled in one mode only; \<open>pi\<close> is \<open>Math.PI\<close>.\<close>

record orbit_controls =
  oc_enabled :: bool
  oc_damping :: rat
  oc_min_distance :: rat
  oc_max_distance :: rat
  oc_max_polar :: rat

definition orbit_controls_of :: "rat \<Rightarrow> camera_mode \<Rightarrow> orbit_controls" where
  "orbit_controls_of pi_value mode =
     \<lparr>oc_enabled = (mode = Cam_orbit), oc_damping = fl (12 / 100), oc_min_distance = 8,
      oc_max_distance = 700, oc_max_polar = fl (pi_value / fl (205 / 100))\<rparr>"

text \<open>The lines (points, colour, width) and the labels (text, position, colour, height) of the compass.\<close>

definition compass_lines :: "(vector list \<times> string \<times> rat) list" where
  "compass_lines =
     (let y = fl (5 / 100)
      in [([fin (0, y, 0), fin (0, y, - 150)], ''#2d4356'', fl (12 / 10)),
          ([fin (- 150, y, 0), fin (150, y, 0)], ''#1c2a38'', 1)])"

definition compass_labels :: "(string \<times> vector \<times> string \<times> rat) list" where
  "compass_labels = map (\<lambda>(text, position). (text, position, ''#7f8fa0'', fl (38 / 1000))) COMPASS_MARKS"

section \<open>Route and safe zone: paths.tsx\<close>

text \<open>The polyline and the label of every waypoint.\<close>

definition planned_route :: "planned_path option \<Rightarrow> (point list \<times> (string \<times> point) list) option" where
  "planned_route path =
     (let points = map to_scene_vector (case path of None \<Rightarrow> [] | Some p \<Rightarrow> pp_waypoints p)
      in if length points < 2 then None
         else Some (points, map (\<lambda>(index, p). (''WP'' @ dec (int index), p)) (enumerate 0 points)))"

record ring =
  rg_position :: point
  rg_inner :: rat
  rg_outer :: rat

definition safe_zone_ring :: "planned_path option \<Rightarrow> ring option" where
  "safe_zone_ring path =
     Option.bind path (\<lambda>p. map_option (\<lambda>z.
       \<lparr>rg_position = (px z, fl (6 / 100), - py z),
        rg_inner = max (1 / 2) (fl (pp_safe_zone_radius p - fl (45 / 100))), rg_outer = pp_safe_zone_radius p\<rparr>)
       (pp_safe_zone p))"

section \<open>The vehicle: vehicle.tsx\<close>

definition ARM_ANGLES :: "rat list" where
  "ARM_ANGLES = [fl (MATH_PI / 4), fl (fl (3 * MATH_PI) / 4), fl (fl (5 * MATH_PI) / 4), fl (fl (7 * MATH_PI) / 4)]"

definition ARM_LENGTH :: rat where "ARM_LENGTH = fl (26 / 10)"
definition ROTOR_RADIUS :: rat where "ROTOR_RADIUS = fl (135 / 100)"

record vehicle_arm =
  va_arm :: point
  va_angle :: rat
  va_motor :: point
  va_rotor :: point

definition vehicle_arms :: "vector_ops \<Rightarrow> vehicle_arm list" where
  "vehicle_arms three =
     map (\<lambda>angle.
       let x = fl (math_sin three angle * ARM_LENGTH); z = fl (math_cos three angle * ARM_LENGTH)
       in \<lparr>va_arm = (fl (x / 2), 0, fl (z / 2)), va_angle = angle,
           va_motor = (x, fl (18 / 100), z), va_rotor = (x, fl (45 / 100), z)\<rparr>) ARM_ANGLES"

text \<open>The scene node of the vehicle, absent before it is mounted; \<open>vh_rotor\<close> is the angle of the rotors.\<close>

record vehicle_node =
  vn_visible :: bool
  vn_position :: vector
  vn_rotation :: vector

record vehicle_state =
  vh_node :: "vehicle_node option"
  vh_rotor :: "jsnum option"
  vh_initialised :: bool

definition vehicle_frame ::
  "vector_ops \<Rightarrow> bool \<Rightarrow> telemetry_sample option \<Rightarrow> jsnum \<Rightarrow> vehicle_state \<Rightarrow> vehicle_state" where
  "vehicle_frame three reducedMotion sample delta v =
     (case vh_node v of
        None \<Rightarrow> v
      | Some node \<Rightarrow>
          (case sample of
             None \<Rightarrow> v\<lparr>vh_node := Some (node\<lparr>vn_visible := False\<rparr>)\<rparr>
           | Some s \<Rightarrow>
               (let target = fin (to_scene_vector (ts_position s)); a = ts_attitude s;
                    pos = (if \<not> vh_initialised v then target
                           else lerp three (vn_position node) target (smoothing delta 10))
                in v\<lparr>vh_node := Some \<lparr>vn_visible = True, vn_position = pos,
                       vn_rotation = (Fin (pitch a), Fin (- yaw a), Fin (- roll a))\<rparr>,
                     vh_initialised := True,
                     vh_rotor := (if fs_armed (ts_flight s) \<and> \<not> reducedMotion
                       then map_option (\<lambda>y. num_add y (num_mul delta (Fin 22))) (vh_rotor v) else vh_rotor v)\<rparr>)))"

section \<open>Labels: label-sprite.ts\<close>

text \<open>Size of the canvas and scale of the sprite; \<open>text_width\<close> is absent when there is no drawing context.\<close>

record label_sprite =
  ls_width :: rat
  ls_height :: rat
  ls_scale :: "rat \<times> rat"

definition create_label_sprite :: "(string \<Rightarrow> rat) option \<Rightarrow> string \<Rightarrow> rat option \<Rightarrow> label_sprite" where
  "create_label_sprite text_width label_text screenHeight =
     (let textWidth = (case text_width of
            Some f \<Rightarrow> f label_text | None \<Rightarrow> fl (of_nat (40 * length label_text) * fl (6 / 10)));
          w = of_int \<lceil>fl (textWidth + 24)\<rceil>; h = 64; height = nullish screenHeight (fl (3 / 100))
      in \<lparr>ls_width = w, ls_height = h, ls_scale = (fl (fl (w / h) * height), height)\<rparr>)"

section \<open>Readouts: twin-canvas.tsx\<close>

definition twin_camera_options :: "segment list" where
  "twin_camera_options =
     map (\<lambda>(v, l, t). \<lparr>sm_value = v, sm_label = l, sm_title = Some t\<rparr>)
       [(''chase'', ''Chase'', ''Follow behind and above the vehicle''),
        (''orbit'', ''Orbit'', ''Orbit around the vehicle with the mouse''),
        (''top'', ''Top'', ''Look down on the whole mission area''),
        (''fpv'', ''FPV'', ''Look along the vehicle heading'')]"

record readout =
  ro_label :: string
  ro_value :: string
  ro_tone :: "tone option"

record twin_view =
  tw_position :: "readout list"
  tw_flight :: "readout list"
  tw_navigation :: "readout list"
  tw_camera :: "string \<times> segment list"
  tw_awaiting :: "string option"

definition twin_view_of ::
  "(rat \<Rightarrow> rat \<Rightarrow> jsnum) \<Rightarrow> camera_mode \<Rightarrow> telemetry_sample option \<Rightarrow> twin_view" where
  "twin_view_of hypot mode sample =
     (let navSource = (case sample of None \<Rightarrow> ''none'' | Some s \<Rightarrow> ns_source (ts_navigation s));
          coord = (\<lambda>f. map_option (\<lambda>s. Fin (f (ts_position s))) sample);
          plain = (\<lambda>label value. \<lparr>ro_label = label, ro_value = value, ro_tone = None\<rparr>);
          speed = map_option (\<lambda>s. hypot (vx (ts_velocity s)) (vy (ts_velocity s))) sample
      in \<lparr>tw_position =
            [plain ''East x'' (format_metres (coord px) 1), plain ''North y'' (format_metres (coord py) 1),
             plain ''Up z'' (format_metres (coord pz) 1)],
          tw_flight =
            [plain ''Altitude'' (format_metres (coord pz) 1), plain ''Ground speed'' (format_speed speed),
             plain ''Heading'' (format_heading (map_option (\<lambda>s. Fin (yaw (ts_attitude s))) sample))],
          tw_navigation =
            [\<lparr>ro_label = ''Source'', ro_value = navSource,
              ro_tone = Some (if navSource = ''gnss'' then Ok else if navSource = ''dead_reckoning'' then Warn else Bad)\<rparr>,
             \<lparr>ro_label = ''Position error'',
              ro_value = format_metres (map_option (\<lambda>s. Fin (ns_position_error (ts_navigation s))) sample) 2,
              ro_tone = Option.bind sample (\<lambda>s. let e = ns_position_error (ts_navigation s)
                in if e > 15 then Some Bad else if e > 5 then Some Warn else None)\<rparr>,
             plain ''Satellites'' (case Option.bind sample (\<lambda>s. ns_satellites (ts_navigation s)) of
                Some n \<Rightarrow> int_text n | None \<Rightarrow> ''n/a'')],
          tw_camera = (camera_str mode, twin_camera_options),
          tw_awaiting = (if sample = None then Some ''Awaiting telemetry'' else None)\<rparr>)"

section \<open>What the top view covers\<close>

text \<open>
  The view is 50 degrees high (\<open>fov\<close>), and the tangent of half of it is more than 0.466. A point is
  seen when it lies in front of the camera and within that angle of the line of sight on either
  axis; the line of sight from above has no part along x.
\<close>

fun seen_from :: "vector \<Rightarrow> vector \<Rightarrow> point \<Rightarrow> bool" where
  "seen_from (Fin cx, Fin cy, Fin cz) (Fin fx, Fin fy, Fin fz) (x, y, z) =
     (let depth = (y - cy) * (fy - cy) + (z - cz) * (fz - cz);
          across = (x - cx) * (\<bar>fy - cy\<bar> + \<bar>fz - cz\<bar>);
          upward = (y - cy) * (fz - cz) - (z - cz) * (fy - cy)
      in fx = cx \<and> 0 < depth \<and> 1000 * \<bar>across\<bar> \<le> 466 * depth \<and> 1000 * \<bar>upward\<bar> \<le> 466 * depth)"
| "seen_from _ _ _ = False"

definition mission_span :: "position list \<Rightarrow> rat" where
  "mission_span ws =
     max (Max (px ` set ws) - Min (px ` set ws)) (Max (py ` set ws) - Min (py ` set ws))"

lemma foldl_widen:
  "foldl widen (Fin a, Fin b, Fin c, Fin d) ws =
     (Fin (foldl min a (map px ws)), Fin (foldl max b (map px ws)),
      Fin (foldl min c (map (\<lambda>w. - py w) ws)), Fin (foldl max d (map (\<lambda>w. - py w) ws)))"
  by (induction ws arbitrary: a b c d) (simp_all add: widen_def)

lemma foldl_min: "foldl min (a :: rat) xs = Min (set (a # xs))"
proof -
  have "(\<lambda>x s. min s x) = (min :: rat \<Rightarrow> rat \<Rightarrow> rat)" by (intro ext) (rule min.commute)
  then show ?thesis unfolding Min.set_eq_fold foldl_conv_fold by simp
qed

lemma foldl_max: "foldl max (a :: rat) xs = Max (set (a # xs))"
proof -
  have "(\<lambda>x s. max s x) = (max :: rat \<Rightarrow> rat \<Rightarrow> rat)" by (intro ext) (rule max.commute)
  then show ?thesis unfolding Max.set_eq_fold foldl_conv_fold by simp
qed

lemma foldl_max_minus: "foldl max (- c) (map (\<lambda>w. - f w) ws) = - foldl min (c :: rat) (map f ws)"
  by (induction ws arbitrary: c) (simp_all flip: minus_min_eq_max)

lemma foldl_min_minus: "foldl min (- c) (map (\<lambda>w. - f w) ws) = - foldl max (c :: rat) (map f ws)"
  by (induction ws arbitrary: c) (simp_all flip: minus_max_eq_min)

lemma foldl_widen_all:
  assumes "ws \<noteq> []"
  shows "foldl widen (PosInf, NegInf, PosInf, NegInf) ws =
     (Fin (Min (px ` set ws)), Fin (Max (px ` set ws)), Fin (- Max (py ` set ws)), Fin (- Min (py ` set ws)))"
proof -
  obtain w vs where ws: "ws = w # vs" using assms by (cases ws) auto
  have "foldl widen (PosInf, NegInf, PosInf, NegInf) ws =
      foldl widen (Fin (px w), Fin (px w), Fin (- py w), Fin (- py w)) vs"
    by (simp add: ws widen_def num_min_def num_max_def)
  also have "\<dots> = (Fin (foldl min (px w) (map px vs)), Fin (foldl max (px w) (map px vs)),
      Fin (- foldl max (py w) (map py vs)), Fin (- foldl min (py w) (map py vs)))"
    by (simp only: foldl_widen foldl_max_minus foldl_min_minus)
  finally show ?thesis by (simp only: foldl_min foldl_max ws) simp
qed

lemma to_num_mega: "\<bar>x\<bar> \<le> 1048576 \<Longrightarrow> to_num x = Fin (fl x)"
  by (rule to_num_small) (erule order_trans, simp)

lemma fl_constants:
  "\<bar>fl (72 / 100) - 72 / 100\<bar> \<le> 1 / 1000000000" "\<bar>fl (155 / 100) - 155 / 100\<bar> \<le> 1 / 1000000000"
  "\<bar>fl (1 / 100) - 1 / 100\<bar> \<le> 1 / 1000000000"
  by code_simp+

text \<open>Middle and extent of an interval of coordinates, in doubles.\<close>

lemma middle_close:
  assumes "\<bar>a\<bar> \<le> 100000" "\<bar>b\<bar> \<le> 100000"
  obtains c where "num_div (num_add (Fin a) (Fin b)) 2 = Fin c" "\<bar>c - (a + b) / 2\<bar> \<le> 2 / 1000"
proof -
  have s: "\<bar>a + b\<bar> \<le> 1048576" using assms by linarith
  then have e: "\<bar>fl (a + b) - (a + b)\<bar> \<le> 1 / 1000" by (rule fl_close)
  then have h: "\<bar>fl (a + b) / 2\<bar> \<le> 1048576" using assms by linarith
  show ?thesis
  proof
    show "num_div (num_add (Fin a) (Fin b)) 2 = Fin (fl (fl (a + b) / 2))" by (simp add: num_eval to_num_mega [OF s] to_num_mega [OF h])
    show "\<bar>fl (fl (a + b) / 2) - (a + b) / 2\<bar> \<le> 2 / 1000"
      using fl_close [OF h] e unfolding add_divide_distrib by linarith
  qed
qed

lemma sub_close:
  assumes "\<bar>a\<bar> \<le> 100000" "\<bar>b\<bar> \<le> 100000"
  obtains c where "num_sub (Fin a) (Fin b) = Fin c" "\<bar>c - (a - b)\<bar> \<le> 1 / 1000" "b \<le> a \<Longrightarrow> 0 \<le> c"
proof
  have s: "\<bar>a - b\<bar> \<le> 1048576" using assms by linarith
  then show "num_sub (Fin a) (Fin b) = Fin (fl (a - b))" by (simp add: num_eval to_num_mega)
  show "\<bar>fl (a - b) - (a - b)\<bar> \<le> 1 / 1000" using s by (rule fl_close)
  show "0 \<le> fl (a - b)" if "b \<le> a" using that by (intro fl_nonneg) simp
qed

lemma scaled_close:
  assumes "0 \<le> a" "a \<le> 210000" "\<bar>k - q\<bar> \<le> 1 / 1000000000" "0 \<le> q" "q \<le> 2"
  obtains c where "num_mul (Fin a) (Fin k) = Fin c" "\<bar>c - q * a\<bar> \<le> 2 / 1000"
proof -
  have "\<bar>a * k - q * a\<bar> = a * \<bar>k - q\<bar>"
    using assms(1) by (metis abs_mult abs_of_nonneg mult.commute right_diff_distrib)
  also have "\<dots> \<le> 210000 * (1 / 1000000000)" using assms by (intro mult_mono) auto
  finally have e: "\<bar>a * k - q * a\<bar> \<le> 1 / 1000" by simp
  have "0 \<le> q * a" "q * a \<le> 2 * 210000" using assms by (simp, intro mult_mono) auto
  then have s: "\<bar>a * k\<bar> \<le> 1048576" using e by linarith
  show ?thesis
  proof
    show "num_mul (Fin a) (Fin k) = Fin (fl (a * k))" using s by (simp add: num_eval to_num_mega)
    show "\<bar>fl (a * k) - q * a\<bar> \<le> 2 / 1000" using fl_close [OF s] e by linarith
  qed
qed

lemma path_extent_close:
  assumes ws: "pp_waypoints p = ws" "ws \<noteq> []" and near: "\<And>w. w \<in> set ws \<Longrightarrow> \<bar>px w\<bar> \<le> 100000 \<and> \<bar>py w\<bar> \<le> 100000"
  obtains cx cz r where "path_extent (Some p) = \<lparr>xt_center = (Fin cx, Fin 0, Fin cz), xt_radius = Fin r\<rparr>"
    "\<And>w. w \<in> set ws \<Longrightarrow> \<bar>px w - cx\<bar> \<le> mission_span ws / 2 + 2 / 1000"
    "\<And>w. w \<in> set ws \<Longrightarrow> \<bar>- py w - cz\<bar> \<le> mission_span ws / 2 + 2 / 1000"
    "\<bar>r - max 60 (72 / 100 * mission_span ws)\<bar> \<le> 4 / 1000" "0 \<le> mission_span ws" "mission_span ws \<le> 200000"
proof -
  let ?x0 = "Min (px ` set ws)" and ?x1 = "Max (px ` set ws)" and ?y0 = "Min (py ` set ws)" and ?y1 = "Max (py ` set ws)"
  have ends: "?x0 \<in> px ` set ws" "?x1 \<in> px ` set ws" "?y0 \<in> py ` set ws" "?y1 \<in> py ` set ws"
    using ws(2) by (auto intro!: Min_in Max_in)
  then have b: "\<bar>?x0\<bar> \<le> 100000" "\<bar>?x1\<bar> \<le> 100000" "\<bar>?y0\<bar> \<le> 100000" "\<bar>?y1\<bar> \<le> 100000"
    using near by fastforce+
  have in_x: "?x0 \<le> px w \<and> px w \<le> ?x1" and in_y: "?y0 \<le> py w \<and> py w \<le> ?y1" if "w \<in> set ws" for w
    using that by auto
  have order: "?x0 \<le> ?x1" "?y0 \<le> ?y1" using ws(2) in_x [of "hd ws"] in_y [of "hd ws"] by auto
  have span: "?x1 - ?x0 \<le> mission_span ws" "?y1 - ?y0 \<le> mission_span ws" "mission_span ws = max (?x1 - ?x0) (?y1 - ?y0)"
    by (auto simp: mission_span_def)
  have size: "0 \<le> mission_span ws" "mission_span ws \<le> 200000" using order b by (simp add: span(3), auto simp: span(3))
  obtain cx where cx: "num_div (num_add (Fin ?x0) (Fin ?x1)) 2 = Fin cx" "\<bar>cx - (?x0 + ?x1) / 2\<bar> \<le> 2 / 1000"
    using b middle_close by blast
  obtain cz where cz: "num_div (num_add (Fin (- ?y1)) (Fin (- ?y0))) 2 = Fin cz" "\<bar>cz - (- ?y1 + - ?y0) / 2\<bar> \<le> 2 / 1000"
    using middle_close [of "- ?y1" "- ?y0"] b by (auto simp only: abs_minus_cancel)
  obtain dx where dx: "num_sub (Fin ?x1) (Fin ?x0) = Fin dx" "\<bar>dx - (?x1 - ?x0)\<bar> \<le> 1 / 1000"
    and dx0: "0 \<le> dx" using sub_close [OF b(2,1)] order(1) by blast
  obtain dz where dz: "num_sub (Fin (- ?y0)) (Fin (- ?y1)) = Fin dz" "\<bar>dz - (- ?y0 - - ?y1)\<bar> \<le> 1 / 1000"
    using sub_close [of "- ?y0" "- ?y1"] b by (auto simp only: abs_minus_cancel)
  have m: "\<bar>max dx dz - mission_span ws\<bar> \<le> 1 / 1000" using dx(2) dz(2) unfolding span(3) by linarith
  have ge: "0 \<le> max dx dz" and le: "max dx dz \<le> 210000" using dx0 m size(2) by linarith+
  have q: "(0 :: rat) \<le> 72 / 100" "(72 / 100 :: rat) \<le> 2" by simp_all
  obtain k where k: "num_mul (Fin (max dx dz)) (Fin (fl (72 / 100))) = Fin k" "\<bar>k - 72 / 100 * max dx dz\<bar> \<le> 2 / 1000"
    using scaled_close [OF ge le fl_constants(1) q] by blast
  show ?thesis
  proof
    show "path_extent (Some p) = \<lparr>xt_center = (Fin cx, Fin 0, Fin cz), xt_radius = Fin (max 60 k)\<rparr>"
      using ws(2) by (simp only: path_extent_def option.case ws(1) foldl_widen_all [OF ws(2)] Let_def prod.case
          cx(1) cz(1) dx(1) dz(1) k(1) num_max_simps if_False)
    show "\<bar>px w - cx\<bar> \<le> mission_span ws / 2 + 2 / 1000" if "w \<in> set ws" for w
      using in_x [OF that] cx(2) span(1) unfolding add_divide_distrib by linarith
    show "\<bar>- py w - cz\<bar> \<le> mission_span ws / 2 + 2 / 1000" if "w \<in> set ws" for w
      using in_y [OF that] cz(2) span(2) unfolding add_divide_distrib by linarith
    show "\<bar>max 60 k - max 60 (72 / 100 * mission_span ws)\<bar> \<le> 4 / 1000"
      using k(2) m by linarith
  qed (use size in auto)
qed

text \<open>
  A camera \<open>h\<close> above the middle of the mission, aiming \<open>d\<close> off the vertical, sees the points that
  are low enough and leaves those above it out of the picture.
\<close>

lemma seen_from_above:
  fixes h a s d u v b :: rat
  defines "b \<equiv> s / 2 + 4 / 1000"
  assumes h: "92 \<le> h" "11 / 10 * s \<le> h" "1000 * b + 10 \<le> 466 * (h - a)"
    and uv: "\<bar>u\<bar> \<le> b" "\<bar>v\<bar> \<le> b" and a: "0 \<le> a" "a \<le> s / 25"
    and d: "0 \<le> d" "d \<le> 12 / 1000" and s: "0 \<le> s"
  shows "seen_from (Fin cx, Fin h, Fin (cz + d)) (Fin cx, Fin 0, Fin cz) (cx + u, a, cz + v)"
proof -
  have b: "0 \<le> b" using uv(1) by linarith
  have room: "18 * b + s \<le> 10 * h" using h(1,2) s by (simp add: b_def)
  let ?depth = "h * (h - a) - d * v + d * d" and ?across = "u * (h + d)" and ?up = "h * v - a * d"
  have "h * (1000 * b + 10) \<le> h * (466 * (h - a))" using h by (intro mult_left_mono) auto
  then have hk: "1000 * (h * b) + 10 * h \<le> 466 * (h * (h - a))" by (simp add: algebra_simps)
  have dv: "\<bar>d * v\<bar> \<le> 12 / 1000 * b" using d uv b by (subst abs_mult, intro mult_mono) auto
  have sum: "x - 466 * k \<le> 466 * (p - q + r)" if "x \<le> 466 * p" "\<bar>q\<bar> \<le> k" "0 \<le> r" for x k p q r :: rat
  proof -
    have "q \<le> k" using that(2) by simp
    then show ?thesis using that(1,3) by (simp add: algebra_simps)
  qed
  have depth: "1000 * (h * b) + 10 * h - 466 * (12 / 1000 * b) \<le> 466 * ?depth" by (rule sum [OF hk dv]) simp
  have fits: "1000 * x \<le> y" if "x \<le> h * b + e" "1000 * (h * b) + 10 * h - 466 * (12 / 1000 * b) \<le> y"
    "1000 * e + 466 * (12 / 1000 * b) \<le> 10 * h" for x y e :: rat
    using that by simp
  have big: "\<bar>?across\<bar> \<le> b * (h + d)" using uv h d by (subst abs_mult, intro mult_mono) auto
  have "b * d \<le> b * (12 / 1000)" using d b by (intro mult_left_mono) auto
  then have "\<bar>?across\<bar> \<le> h * b + b * (12 / 1000)" using big by (simp add: algebra_simps)
  then have across: "1000 * \<bar>?across\<bar> \<le> 466 * ?depth" by (rule fits [OF _ depth]) (use room s b in simp)
  have "a * d \<le> s / 25 * (12 / 1000)" "0 \<le> a * d" by (intro mult_mono, use a d s in auto)
  moreover have "\<bar>h * v\<bar> \<le> h * b" using uv h by (simp add: abs_mult)
  ultimately have "\<bar>?up\<bar> \<le> h * b + s / 25 * (12 / 1000)" by linarith
  then have up: "1000 * \<bar>?up\<bar> \<le> 466 * ?depth" by (rule fits [OF _ depth]) (use room s b in simp)
  have "0 \<le> h * b" using h b by simp
  moreover have "0 < 10 * h - 466 * (12 / 1000 * b)" using room h(1) b s by simp
  ultimately have "0 < 466 * ?depth" using depth by linarith
  then have pos: "0 < ?depth" by (simp only: zero_less_mult_iff) simp
  have dd: "(a - h) * (0 - h) + (cz + v - (cz + d)) * (cz - (cz + d)) = ?depth" by (simp add: algebra_simps)
  have uu: "(a - h) * (cz - (cz + d)) - (cz + v - (cz + d)) * (0 - h) = ?up" by (simp add: algebra_simps)
  have aa: "(cx + u - cx) * (\<bar>0 - h\<bar> + \<bar>cz - (cz + d)\<bar>) = ?across" using h d by simp
  show ?thesis unfolding seen_from.simps Let_def dd uu aa using across up pos by simp
qed

lemma unseen_above:
  fixes h a s d v :: rat
  assumes "1 \<le> h" "s \<le> h" "h + 1 \<le> a" "\<bar>v\<bar> \<le> s" "0 \<le> d" "d \<le> 12 / 1000" "0 \<le> s"
  shows "\<not> seen_from (Fin cx, Fin h, Fin (cz + d)) (Fin cx, Fin 0, Fin cz) (x, a, cz + v)"
proof -
  have "h * 1 \<le> h * (a - h)" using assms by (intro mult_left_mono) auto
  moreover have "\<bar>d * v\<bar> \<le> 12 / 1000 * s" using assms by (subst abs_mult, intro mult_mono) auto
  moreover have "d * d \<le> 12 / 1000 * (12 / 1000)" using assms by (intro mult_mono) auto
  ultimately have "(a - h) * (0 - h) + (cz + v - (cz + d)) * (cz - (cz + d)) \<le> 0"
    using assms by (simp add: algebra_simps)
  then show ?thesis by simp
qed

text \<open>Where the camera is sent in the top view, and what it is pointed at.\<close>

lemma top_pose:
  assumes "path_extent path = \<lparr>xt_center = (Fin cx, Fin 0, Fin cz), xt_radius = Fin r\<rparr>"
    "0 \<le> r" "r \<le> 210000" "\<bar>cz\<bar> \<le> 210000"
  obtains h d where "cr_desired (camera_frame three Cam_top path sample delta rig) = (Fin cx, Fin h, Fin (cz + d))"
    "cr_focus (camera_frame three Cam_top path sample delta rig) = (Fin cx, Fin 0, Fin cz)"
    "\<bar>h - 155 / 100 * r\<bar> \<le> 2 / 1000" "0 \<le> d" "d \<le> 12 / 1000"
proof -
  have q: "(0 :: rat) \<le> 155 / 100" "(155 / 100 :: rat) \<le> 2" by simp_all
  obtain h where h: "num_mul (Fin r) (Fin (fl (155 / 100))) = Fin h" "\<bar>h - 155 / 100 * r\<bar> \<le> 2 / 1000"
    using scaled_close [OF assms(2,3) fl_constants(2) q] by blast
  have h1: "to_num (r * fl (31 / 20)) = Fin h" using h(1) by (simp add: num_eval)
  let ?c = "cz + fl (1 / 100)"
  have c: "\<bar>?c\<bar> \<le> 1048576" using assms(4) fl_constants(3) by linarith
  have d: "0 \<le> fl ?c - cz" "fl ?c - cz \<le> 12 / 1000" using fl_close [OF c] fl_constants(3) by linarith+
  show ?thesis
    by (rule that [of h "fl ?c - cz"])
      (use h(2) d in \<open>simp_all add: camera_frame_def rig_aim_def rig_sample_def Let_def assms(1) h1 num_eval
        to_num_mega [OF c] split: option.split\<close>)
qed


text \<open>The survey of the mock adapter, flown at some altitude.\<close>

definition survey_at :: "rat \<Rightarrow> planned_path" where
  "survey_at a =
     \<lparr>pp_waypoints = map (\<lambda>(x, y, z). \<lparr>px = x, py = y, pz = a + z\<rparr>)
        [(0, 0, 0), (90, 30, 0), (150, 110, 0), (80, 170, 10), (- 30, 130, 10), (- 50, 40, 0), (0, 0, 0)],
      pp_safe_zone = Some \<lparr>px = 0, py = 0, pz = 0\<rparr>, pp_safe_zone_radius = 15\<rparr>"

lemma mission_span_survey: "mission_span (pp_waypoints (survey_at a)) = 200"
  by (simp add: mission_span_def survey_at_def)


end
