(* ===== verification/LiveFeed.thy ===== *)
theory LiveFeed
  imports MissionControl TwinScene
begin

text \<open>
  The feed that app/mission-control/mission-control-view.tsx gives the digital twin: getters on the
  store of the run, whose samples grow with the stream, are cut at the cap of the store and are
  replaced by snapshots and histories. Also the toolbar of the page.
\<close>

section \<open>Toolbar\<close>

record run_option =
  ro_run_id :: string
  ro_search_text :: string
  ro_short_id :: string
  ro_scenario :: string
  ro_state :: badge

definition run_option_of :: "run_summary \<Rightarrow> run_option" where
  "run_option_of run =
     \<lparr>ro_run_id = rs_id run,
      ro_search_text = short_id (rs_id run) @ '' '' @ rs_scenario_name run @ '' '' @ run_state_str (rs_state run),
      ro_short_id = short_id (rs_id run), ro_scenario = rs_scenario_name run,
      ro_state = run_state_badge (rs_state run)\<rparr>"

text \<open>The selector is left out when there are no runs; its value is the selected run.\<close>

record mission_toolbar =
  mt_runs :: "(string \<times> run_option list) option"
  mt_speed :: "string \<times> segment list"
  mt_demo :: demo_button

definition mission_toolbar_of :: "mission_inputs \<Rightarrow> mission_toolbar" where
  "mission_toolbar_of i =
     \<lparr>mt_runs = (if runs_of i = [] then None
        else Some (nullish (selected_run_id i) [], map run_option_of (runs_of i))),
      mt_speed = (dec (demo_factor (sg_demo_speed (mi_settings i))),
        map (\<lambda>(v, l, t). \<lparr>sm_value = v, sm_label = l, sm_title = Some t\<rparr>) SPEED_OPTIONS),
      mt_demo = demo_button_of i\<rparr>"

section \<open>The feed\<close>

definition live_sample :: "live_run \<Rightarrow> telemetry_sample option" where
  "live_sample st = lv_latest st"

definition live_trail :: "live_run \<Rightarrow> telemetry_sample list" where
  "live_trail st = lv_samples st"

definition live_generation :: "live_run \<Rightarrow> int" where
  "live_generation st = lv_generation st"

section \<open>What the path of the live twin shows\<close>

text \<open>
  The store together with the samples it has cut at its cap since the history was last replaced.
  A step is an action of the store; samples that the stream adds come in the order of time.
\<close>

record feed_state =
  fd_store :: live_run
  fd_cut :: "telemetry_sample list"

definition received :: "feed_state \<Rightarrow> telemetry_sample list" where
  "received s = fd_cut s @ live_trail (fd_store s)"

definition feed_generation :: "feed_state \<Rightarrow> nat" where
  "feed_generation s = nat (live_generation (fd_store s))"

fun added :: "store_action \<Rightarrow> telemetry_sample list" where
  "added (A_ingest es ss now) = ss"
| "added _ = []"

definition cut_by :: "store_action \<Rightarrow> live_run \<Rightarrow> telemetry_sample list" where
  "cut_by a st = (let all = lv_samples st @ added a in take (length all - MAX_SAMPLES) all)"

definition live_step :: "feed_state \<Rightarrow> feed_state \<Rightarrow> bool" where
  "live_step s s' \<longleftrightarrow> (\<exists>a. let st = fd_store s; st' = store_step a st in
     0 \<le> lv_generation st \<and> length (lv_samples st) \<le> MAX_SAMPLES \<and> strict_by ts_t (lv_samples st @ added a)
     \<and> s' = \<lparr>fd_store = st', fd_cut = (if lv_generation st' = lv_generation st then fd_cut s @ cut_by a st else [])\<rparr>)"

lemma store_step_keeps_history:
  assumes "lv_generation (store_step a st) = lv_generation st"
    "strict_by ts_t (lv_samples st @ added a)" "length (lv_samples st) \<le> MAX_SAMPLES"
  shows "cut_by a st @ lv_samples (store_step a st) = lv_samples st @ added a"
proof -
  have keep: "keep_last MAX_SAMPLES (lv_samples st) = lv_samples st" using assms(3) by (simp add: keep_last_def)
  have "lv_samples (store_step a st) = keep_last MAX_SAMPLES (lv_samples st @ added a)"
    using assms(1) keep merge_in_order [OF assms(2,3)] by (cases a) (auto simp: store_defs Let_def)
  then show ?thesis unfolding cut_by_def Let_def by (simp only: keep_last_split)
qed

lemma live_trail_extends:
  assumes "live_step s s'" "feed_generation s' = feed_generation s"
  shows "\<exists>newer. received s' = received s @ newer"
proof -
  obtain a where a: "0 \<le> lv_generation (fd_store s)" "length (lv_samples (fd_store s)) \<le> MAX_SAMPLES"
    "strict_by ts_t (lv_samples (fd_store s) @ added a)" "fd_store s' = store_step a (fd_store s)"
    "fd_cut s' = (if lv_generation (fd_store s') = lv_generation (fd_store s)
       then fd_cut s @ cut_by a (fd_store s) else [])"
    using assms(1) by (auto simp: live_step_def Let_def)
  have "lv_generation (fd_store s) \<le> lv_generation (fd_store s')"
    unfolding a(4) by (cases a) (simp_all add: store_defs Let_def)
  then have same: "lv_generation (fd_store s') = lv_generation (fd_store s)"
    using assms(2) a(1) by (simp add: feed_generation_def live_generation_def)
  have "received s' = fd_cut s @ (cut_by a (fd_store s) @ lv_samples (store_step a (fd_store s)))"
    using same by (simp add: received_def live_trail_def a(4,5))
  also have "\<dots> = received s @ added a"
    using store_step_keeps_history [OF _ a(3,2)] same by (simp add: a(4) received_def live_trail_def)
  finally show ?thesis by blast
qed

interpretation live_feed: twin_feed received feed_generation live_step
proof
  show "feed_generation s \<le> feed_generation s'" if h: "live_step s s'" for s s'
  proof -
    obtain a where "fd_store s' = store_step a (fd_store s)" using h by (auto simp: live_step_def Let_def)
    then show ?thesis by (cases a) (simp_all add: feed_generation_def live_generation_def store_defs Let_def)
  qed
qed (rule live_trail_extends)

text \<open>
  The path of the live twin: however actions of the store and frames of the twin interleave,
  samples coming in the order of time and none cut from the store before the twin has drawn it,
  after a frame the path is the one drawn from scratch through every sample received since the
  history was last replaced, those the store no longer holds included.
\<close>

theorem live_path_complete:
  assumes "watch_window gap fd_cut (live_trail \<circ> fd_store) feed_generation live_step s0 s f"
    "0 \<le> live_generation (fd_store s)" "none_missed (live_generation (fd_store s)) (fd_cut s) f"
  shows "fp_points (flown_frame gap (live_generation (fd_store s)) (live_trail (fd_store s)) f)
    = fp_points (draw_samples gap (fd_cut s @ lv_samples (fd_store s)) flown_start)"
proof -
  have "watch gap received feed_generation live_step s0 s f"
    using window_watch [OF assms(1)] by (simp add: received_def [abs_def] comp_def)
  from live_feed.path_from_scratch [OF this]
  have "fp_points (flown_frame gap (live_generation (fd_store s)) (received s) f)
      = fp_points (draw_samples gap (received s) flown_start)"
    using assms(2) by (simp add: feed_generation_def)
  then show ?thesis
    using frame_window [OF assms(3), of gap "live_trail (fd_store s)"] by (simp add: received_def live_trail_def)
qed

text \<open>Two batches after the start of a run, with a frame in between.\<close>

definition live_at :: "nat \<Rightarrow> feed_state" where
  "live_at n =
     \<lparr>fd_store = (let s0 = start ''run-1'' EMPTY; s1 = ingest [] [sample_no 1] 0 s0
        in if n = 0 then s0 else if n = 1 then s1 else ingest [] [sample_no 2, sample_no 3] 1 s1),
      fd_cut = []\<rparr>"

lemma live_at:
  "lv_samples (fd_store (live_at 0)) = []" "lv_samples (fd_store (live_at 1)) = [sample_no 1]"
  "lv_samples (fd_store (live_at 2)) = [sample_no 1, sample_no 2, sample_no 3]"
  "lv_generation (fd_store (live_at n)) = 1" "fd_cut (live_at n) = []"
  by (simp_all add: live_at_def Let_def ingest_in_order start_def EMPTY_def MAX_SAMPLES_def)

lemma live_at_step: "live_step (live_at 0) (live_at 1)" "live_step (live_at 1) (live_at 2)"
proof -
  have step: "live_step s (live_at n)"
    if "lv_generation (fd_store s) = 1" "length (lv_samples (fd_store s)) \<le> 3" "fd_cut s = []"
      "strict_by ts_t (lv_samples (fd_store s) @ ss)" "length ss \<le> 3"
      "fd_store (live_at n) = ingest [] ss now (fd_store s)" for s n ss now
    unfolding live_step_def Let_def
    by (rule exI [of _ "A_ingest [] ss now"], use that live_at(4,5) [of n] in
      \<open>cases "live_at n", simp add: ingest_in_order cut_by_def MAX_SAMPLES_def\<close>)
  show "live_step (live_at 0) (live_at 1)"
    by (rule step [of _ "[sample_no 1]" _ 0]) (simp_all add: live_at(4,5) live_at(1), simp add: live_at_def)
  show "live_step (live_at 1) (live_at 2)"
    by (rule step [of _ "[sample_no 2, sample_no 3]" _ 1])
      (simp_all add: live_at(4,5) live_at(2) [unfolded One_nat_def], simp add: live_at_def)
qed

theorem live_path_complete_witness:
  "length (fp_points (flown_frame (\<lambda>_ _. 1) 1 (live_trail (fd_store (live_at 2)))
     (flown_frame (\<lambda>_ _. 1) 1 (live_trail (fd_store (live_at 1))) flown_start))) = 3"
proof -
  have g: "live_generation (fd_store (live_at n)) = 1" for n by (simp add: live_generation_def live_at(4))
  have "watch_window (\<lambda>_ _. 1) fd_cut (live_trail \<circ> fd_store) feed_generation live_step (live_at 0) (live_at 2)
      (flown_frame (\<lambda>_ _. 1) (int (feed_generation (live_at 1))) ((live_trail \<circ> fd_store) (live_at 1)) flown_start)"
    by (rule window_step [OF window_frame [OF window_step [OF window_start]]])
      (simp_all only: live_at_step none_missed_def live_at(5) simp_thms)
  from live_path_complete [OF this] have "fp_points (flown_frame (\<lambda>_ _. 1) 1 (live_trail (fd_store (live_at 2)))
     (flown_frame (\<lambda>_ _. 1) 1 (live_trail (fd_store (live_at 1))) flown_start))
     = fp_points (draw_samples (\<lambda>_ _. 1) [sample_no 1, sample_no 2, sample_no 3] flown_start)"
    by (simp add: g live_at(3,5) none_missed_def feed_generation_def del: draw_samples.simps)
  moreover have "length (fp_points (draw_samples (\<lambda>_ _. 1) [sample_no 1, sample_no 2, sample_no 3] flown_start)) = 3"
    using fl_mono [of "4 / 10" 1]
    by (simp add: draw_sample_def flown_start_def drawn_before_def Let_def MAX_TRAIL_POINTS_def MIN_STEP_def)
  ultimately show ?thesis by simp
qed

end
