(* ===== verification/StreamTwin.thy ===== *)
theory StreamTwin
  imports LiveFeed RunStream
begin

text \<open>
  The run stream (hooks/use-run-stream.ts), the store (stores/live-run.ts), the history effect of
  app/mission-control/mission-control-view.tsx and the flown path of the twin together: what the
  path shows of the samples that came through the socket, however the callbacks of the browser,
  the fetched histories, the change of the run and the frames of the twin interleave.
\<close>

section \<open>The composition\<close>

text \<open>
  The effect with the samples it was given since the history was last replaced: by the start of a
  run, by a snapshot or by a fetched history.
\<close>

record watched =
  wt_stream :: stream
  wt_got :: "telemetry_sample list"

definition wt_samples :: "watched \<Rightarrow> telemetry_sample list" where
  "wt_samples w = live_trail (sm_store (wt_stream w))"

definition wt_generation :: "watched \<Rightarrow> nat" where
  "wt_generation w = nat (live_generation (sm_store (wt_stream w)))"

text \<open>Of the samples given: those that left the buffer, and those no longer in the store either.\<close>

definition flushed :: "watched \<Rightarrow> telemetry_sample list" where
  "flushed w = take (length (wt_got w) - length (sm_sample_buffer (wt_stream w))) (wt_got w)"

definition forgotten :: "watched \<Rightarrow> telemetry_sample list" where
  "forgotten w = take (length (flushed w) - length (wt_samples w)) (wt_got w)"

definition got_after ::
  "(jsval \<Rightarrow> stream_message) \<Rightarrow> stream_event \<Rightarrow> telemetry_sample list \<Rightarrow> telemetry_sample list" where
  "got_after as_message e got =
     (case delivers as_message e of
        Some (Telemetry ss) \<Rightarrow> got @ ss
      | Some (Snapshot m) \<Rightarrow> merge_samples MAX_SAMPLES [] (sn_telemetry m)
      | _ \<Rightarrow> got)"

text \<open>Telemetry comes in the order of time.\<close>

definition in_time_order :: "(jsval \<Rightarrow> stream_message) \<Rightarrow> stream_event \<Rightarrow> stream \<Rightarrow> bool" where
  "in_time_order as_message e s =
     (case delivers as_message e of
        Some (Telemetry ss) \<Rightarrow> strict_by ts_t (lv_samples (sm_store s) @ sm_sample_buffer s @ ss)
      | _ \<Rightarrow> True)"

text \<open>
  A callback of the effect; the data of the history queries, which the effect of the page puts
  into the store; another run, or the same one again, after the clean-up of the effect.
\<close>

inductive watched_step :: "(jsval \<Rightarrow> stream_message) \<Rightarrow> watched \<Rightarrow> watched \<Rightarrow> bool" for as_message where
  callback: "stream_step as_message s e t \<Longrightarrow> in_time_order as_message e s
     \<Longrightarrow> watched_step as_message \<lparr>wt_stream = s, wt_got = got\<rparr>
           \<lparr>wt_stream = t, wt_got = got_after as_message e got\<rparr>"
| history_data: "t = on_store (load_history telemetryData eventsData) s
     \<Longrightarrow> telemetryData \<noteq> None \<or> eventsData \<noteq> None
     \<Longrightarrow> strict_by ts_t (lv_samples (sm_store t) @ sm_sample_buffer t)
     \<Longrightarrow> watched_step as_message \<lparr>wt_stream = s, wt_got = got\<rparr>
           \<lparr>wt_stream = t, wt_got = lv_samples (sm_store t) @ sm_sample_buffer t\<rparr>"
| another_run: "sm_disposed s
     \<Longrightarrow> watched_step as_message \<lparr>wt_stream = s, wt_got = got\<rparr>
           \<lparr>wt_stream = mount runId opens (sm_store s), wt_got = []\<rparr>"

text \<open>The page opens with the store as an earlier page left it.\<close>

definition first_run :: "string \<Rightarrow> bool \<Rightarrow> live_run \<Rightarrow> watched" where
  "first_run runId opens st = \<lparr>wt_stream = mount runId opens st, wt_got = []\<rparr>"

section \<open>What every step keeps\<close>

definition watched_inv :: "watched \<Rightarrow> bool" where
  "watched_inv w \<longleftrightarrow>
     0 \<le> lv_generation (sm_store (wt_stream w)) \<and> length (wt_samples w) \<le> MAX_SAMPLES
     \<and> strict_by ts_t (wt_samples w @ sm_sample_buffer (wt_stream w))
     \<and> (\<exists>older. wt_got w = older @ wt_samples w @ sm_sample_buffer (wt_stream w))"

definition advances :: "watched \<Rightarrow> watched \<Rightarrow> bool" where
  "advances w w' \<longleftrightarrow> (watched_inv w \<longrightarrow> watched_inv w'
     \<and> lv_generation (sm_store (wt_stream w)) \<le> lv_generation (sm_store (wt_stream w'))
     \<and> (lv_generation (sm_store (wt_stream w')) = lv_generation (sm_store (wt_stream w))
          \<longrightarrow> (\<exists>newer. flushed w' = flushed w @ newer)))"

lemma flushed_split:
  assumes "watched_inv w"
  shows "wt_got w = flushed w @ sm_sample_buffer (wt_stream w)" "flushed w = forgotten w @ wt_samples w"
  using assms by (auto simp: watched_inv_def flushed_def forgotten_def)

lemma advances_trans: "advances u v \<Longrightarrow> advances v w \<Longrightarrow> advances u w"
  unfolding advances_def by (metis append_assoc order_antisym order_trans)

text \<open>The history grows: some of its samples leave the buffer, some the store.\<close>

lemma advances_grown:
  assumes "lv_generation (sm_store t) = lv_generation (sm_store s)"
    and "c @ lv_samples (sm_store t) = lv_samples (sm_store s) @ newer"
    and "newer @ sm_sample_buffer t = sm_sample_buffer s @ ss"
    and "strict_by ts_t (lv_samples (sm_store s) @ sm_sample_buffer s @ ss)"
    and "length (lv_samples (sm_store s)) \<le> MAX_SAMPLES \<Longrightarrow> length (lv_samples (sm_store t)) \<le> MAX_SAMPLES"
  shows "advances \<lparr>wt_stream = s, wt_got = got\<rparr> \<lparr>wt_stream = t, wt_got = got @ ss\<rparr>"
  unfolding advances_def
proof
  assume inv: "watched_inv \<lparr>wt_stream = s, wt_got = got\<rparr>"
  then obtain older where older: "got = older @ lv_samples (sm_store s) @ sm_sample_buffer s"
    by (auto simp: watched_inv_def wt_samples_def live_trail_def)
  have all: "lv_samples (sm_store s) @ sm_sample_buffer s @ ss = c @ lv_samples (sm_store t) @ sm_sample_buffer t"
    using assms(2,3) by (metis append_assoc)
  have "strict_by ts_t (lv_samples (sm_store t) @ sm_sample_buffer t)"
    using assms(4) unfolding all by (simp add: sorted_wrt_append)
  moreover have "got @ ss = (older @ c) @ lv_samples (sm_store t) @ sm_sample_buffer t"
    using older all by simp
  ultimately have inv': "watched_inv \<lparr>wt_stream = t, wt_got = got @ ss\<rparr>"
    using inv assms(1,5) by (auto simp: watched_inv_def wt_samples_def live_trail_def)
  have "flushed \<lparr>wt_stream = t, wt_got = got @ ss\<rparr> = flushed \<lparr>wt_stream = s, wt_got = got\<rparr> @ newer"
    using flushed_split(1) [OF inv] flushed_split(1) [OF inv'] assms(3) by (metis append.assoc append_same_eq watched.select_convs)
  then show "watched_inv \<lparr>wt_stream = t, wt_got = got @ ss\<rparr>
     \<and> lv_generation (sm_store (wt_stream \<lparr>wt_stream = s, wt_got = got\<rparr>))
         \<le> lv_generation (sm_store (wt_stream \<lparr>wt_stream = t, wt_got = got @ ss\<rparr>))
     \<and> (lv_generation (sm_store (wt_stream \<lparr>wt_stream = t, wt_got = got @ ss\<rparr>))
          = lv_generation (sm_store (wt_stream \<lparr>wt_stream = s, wt_got = got\<rparr>))
        \<longrightarrow> (\<exists>newer. flushed \<lparr>wt_stream = t, wt_got = got @ ss\<rparr> = flushed \<lparr>wt_stream = s, wt_got = got\<rparr> @ newer))"
    using inv' assms(1) by simp
qed

text \<open>The history is replaced.\<close>

lemma advances_anew:
  assumes "lv_generation (sm_store s) < lv_generation (sm_store t)"
    and "strict_by ts_t (lv_samples (sm_store t) @ sm_sample_buffer t)"
    and "length (lv_samples (sm_store s)) \<le> MAX_SAMPLES \<Longrightarrow> length (lv_samples (sm_store t)) \<le> MAX_SAMPLES"
  shows "advances \<lparr>wt_stream = s, wt_got = got\<rparr>
           \<lparr>wt_stream = t, wt_got = lv_samples (sm_store t) @ sm_sample_buffer t\<rparr>"
  using assms by (auto simp: advances_def watched_inv_def wt_samples_def live_trail_def)

text \<open>Most callbacks leave the samples alone.\<close>

definition still :: "stream \<Rightarrow> stream \<Rightarrow> bool" where
  "still s t \<longleftrightarrow> lv_generation (sm_store t) = lv_generation (sm_store s)
     \<and> lv_samples (sm_store t) = lv_samples (sm_store s) \<and> sm_sample_buffer t = sm_sample_buffer s"

lemma still_refl: "still s s"
  by (simp add: still_def)

lemma still_store:
  "still s (on_store (set_status x) s)" "still s (on_store (set_error e) s)" "still s (on_store (touch now) s)"
  "still s (on_store (apply_lifecycle l now) s)" "still s (on_store (apply_run_finished r now) s)"
  "still s ((on_store (apply_completed c now) s)\<lparr>sm_completed := n\<rparr>)"
  by (simp_all add: still_def store_defs)

lemma still_trans: "still s t \<Longrightarrow> still t u \<Longrightarrow> still s u"
  by (simp add: still_def)

lemma still_schedule: "still s (schedule_reconnect s)"
  by (simp add: still_def schedule_reconnect_def set_status_def Let_def)

lemma still_connect: "still (s\<lparr>sm_timer := x\<rparr>) (connect opens s)" "still s (connect opens (s\<lparr>sm_timer := x\<rparr>))"
  by (simp_all add: still_def connect_def schedule_reconnect_def set_status_def set_error_def Let_def)

lemma still_open: "still s (on_open now (s\<lparr>sm_socket := x\<rparr>))"
  by (simp add: still_def on_open_def set_status_def set_error_def touch_def)

lemma still_error: "still s (on_error s)"
  by (simp add: still_def on_error_def set_error_def)

lemma still_stale: "still s (stale_check now s)"
  by (simp add: still_def stale_check_def set_status_def split: option.split)

lemma still_dispose: "still s (dispose s)"
  by (simp add: still_def dispose_def)

lemma advances_still: "still s t \<Longrightarrow> advances \<lparr>wt_stream = s, wt_got = got\<rparr> \<lparr>wt_stream = t, wt_got = got\<rparr>"
  by (auto simp: still_def advances_def watched_inv_def wt_samples_def live_trail_def flushed_def)

lemma advances_flush: "advances \<lparr>wt_stream = s, wt_got = got\<rparr> \<lparr>wt_stream = flush now s, wt_got = got\<rparr>"
proof (cases "sm_event_buffer s = [] \<and> sm_sample_buffer s = []")
  case True
  then show ?thesis by (simp add: flush_def advances_still still_refl)
next
  case False
  let ?a = "A_ingest (sm_event_buffer s) (sm_sample_buffer s) now"
  have t: "sm_store (flush now s) = store_step ?a (sm_store s)" "sm_sample_buffer (flush now s) = []"
    using False by (auto simp: flush_def)
  have gen: "lv_generation (store_step ?a (sm_store s)) = lv_generation (sm_store s)" by (simp add: ingest_in_order)
  show ?thesis
  proof (cases "watched_inv \<lparr>wt_stream = s, wt_got = got\<rparr>")
    case inv: True
    then have h: "strict_by ts_t (lv_samples (sm_store s) @ sm_sample_buffer s)" "length (lv_samples (sm_store s)) \<le> MAX_SAMPLES"
      by (simp_all add: watched_inv_def wt_samples_def live_trail_def)
    have cut: "cut_by ?a (sm_store s) @ lv_samples (sm_store (flush now s)) = lv_samples (sm_store s) @ sm_sample_buffer s"
      unfolding t using store_step_keeps_history [OF gen _ h(2)] h(1) by simp
    have "length (lv_samples (sm_store (flush now s))) \<le> MAX_SAMPLES"
      using arg_cong [OF cut, of length] by (simp add: cut_by_def Let_def del: take_append)
    then have "advances \<lparr>wt_stream = s, wt_got = got\<rparr> \<lparr>wt_stream = flush now s, wt_got = got @ []\<rparr>"
      using advances_grown [OF _ cut, of "[]"] t gen h by simp
    then show ?thesis by simp
  qed (simp add: advances_def)
qed

lemma flush_samples [simp]: "sm_sample_buffer (flush now s) = []" "lv_generation (sm_store (flush now s)) = lv_generation (sm_store s)"
  by (simp_all add: flush_def ingest_in_order)

lemma advances_flush_then:
  "still (flush now s) t \<Longrightarrow> advances \<lparr>wt_stream = s, wt_got = got\<rparr> \<lparr>wt_stream = t, wt_got = got\<rparr>"
  using advances_trans [OF advances_flush advances_still] .

lemma advances_handle:
  assumes "delivers as_message e = Some m" "in_time_order as_message e s"
  shows "advances \<lparr>wt_stream = s, wt_got = got\<rparr> \<lparr>wt_stream = handle m now s, wt_got = got_after as_message e got\<rparr>"
proof (cases m)
  case (Snapshot n)
  let ?t = "handle m now s"
  have t: "lv_samples (sm_store ?t) = merge_samples MAX_SAMPLES [] (sn_telemetry n)" "sm_sample_buffer ?t = []"
    "lv_generation (sm_store ?t) = lv_generation (sm_store s) + 1"
    by (simp_all add: Snapshot set_status_def apply_snapshot_def Let_def)
  have "history ts_t MAX_SAMPLES (lv_samples (sm_store ?t))"
    unfolding t by (intro js_intros)
  then have "advances \<lparr>wt_stream = s, wt_got = got\<rparr> \<lparr>wt_stream = ?t, wt_got = lv_samples (sm_store ?t) @ sm_sample_buffer ?t\<rparr>"
    using t by (intro advances_anew) (simp_all add: history_def)
  then show ?thesis using assms(1) t Snapshot by (simp add: got_after_def)
next
  case (Telemetry ss)
  show ?thesis
    using assms Telemetry advances_grown [of "handle m now s" s "[]" "[]" ss got]
    by (simp add: got_after_def in_time_order_def touch_def)
next
  case (Event ev)
  have "still s (s\<lparr>sm_event_buffer := x\<rparr>)" for x by (simp add: still_def)
  then have "still s (handle m now s)" unfolding Event handle.simps by (rule still_trans [OF _ still_store(3)])
  then show ?thesis using assms(1) Event by (simp add: got_after_def advances_still del: handle.simps)
next
  case Heartbeat
  have "still s (handle m now s)"
    using still_trans [OF still_store(3) still_store(1)] still_store(3) by (simp add: Heartbeat Let_def)
  then show ?thesis using assms(1) Heartbeat by (simp add: got_after_def advances_still del: handle.simps)
qed (use assms(1) in \<open>auto simp: got_after_def advances_still still_store still_refl
       intro!: advances_flush_then still_store\<close>)

lemma advances_callback:
  assumes "stream_step as_message s e t" "in_time_order as_message e s"
  shows "advances \<lparr>wt_stream = s, wt_got = got\<rparr> \<lparr>wt_stream = t, wt_got = got_after as_message e got\<rparr>"
  using assms(1)
proof cases
  case (frame_arrives data now)
  show ?thesis
  proof (cases "delivers as_message e")
    case None
    then show ?thesis
      using frame_arrives by (simp add: on_message_def delivers_def got_after_def advances_still still_refl)
  next
    case (Some m)
    then have "t = handle m now s" using frame_arrives by (simp add: on_message_def delivers_def)
    then show ?thesis using advances_handle [OF Some assms(2)] by simp
  qed
next
  case (socket_closes code now)
  let ?s = "s\<lparr>sm_socket := Some Closed\<rparr>"
  have "advances \<lparr>wt_stream = s, wt_got = got\<rparr> \<lparr>wt_stream = ?s, wt_got = got\<rparr>"
    by (rule advances_still) (simp add: still_def)
  moreover have "still (flush now ?s) t"
    unfolding socket_closes(2) on_close_def Let_def
    using still_schedule [of "flush now ?s"] still_store(1) [of "flush now ?s"]
      still_trans [OF still_store(2) still_store(1), of "flush now ?s"] socket_closes by simp
  ultimately show ?thesis
    using advances_trans [OF _ advances_flush_then] socket_closes(1) by (simp add: got_after_def delivers_def)
qed (simp_all add: got_after_def delivers_def advances_flush advances_still still_connect still_open still_error
       still_stale still_dispose)

lemma advances_step: "watched_step as_message w w' \<Longrightarrow> advances w w'"
proof (induction rule: watched_step.induct)
  case (callback s e t got)
  then show ?case by (rule advances_callback)
next
  case (history_data t telemetryData eventsData s got)
  have fresh: "length (merge_samples MAX_SAMPLES [] ss) \<le> MAX_SAMPLES" for ss
    using history_fresh_samples [of MAX_SAMPLES ss] by (simp add: history_def)
  have t: "lv_generation (sm_store t) = lv_generation (sm_store s) + 1"
    "lv_samples (sm_store t) = (case telemetryData of None \<Rightarrow> lv_samples (sm_store s)
       | Some ss \<Rightarrow> merge_samples MAX_SAMPLES [] ss)"
    using history_data(1,2) by (simp_all add: load_history_def replace_history_def Let_def)
  show ?case
  proof (rule advances_anew [OF _ history_data(3)])
    show "lv_generation (sm_store s) < lv_generation (sm_store t)" by (simp add: t)
    show "length (lv_samples (sm_store t)) \<le> MAX_SAMPLES" if "length (lv_samples (sm_store s)) \<le> MAX_SAMPLES"
      using that fresh by (simp add: t split: option.split)
  qed
next
  case (another_run s got runId opens)
  let ?t = "mount runId opens (sm_store s)"
  have t: "lv_samples (sm_store ?t) = []" "sm_sample_buffer ?t = []" "lv_generation (sm_store ?t) = lv_generation (sm_store s) + 1"
    by (simp_all add: mount_def connect_def schedule_reconnect_def set_status_def set_error_def start_def EMPTY_def Let_def)
  then have "advances \<lparr>wt_stream = s, wt_got = got\<rparr> \<lparr>wt_stream = ?t, wt_got = lv_samples (sm_store ?t) @ sm_sample_buffer ?t\<rparr>"
    by (intro advances_anew) simp_all
  then show ?case using t by simp
qed

lemma first_run_inv: "0 \<le> lv_generation st \<Longrightarrow> watched_inv (first_run runId opens st)"
  by (simp add: watched_inv_def first_run_def wt_samples_def live_trail_def mount_def connect_def
      schedule_reconnect_def set_status_def set_error_def start_def EMPTY_def Let_def)

text \<open>The whole is a feed of the twin: what left the buffer is its trail.\<close>

definition kept_step :: "(jsval \<Rightarrow> stream_message) \<Rightarrow> watched \<Rightarrow> watched \<Rightarrow> bool" where
  "kept_step as_message w w' \<longleftrightarrow> watched_inv w \<and> watched_step as_message w w'"

lemma kept_step_advances:
  assumes "kept_step as_message w w'"
  shows "watched_inv w'" "wt_generation w \<le> wt_generation w'"
    "wt_generation w' = wt_generation w \<Longrightarrow> \<exists>newer. flushed w' = flushed w @ newer"
  using assms advances_step [of as_message w w']
  by (auto simp: kept_step_def advances_def watched_inv_def wt_generation_def live_generation_def)

interpretation stream_feed: twin_feed flushed wt_generation "kept_step as_message" for as_message
  by unfold_locales (fact kept_step_advances(2,3))+

lemma watch_keeps:
  "watch_window gap forgotten wt_samples wt_generation (watched_step as_message) w0 w f \<Longrightarrow> watched_inv w0
     \<Longrightarrow> watched_inv w \<and> watch gap flushed wt_generation (kept_step as_message) w0 w f"
proof (induction rule: watch_window.induct)
  case window_start
  then show ?case by (simp add: watch_start)
next
  case (window_step w f w')
  then have "kept_step as_message w w'" by (simp add: kept_step_def)
  then show ?case using window_step by (auto intro: watch_step kept_step_advances(1))
next
  case (window_frame w f)
  then have "watched_inv w" "watch gap flushed wt_generation (kept_step as_message) w0 w f" by blast+
  then show ?case
    using watch_frame [of gap flushed wt_generation "kept_step as_message" w0 w f]
      frame_window [OF window_frame.hyps(2), of gap "wt_samples w"] by (simp add: flushed_split(2))
qed


text \<open>A run whose first sample is flushed and drawn, and whose second is still in the buffer.\<close>

definition stream_at :: "nat \<Rightarrow> stream" where
  "stream_at n =
     (let frame = \<lambda>t. on_message example_message (example_frame ''telemetry'' t);
          one = frame 1 2 open_stream; two = flush 3 one
      in if n = 0 then open_stream else if n = 1 then one else if n = 2 then two else frame 2 4 two)"

lemma stream_at:
  "sm_socket (stream_at n) = Some Open" "\<not> sm_disposed (stream_at n)"
  "lv_samples (sm_store (stream_at 0)) = []" "lv_samples (sm_store (stream_at 1)) = []"
  "lv_samples (sm_store (stream_at 2)) = [sample_no 1]" "lv_samples (sm_store (stream_at 3)) = [sample_no 1]"
  "sm_sample_buffer (stream_at 2) = []" "sm_sample_buffer (stream_at 3) = [sample_no 2]"
  "lv_generation (sm_store (stream_at n)) = 1"
  by (simp_all add: stream_at_def Let_def on_message_def example_message_def open_stream_def on_open_def mount_def
      connect_def start_def EMPTY_def set_status_def set_error_def touch_def flush_def ingest_in_order MAX_SAMPLES_def)

lemma stream_at_next:
  "on_open 1 ((mount ''run-1'' True EMPTY)\<lparr>sm_socket := Some Open\<rparr>) = stream_at 0"
  "on_message example_message (example_frame ''telemetry'' 1) 2 (stream_at 0) = stream_at 1"
  "flush 3 (stream_at 1) = stream_at 2"
  "on_message example_message (example_frame ''telemetry'' 2) 4 (stream_at 2) = stream_at 3"
  by (simp_all only: stream_at_def open_stream_def Let_def) simp_all

lemma watched_callback:
  "stream_step as_message s e t \<Longrightarrow> in_time_order as_message e s \<Longrightarrow> got_after as_message e got = got'
     \<Longrightarrow> watched_step as_message \<lparr>wt_stream = s, wt_got = got\<rparr> \<lparr>wt_stream = t, wt_got = got'\<rparr>"
  using watched_step.callback by blast

lemma telemetry_frame:
  "delivers example_message (Frame_arrives (example_frame ''telemetry'' t) now) = Some (Telemetry [sample_no t])"
  by (simp add: delivers_def example_message_def)

lemma telemetry_at:
  assumes "strict_by ts_t (lv_samples (sm_store (stream_at n)) @ sm_sample_buffer (stream_at n) @ [sample_no t])"
    and "on_message example_message (example_frame ''telemetry'' t) now (stream_at n) = s"
  shows "watched_step example_message \<lparr>wt_stream = stream_at n, wt_got = got\<rparr>
    \<lparr>wt_stream = s, wt_got = got @ [sample_no t]\<rparr>"
  unfolding assms(2) [symmetric]
  by (rule watched_callback [OF stream_step.frame_arrives [OF stream_at(2,1)]])
    (simp_all only: in_time_order_def got_after_def telemetry_frame option.case stream_message.case assms(1))

lemma stream_at_steps:
  "watched_step example_message (first_run ''run-1'' True EMPTY) \<lparr>wt_stream = stream_at 0, wt_got = []\<rparr>"
  "watched_step example_message \<lparr>wt_stream = stream_at 0, wt_got = []\<rparr> \<lparr>wt_stream = stream_at 1, wt_got = [sample_no 1]\<rparr>"
  "watched_step example_message \<lparr>wt_stream = stream_at 1, wt_got = [sample_no 1]\<rparr>
     \<lparr>wt_stream = stream_at 2, wt_got = [sample_no 1]\<rparr>"
  "watched_step example_message \<lparr>wt_stream = stream_at 2, wt_got = [sample_no 1]\<rparr>
     \<lparr>wt_stream = stream_at 3, wt_got = [sample_no 1, sample_no 2]\<rparr>"
proof -
  have quiet: "in_time_order as_message e s" "got_after as_message e got = got" if "delivers as_message e = None" for as_message e s got
    using that by (simp_all add: in_time_order_def got_after_def)
  have "stream_step example_message (mount ''run-1'' True EMPTY) (Socket_opens 1) (stream_at 0)"
    unfolding stream_at_next(1) [symmetric] by (rule stream_step.socket_opens) (simp_all add: mount_def connect_def)
  then show "watched_step example_message (first_run ''run-1'' True EMPTY) \<lparr>wt_stream = stream_at 0, wt_got = []\<rparr>"
    unfolding first_run_def by (rule watched_callback) (simp_all add: quiet delivers_def)
  show "watched_step example_message \<lparr>wt_stream = stream_at 1, wt_got = [sample_no 1]\<rparr>
      \<lparr>wt_stream = stream_at 2, wt_got = [sample_no 1]\<rparr>"
    unfolding stream_at_next(3) [symmetric]
    by (rule watched_callback [OF stream_step.flush_tick [OF stream_at(2)]]) (simp_all add: quiet delivers_def)
  have "sm_sample_buffer (stream_at 0) = []" by (simp add: stream_at_def)
  then show "watched_step example_message \<lparr>wt_stream = stream_at 0, wt_got = []\<rparr>
      \<lparr>wt_stream = stream_at 1, wt_got = [sample_no 1]\<rparr>"
    using telemetry_at [OF _ stream_at_next(2), of "[]"] by (simp add: stream_at(3))
  show "watched_step example_message \<lparr>wt_stream = stream_at 2, wt_got = [sample_no 1]\<rparr>
      \<lparr>wt_stream = stream_at 3, wt_got = [sample_no 1, sample_no 2]\<rparr>"
    using telemetry_at [OF _ stream_at_next(4), of "[sample_no 1]"] by (simp add: stream_at(5,7))
qed


end
