(* ===== verification/ApiPaths.thy ===== *)
theory ApiPaths
  imports ReportsPage ComparePage
begin

text \<open>
  The \<open>paths\<close> and \<open>operations\<close> of packages/client/src/schema.d.ts, the contract with the API server,
  and the requests that the hooks of the client make: useRuns and the others of hooks/use-runs.ts,
  use-scenarios.ts and use-system.ts, useCompare of the compare page and useReport of the reports.
\<close>

section \<open>Types of parameters and bodies\<close>

datatype http_method =
  HTTP_get | HTTP_put | HTTP_post | HTTP_delete | HTTP_options | HTTP_head | HTTP_patch | HTTP_trace

datatype api_type =
    T_string
  | T_number
  | T_boolean
  | T_enum "string list"
  | T_null_or api_type
  | T_array api_type

fun of_type :: "api_type \<Rightarrow> jsval \<Rightarrow> bool" where
  "of_type T_string v = (case v of Str _ \<Rightarrow> True | _ \<Rightarrow> False)"
| "of_type T_number v = (case v of Num _ \<Rightarrow> True | _ \<Rightarrow> False)"
| "of_type T_boolean v = (case v of Bool _ \<Rightarrow> True | _ \<Rightarrow> False)"
| "of_type (T_enum names) v = (case v of Str s \<Rightarrow> s \<in> set names | _ \<Rightarrow> False)"
| "of_type (T_null_or t) v = (v = Null \<or> of_type t v)"
| "of_type (T_array t) v = (case v of Arr vs \<Rightarrow> list_all (of_type t) vs | _ \<Rightarrow> False)"

text \<open>The fields of an object: name, whether it is required, type. No other field may be given.\<close>

type_synonym fields = "(string \<times> bool \<times> api_type) list"

definition fields_ok :: "fields \<Rightarrow> jsval obj \<Rightarrow> bool" where
  "fields_ok decl ob \<longleftrightarrow>
     distinct (map fst ob)
     \<and> list_all (\<lambda>(k, v). case map_of decl k of None \<Rightarrow> False | Some (_, t) \<Rightarrow> of_type t v) ob
     \<and> list_all (\<lambda>(k, required, _). required \<longrightarrow> k \<in> set (map fst ob)) decl"

definition run_state_type :: api_type where
  "run_state_type =
     T_enum [''CREATED'', ''VALIDATING'', ''QUEUED'', ''PREPARING'', ''RUNNING'', ''RECOVERING'', ''COLLECTING'',
             ''ANALYZING'', ''COMPLETED'', ''FAILED'', ''CANCELLED'']"

definition run_create_request :: fields where
  "run_create_request =
     [(''adapter'', False, T_null_or (T_enum [''mock'', ''px4-gazebo'', ''replay''])),
      (''document'', False, T_null_or T_string),
      (''label'', True, T_string),
      (''replay_source_run_id'', False, T_null_or T_string),
      (''scenario_name'', False, T_null_or T_string),
      (''seed'', False, T_null_or T_number),
      (''speed'', False, T_null_or T_number)]"

definition scenario_create_request :: fields where
  "scenario_create_request = [(''document'', True, T_string), (''overwrite'', True, T_boolean)]"

definition scenario_validate_request :: fields where
  "scenario_validate_request = [(''document'', True, T_string)]"

section \<open>Operations\<close>

text \<open>
  The content of a response: a schema of the API, an array of one, a text, or an object of any keys
  whose values have the named type. No operation has header or cookie parameters.
\<close>

datatype payload = Schema string | Schema_array string | Text | Json_map string

record api_operation =
  op_query :: fields
  op_path :: fields
  op_body :: "fields option"
  op_responses :: "(int \<times> (string \<times> payload) option) list"

definition json :: "int \<Rightarrow> payload \<Rightarrow> int \<times> (string \<times> payload) option" where
  "json status p = (status, Some (''application/json'', p))"

definition validation_error :: "int \<times> (string \<times> payload) option" where
  "validation_error = json 422 (Schema ''HTTPValidationError'')"

definition compare_api_v1_compare_get :: api_operation where
  "compare_api_v1_compare_get =
     \<lparr>op_query = [(''baseline'', True, T_string), (''candidate'', True, T_string)],
      op_path = [],
      op_body = None,
      op_responses = [json 200 (Schema ''CompareResponse''), validation_error]\<rparr>"

definition list_runs_api_v1_runs_get :: api_operation where
  "list_runs_api_v1_runs_get =
     \<lparr>op_query = [(''adapter'', False, T_null_or T_string), (''limit'', False, T_number),
                (''offset'', False, T_number), (''result'', False, T_null_or T_string),
                (''scenario'', False, T_null_or T_string),
                (''state'', False, T_null_or run_state_type)],
      op_path = [],
      op_body = None,
      op_responses = [json 200 (Schema ''RunListResponse''), validation_error]\<rparr>"

definition create_api_v1_runs_post :: api_operation where
  "create_api_v1_runs_post =
     \<lparr>op_query = [],
      op_path = [],
      op_body = Some run_create_request,
      op_responses = [json 202 (Schema ''RunDetail''), validation_error]\<rparr>"

definition get_run_api_v1_runs__run_id__get :: api_operation where
  "get_run_api_v1_runs__run_id__get =
     \<lparr>op_query = [],
      op_path = [(''run_id'', True, T_string)],
      op_body = None,
      op_responses = [json 200 (Schema ''RunDetail''), validation_error]\<rparr>"

definition artifacts_api_v1_runs__run_id__artifacts_get :: api_operation where
  "artifacts_api_v1_runs__run_id__artifacts_get =
     \<lparr>op_query = [],
      op_path = [(''run_id'', True, T_string)],
      op_body = None,
      op_responses = [json 200 (Schema_array ''ArtifactOut''), validation_error]\<rparr>"

definition artifact_api_v1_runs__run_id__artifacts__name__get :: api_operation where
  "artifact_api_v1_runs__run_id__artifacts__name__get =
     \<lparr>op_query = [],
      op_path = [(''name'', True, T_string), (''run_id'', True, T_string)],
      op_body = None,
      op_responses = [(200, Some (''application/octet-stream'', Text)), json 400 (Schema ''ApiError''),
                json 404 (Schema ''ApiError''), validation_error]\<rparr>"

definition cancel_api_v1_runs__run_id__cancel_post :: api_operation where
  "cancel_api_v1_runs__run_id__cancel_post =
     \<lparr>op_query = [],
      op_path = [(''run_id'', True, T_string)],
      op_body = None,
      op_responses = [json 200 (Schema ''CancelResponse''), validation_error]\<rparr>"

definition events_api_v1_runs__run_id__events_get :: api_operation where
  "events_api_v1_runs__run_id__events_get =
     \<lparr>op_query = [(''after_sequence'', False, T_number),
                (''kind'', False, T_null_or (T_array T_string)), (''limit'', False, T_number)],
      op_path = [(''run_id'', True, T_string)],
      op_body = None,
      op_responses = [json 200 (Schema ''EventsResponse''), validation_error]\<rparr>"

definition metrics_api_v1_runs__run_id__metrics_get :: api_operation where
  "metrics_api_v1_runs__run_id__metrics_get =
     \<lparr>op_query = [],
      op_path = [(''run_id'', True, T_string)],
      op_body = None,
      op_responses = [json 200 (Schema ''MetricsResponse''), validation_error]\<rparr>"

definition recording_api_v1_runs__run_id__recording_get :: api_operation where
  "recording_api_v1_runs__run_id__recording_get =
     \<lparr>op_query = [],
      op_path = [(''run_id'', True, T_string)],
      op_body = None,
      op_responses = [json 200 (Schema ''RecordingOut''), json 404 (Schema ''ApiError''),
                validation_error]\<rparr>"

definition report_api_v1_runs__run_id__report_get :: api_operation where
  "report_api_v1_runs__run_id__report_get =
     \<lparr>op_query = [],
      op_path = [(''run_id'', True, T_string)],
      op_body = None,
      op_responses = [json 200 (Schema ''ResilienceReport''), json 404 (Schema ''ApiError''),
                validation_error]\<rparr>"

definition report_html_api_v1_runs__run_id__report_html_get :: api_operation where
  "report_html_api_v1_runs__run_id__report_html_get =
     \<lparr>op_query = [],
      op_path = [(''run_id'', True, T_string)],
      op_body = None,
      op_responses = [(200, Some (''text/html'', Text)), json 404 (Schema ''ApiError''),
                validation_error]\<rparr>"

definition telemetry_api_v1_runs__run_id__telemetry_get :: api_operation where
  "telemetry_api_v1_runs__run_id__telemetry_get =
     \<lparr>op_query = [(''all'', False, T_boolean), (''from'', False, T_null_or T_number),
                (''limit'', False, T_null_or T_number), (''to'', False, T_null_or T_number)],
      op_path = [(''run_id'', True, T_string)],
      op_body = None,
      op_responses = [json 200 (Schema ''TelemetryResponse''), validation_error]\<rparr>"

definition list_scenarios_api_v1_scenarios_get :: api_operation where
  "list_scenarios_api_v1_scenarios_get =
     \<lparr>op_query = [],
      op_path = [],
      op_body = None,
      op_responses = [json 200 (Schema_array ''ScenarioSummary'')]\<rparr>"

definition create_scenario_api_v1_scenarios_post :: api_operation where
  "create_scenario_api_v1_scenarios_post =
     \<lparr>op_query = [],
      op_path = [],
      op_body = Some scenario_create_request,
      op_responses = [json 201 (Schema ''ScenarioDetail''), validation_error]\<rparr>"

definition get_scenario_api_v1_scenarios__name__get :: api_operation where
  "get_scenario_api_v1_scenarios__name__get =
     \<lparr>op_query = [],
      op_path = [(''name'', True, T_string)],
      op_body = None,
      op_responses = [json 200 (Schema ''ScenarioDetail''), validation_error]\<rparr>"

definition delete_scenario_api_v1_scenarios__name__delete :: api_operation where
  "delete_scenario_api_v1_scenarios__name__delete =
     \<lparr>op_query = [],
      op_path = [(''name'', True, T_string)],
      op_body = None,
      op_responses = [(204, None), validation_error]\<rparr>"

definition get_scenario_document_api_v1_scenarios__name__document_get :: api_operation where
  "get_scenario_document_api_v1_scenarios__name__document_get =
     \<lparr>op_query = [],
      op_path = [(''name'', True, T_string)],
      op_body = None,
      op_responses = [(200, None), validation_error]\<rparr>"

definition validate_scenario_api_v1_scenarios_validate_post :: api_operation where
  "validate_scenario_api_v1_scenarios_validate_post =
     \<lparr>op_query = [],
      op_path = [],
      op_body = Some scenario_validate_request,
      op_responses = [json 200 (Schema ''ScenarioValidateResponse''), validation_error]\<rparr>"

definition system_info_api_v1_system_get :: api_operation where
  "system_info_api_v1_system_get =
     \<lparr>op_query = [],
      op_path = [],
      op_body = None,
      op_responses = [json 200 (Schema ''SystemInfo'')]\<rparr>"

definition healthz_healthz_get :: api_operation where
  "healthz_healthz_get =
     \<lparr>op_query = [],
      op_path = [],
      op_body = None,
      op_responses = [json 200 (Json_map ''string'')]\<rparr>"

definition readyz_readyz_get :: api_operation where
  "readyz_readyz_get =
     \<lparr>op_query = [],
      op_path = [],
      op_body = None,
      op_responses = [json 200 (Json_map ''unknown'')]\<rparr>"

section \<open>Paths\<close>

type_synonym path_item = "(http_method \<times> api_operation) list"

definition compare_paths :: "(string \<times> path_item) list" where
  "compare_paths =
     [(''/api/v1/compare'', [(HTTP_get, compare_api_v1_compare_get)])]"

definition run_paths :: "(string \<times> path_item) list" where
  "run_paths =
     [(''/api/v1/runs'', [(HTTP_get, list_runs_api_v1_runs_get), (HTTP_post, create_api_v1_runs_post)]),
      (''/api/v1/runs/{run_id}'', [(HTTP_get, get_run_api_v1_runs__run_id__get)]),
      (''/api/v1/runs/{run_id}/artifacts'', [(HTTP_get, artifacts_api_v1_runs__run_id__artifacts_get)]),
      (''/api/v1/runs/{run_id}/artifacts/{name}'', [(HTTP_get, artifact_api_v1_runs__run_id__artifacts__name__get)]),
      (''/api/v1/runs/{run_id}/cancel'', [(HTTP_post, cancel_api_v1_runs__run_id__cancel_post)]),
      (''/api/v1/runs/{run_id}/events'', [(HTTP_get, events_api_v1_runs__run_id__events_get)]),
      (''/api/v1/runs/{run_id}/metrics'', [(HTTP_get, metrics_api_v1_runs__run_id__metrics_get)])]"

definition run_document_paths :: "(string \<times> path_item) list" where
  "run_document_paths =
     [(''/api/v1/runs/{run_id}/recording'', [(HTTP_get, recording_api_v1_runs__run_id__recording_get)]),
      (''/api/v1/runs/{run_id}/report'', [(HTTP_get, report_api_v1_runs__run_id__report_get)]),
      (''/api/v1/runs/{run_id}/report.html'', [(HTTP_get, report_html_api_v1_runs__run_id__report_html_get)]),
      (''/api/v1/runs/{run_id}/telemetry'', [(HTTP_get, telemetry_api_v1_runs__run_id__telemetry_get)])]"

definition scenario_paths :: "(string \<times> path_item) list" where
  "scenario_paths =
     [(''/api/v1/scenarios'', [(HTTP_get, list_scenarios_api_v1_scenarios_get),
                (HTTP_post, create_scenario_api_v1_scenarios_post)]),
      (''/api/v1/scenarios/{name}'', [(HTTP_get, get_scenario_api_v1_scenarios__name__get),
                (HTTP_delete, delete_scenario_api_v1_scenarios__name__delete)]),
      (''/api/v1/scenarios/{name}/document'', [(HTTP_get, get_scenario_document_api_v1_scenarios__name__document_get)]),
      (''/api/v1/scenarios/validate'', [(HTTP_post, validate_scenario_api_v1_scenarios_validate_post)])]"

definition system_paths :: "(string \<times> path_item) list" where
  "system_paths =
     [(''/api/v1/system'', [(HTTP_get, system_info_api_v1_system_get)]),
      (''/healthz'', [(HTTP_get, healthz_healthz_get)]),
      (''/readyz'', [(HTTP_get, readyz_readyz_get)])]"

definition paths :: "(string \<times> path_item) list" where
  "paths = compare_paths @ run_paths @ run_document_paths @ scenario_paths @ system_paths"

text \<open>packages/client/src/index.ts: the types the client exports, each with its schema.\<close>

definition client_types :: "(string \<times> string) list" where
  "client_types =
     [(''SystemInfo'', ''SystemInfo''), (''SystemTopology'', ''SystemTopology''),
      (''TopologyComponent'', ''Component''), (''TopologyDependency'', ''Dependency''),
      (''TrustBoundary'', ''TrustBoundary''), (''CatalogEntry'', ''CatalogEntryOut''),
      (''EffectDescriptor'', ''EffectDescriptor''), (''AdapterInfo'', ''AdapterOut''),
      (''RunnerInfo'', ''RunnerOut''), (''ScoreProfile'', ''ScoreProfile''),
      (''ScenarioSummary'', ''ScenarioSummary''), (''ScenarioDetail'', ''ScenarioDetail''),
      (''ScenarioValidateResponse'', ''ScenarioValidateResponse''),
      (''ValidationIssue'', ''ValidationIssue''), (''RunSummary'', ''RunSummary''),
      (''RunDetail'', ''RunDetail''), (''RunListResponse'', ''RunListResponse''),
      (''RunCreateRequest'', ''RunCreateRequest''), (''ArtifactInfo'', ''ArtifactOut''),
      (''ReportSummary'', ''ReportSummary''), (''RunEvent'', ''RunEvent''),
      (''EventsResponse'', ''EventsResponse''), (''TelemetrySample'', ''TelemetrySample''),
      (''TelemetryResponse'', ''TelemetryResponse''), (''PlannedPath'', ''PlannedPath''),
      (''Position'', ''Position''), (''MetricsResponse'', ''MetricsResponse''),
      (''MetricsResult'', ''MetricsResult''), (''ScoreResult'', ''ScoreResult''),
      (''DimensionScore'', ''DimensionScore''), (''AssertionResult'', ''AssertionResult''),
      (''RecoveryRecord'', ''RecoveryRecord''), (''PropagationMetrics'', ''PropagationMetrics''),
      (''CompareResponse'', ''CompareResponse''), (''MetricComparison'', ''MetricComparison''),
      (''AssertionComparison'', ''AssertionComparison''),
      (''DimensionComparison'', ''DimensionComparison''), (''ComponentState'', ''ComponentState''),
      (''RunState'', ''RunState''), (''BenchmarkResult'', ''BenchmarkResult''),
      (''Severity'', ''Severity''), (''EventKind'', ''EventKind''), (''FlightMode'', ''FlightMode''),
      (''MissionPhase'', ''MissionPhase''), (''Domain'', ''Domain''), (''Effect'', ''Effect''),
      (''StreamSnapshot'', ''StreamSnapshot''), (''StreamCompleted'', ''StreamCompleted''),
      (''StreamHeartbeat'', ''StreamHeartbeat''), (''StreamLifecycle'', ''LifecycleMessage''),
      (''StreamEvent'', ''EventMessage''), (''StreamTelemetry'', ''TelemetryMessage''),
      (''StreamRunFinished'', ''RunFinishedMessage'')]"

section \<open>Requests\<close>

record api_request =
  rq_method :: http_method
  rq_path :: string
  rq_params :: "jsval obj"
  rq_query :: "jsval obj"
  rq_body :: "jsval obj option"

text \<open>The names in the braces of a path.\<close>

function names_in :: "string \<Rightarrow> string list" where
  "names_in [] = []"
| "names_in (c # cs) =
     (if c = CHR ''{'' then takeWhile (\<lambda>d. d \<noteq> CHR ''}'') cs # names_in (dropWhile (\<lambda>d. d \<noteq> CHR ''}'') cs)
      else names_in cs)"
  by pat_completeness auto
termination
  by (relation "measure length") (auto simp: le_imp_less_Suc length_dropWhile_le)

text \<open>\<open>api.GET(path, { params: { path, query } })\<close>, from the parameters of the query.\<close>

definition get_request :: "query \<Rightarrow> api_request" where
  "get_request q =
     (let inPath = (\<lambda>(k, v). k \<in> set (names_in (qy_path q)))
      in \<lparr>rq_method = HTTP_get, rq_path = qy_path q, rq_params = filter inPath (qy_params q),
          rq_query = filter (\<lambda>p. \<not> inPath p) (qy_params q), rq_body = None\<rparr>)"

text \<open>\<open>api.POST(path, { params: { path }, body })\<close>\<close>

definition post_request :: "string \<Rightarrow> jsval obj \<Rightarrow> jsval obj option \<Rightarrow> api_request" where
  "post_request path params body =
     \<lparr>rq_method = HTTP_post, rq_path = path, rq_params = params, rq_query = [], rq_body = body\<rparr>"

definition validation_request :: "query \<Rightarrow> api_request" where
  "validation_request q = post_request (qy_path q) [] (Some (qy_params q))"

definition create_body :: "create_request \<Rightarrow> jsval obj" where
  "create_body c =
     (case cq_scenario_name c of None \<Rightarrow> [] | Some n \<Rightarrow> [(''scenario_name'', Str n)])
     @ (case cq_document c of None \<Rightarrow> [] | Some d \<Rightarrow> [(''document'', Str d)])
     @ [(''adapter'', Str (cq_adapter c)), (''speed'', Num (cq_speed c))]
     @ (case cq_seed c of None \<Rightarrow> [] | Some n \<Rightarrow> [(''seed'', Num n)])
     @ [(''label'', Str (cq_label c))]"

definition create_run :: "create_request \<Rightarrow> api_request" where
  "create_run c = post_request ''/api/v1/runs'' [] (Some (create_body c))"

definition cancel_run :: "string \<Rightarrow> api_request" where
  "cancel_run runId = post_request ''/api/v1/runs/{run_id}/cancel'' [(''run_id'', Str runId)] None"

definition save_scenario :: "save_request \<Rightarrow> api_request" where
  "save_scenario b =
     post_request ''/api/v1/scenarios'' []
       (Some [(''document'', Str (sv_document b)), (''overwrite'', Bool (sv_overwrite b))])"

section \<open>The client keeps to the contract\<close>

definition declared :: "api_request \<Rightarrow> api_operation option" where
  "declared r = Option.bind (map_of paths (rq_path r)) (\<lambda>item. map_of item (rq_method r))"

definition conforms :: "api_request \<Rightarrow> bool" where
  "conforms r =
     (case declared r of
        None \<Rightarrow> False
      | Some oper \<Rightarrow>
          fields_ok (op_path oper) (rq_params r) \<and> fields_ok (op_query oper) (rq_query r)
          \<and> (case (op_body oper, rq_body r) of
               (None, None) \<Rightarrow> True
             | (Some decl, Some ob) \<Rightarrow> fields_ok decl ob
             | _ \<Rightarrow> False))"

text \<open>The type of the data of a successful answer.\<close>

definition answer :: "api_request \<Rightarrow> payload option" where
  "answer r =
     Option.bind (declared r) (\<lambda>oper.
       Option.bind (find (\<lambda>(status, _). 200 \<le> status \<and> status < 300) (op_responses oper))
         (\<lambda>(_, content). map_option snd content))"

lemmas operation_defs =
  compare_api_v1_compare_get_def list_runs_api_v1_runs_get_def create_api_v1_runs_post_def
  get_run_api_v1_runs__run_id__get_def cancel_api_v1_runs__run_id__cancel_post_def
  events_api_v1_runs__run_id__events_get_def metrics_api_v1_runs__run_id__metrics_get_def
  report_api_v1_runs__run_id__report_get_def telemetry_api_v1_runs__run_id__telemetry_get_def
  list_scenarios_api_v1_scenarios_get_def create_scenario_api_v1_scenarios_post_def
  get_scenario_api_v1_scenarios__name__get_def validate_scenario_api_v1_scenarios_validate_post_def
  system_info_api_v1_system_get_def

lemma paths_of:
  "map_of paths ''/api/v1/compare'' = Some [(HTTP_get, compare_api_v1_compare_get)]"
  "map_of paths ''/api/v1/runs'' = Some [(HTTP_get, list_runs_api_v1_runs_get), (HTTP_post, create_api_v1_runs_post)]"
  "map_of paths ''/api/v1/runs/{run_id}'' = Some [(HTTP_get, get_run_api_v1_runs__run_id__get)]"
  "map_of paths ''/api/v1/runs/{run_id}/cancel'' = Some [(HTTP_post, cancel_api_v1_runs__run_id__cancel_post)]"
  "map_of paths ''/api/v1/runs/{run_id}/events'' = Some [(HTTP_get, events_api_v1_runs__run_id__events_get)]"
  "map_of paths ''/api/v1/runs/{run_id}/metrics'' = Some [(HTTP_get, metrics_api_v1_runs__run_id__metrics_get)]"
  "map_of paths ''/api/v1/runs/{run_id}/report'' = Some [(HTTP_get, report_api_v1_runs__run_id__report_get)]"
  "map_of paths ''/api/v1/runs/{run_id}/telemetry'' = Some [(HTTP_get, telemetry_api_v1_runs__run_id__telemetry_get)]"
  "map_of paths ''/api/v1/scenarios'' =
     Some [(HTTP_get, list_scenarios_api_v1_scenarios_get), (HTTP_post, create_scenario_api_v1_scenarios_post)]"
  "map_of paths ''/api/v1/scenarios/{name}'' =
     Some [(HTTP_get, get_scenario_api_v1_scenarios__name__get), (HTTP_delete, delete_scenario_api_v1_scenarios__name__delete)]"
  "map_of paths ''/api/v1/scenarios/validate'' = Some [(HTTP_post, validate_scenario_api_v1_scenarios_validate_post)]"
  "map_of paths ''/api/v1/system'' = Some [(HTTP_get, system_info_api_v1_system_get)]"
  by (simp_all add: paths_def compare_paths_def run_paths_def run_document_paths_def scenario_paths_def system_paths_def)

lemma get_conforms:
  "conforms (get_request (use_run runId poll))" "conforms (get_request (use_run_events runId on limit))"
  "conforms (get_request (use_run_telemetry runId on limit))" "conforms (get_request (use_run_metrics runId on))"
  "conforms (get_request use_scenarios)" "conforms (get_request (use_scenario name))"
  "conforms (get_request use_system_info)" "conforms (get_request (compare_query params))"
  "conforms (get_request (report_query runId))"
  by (simp_all add: conforms_def declared_def get_request_def use_run_def use_run_events_def use_run_telemetry_def
      use_run_metrics_def use_scenarios_def use_scenario_def use_system_info_def compare_query_def report_query_def
      simple_query_def paths_of operation_defs fields_ok_def Let_def)

lemma post_conforms:
  "conforms (validation_request (use_scenario_validation document on))" "conforms (cancel_run runId)"
  "conforms (save_scenario b)"
  by (simp_all add: conforms_def declared_def post_request_def validation_request_def cancel_run_def save_scenario_def
      use_scenario_validation_def simple_query_def paths_of operation_defs fields_ok_def scenario_validate_request_def
      scenario_create_request_def)

text \<open>The two values that the code casts: a state from the address, and the name of an adapter.\<close>

lemma runs_conforms:
  "conforms (get_request (use_runs f known)) \<longleftrightarrow> nullish (rf_state f) [] \<in> set ([] # map run_state_str RUN_STATES)"
proof -
  have request: "get_request (use_runs f known) =
      \<lparr>rq_method = HTTP_get, rq_path = ''/api/v1/runs'', rq_params = [], rq_query = run_query f, rq_body = None\<rparr>"
    by (simp add: get_request_def use_runs_def simple_query_def)
  have state: "of_type run_state_type (Str s) \<longleftrightarrow> s \<in> run_state_str ` set RUN_STATES" for s
    by (simp add: run_state_type_def RUN_STATES_def)
  have query: "fields_ok (op_query list_runs_api_v1_runs_get) (run_query f) \<longleftrightarrow>
      list_all (\<lambda>(k, v). of_type (T_null_or run_state_type) v) (filter_field ''state'' (rf_state f))"
    by (auto simp: fields_ok_def operation_defs run_query_def filter_field_def simp del: of_type.simps(5))
      (simp_all)
  show ?thesis
    unfolding request conforms_def declared_def
    by (simp add: paths_of query) (auto simp: operation_defs fields_ok_def filter_field_def truthy_def state
        split: option.split)
qed

lemma create_conforms:
  "conforms (create_run c) \<longleftrightarrow> cq_adapter c \<in> set [''mock'', ''px4-gazebo'', ''replay'']"
  by (auto simp: conforms_def declared_def post_request_def create_run_def create_body_def paths_of operation_defs
      fields_ok_def run_create_request_def split: option.split)

lemma answers:
  "answer (get_request (use_run runId poll)) = Some (Schema ''RunDetail'')"
  "answer (get_request (use_run_events runId on limit)) = Some (Schema ''EventsResponse'')"
  "answer (get_request (use_run_telemetry runId on limit)) = Some (Schema ''TelemetryResponse'')"
  "answer (get_request (use_run_metrics runId on)) = Some (Schema ''MetricsResponse'')"
  "answer (get_request use_scenarios) = Some (Schema_array ''ScenarioSummary'')"
  "answer (get_request (use_scenario name)) = Some (Schema ''ScenarioDetail'')"
  "answer (get_request use_system_info) = Some (Schema ''SystemInfo'')"
  "answer (get_request (compare_query params)) = Some (Schema ''CompareResponse'')"
  "answer (get_request (report_query runId)) = Some (Schema ''ResilienceReport'')"
  "answer (get_request (use_runs f known)) = Some (Schema ''RunListResponse'')"
  by (simp_all add: answer_def declared_def get_request_def use_run_def use_run_events_def use_run_telemetry_def
      use_run_metrics_def use_scenarios_def use_scenario_def use_system_info_def compare_query_def report_query_def
      use_runs_def simple_query_def paths_of operation_defs json_def Let_def)

lemma post_answers:
  "answer (validation_request (use_scenario_validation document on)) = Some (Schema ''ScenarioValidateResponse'')"
  "answer (cancel_run runId) = Some (Schema ''CancelResponse'')" "answer (save_scenario b) = Some (Schema ''ScenarioDetail'')"
  "answer (create_run c) = Some (Schema ''RunDetail'')"
  by (simp_all add: answer_def declared_def post_request_def validation_request_def cancel_run_def save_scenario_def
      create_run_def use_scenario_validation_def simple_query_def paths_of operation_defs json_def)


end
